(* ===== verification/Prelude.thy ===== *)
theory Prelude
  imports Main "HOL-Library.AList" "HOL-Library.Char_ord" "HOL-Library.List_Lexorder"
    "HOL-Library.Sublist"
begin

text \<open>
  The vocabulary every component shares: Python's string operations, results that may be an
  error, and the lemma collections.

  A Python string is a sequence of code points. The model covers the code points below 256: a
  \<^typ>\<open>char\<close> is the code point of its number, and a \<^typ>\<open>string\<close> a Python \<open>str\<close> over that range. On
  it every operation below is Python's own: \<open>str.lower\<close> (ASCII and Latin-1 capitals),
  \<open>str.strip\<close> (ten white-space code points below 256), \<open>str.splitlines\<close> (all of its
  boundaries below 256, not only the newline) and UTF-8 encoding (one or two bytes).
\<close>

named_theorems py \<open>evaluation rules for the Python operations of the model\<close>
named_theorems preserved \<open>an operation keeps an invariant\<close>

subsection \<open>Results: a value, or the exception that was raised\<close>

definition and_then :: "'e + 'a \<Rightarrow> ('a \<Rightarrow> 'e + 'b) \<Rightarrow> 'e + 'b" where
  "and_then r f = (case r of Inl e \<Rightarrow> Inl e | Inr x \<Rightarrow> f x)"

lemma and_then_simps [simp]:
  "and_then (Inl e) f = Inl e"
  "and_then (Inr x) f = f x"
  by (simp_all add: and_then_def)

lemma and_then_eq_Inr [simp]:
  "and_then r f = Inr y \<longleftrightarrow> (\<exists>x. r = Inr x \<and> f x = Inr y)"
  by (cases r) simp_all

lemma and_then_eq_Inl:
  "and_then r f = Inl e \<longleftrightarrow> r = Inl e \<or> (\<exists>x. r = Inr x \<and> f x = Inl e)"
  by (cases r) simp_all

fun map_res :: "('a \<Rightarrow> 'e + 'b) \<Rightarrow> 'a list \<Rightarrow> 'e + 'b list" where
  "map_res f [] = Inr []"
| "map_res f (x # xs) =
     and_then (f x) (\<lambda>y. and_then (map_res f xs) (\<lambda>ys. Inr (y # ys)))"

lemma map_res_Inr_length: "map_res f xs = Inr ys \<Longrightarrow> length ys = length xs"
  by (induction xs arbitrary: ys) auto

lemma map_res_total:
  "(\<And>x. x \<in> set xs \<Longrightarrow> f x = Inr (g x)) \<Longrightarrow> map_res f xs = Inr (map g xs)"
  by (induction xs) simp_all

subsection \<open>Code points\<close>

definition code :: "char \<Rightarrow> nat" where
  "code c = of_char c"

lemma code_char_of [simp]: "n < 256 \<Longrightarrow> code (char_of n) = n"
  by (simp add: code_def)

lemma code_less [simp]: "code c < 256"
  by (simp add: code_def)

lemma code_inj: "code c = code d \<longleftrightarrow> c = d"
  by (simp add: code_def)

definition lower_char :: "char \<Rightarrow> char" where
  "lower_char c =
     (let n = code c
      in if (65 \<le> n \<and> n \<le> 90) \<or> (192 \<le> n \<and> n \<le> 222 \<and> n \<noteq> 215) then char_of (n + 32) else c)"

definition py_lower :: "string \<Rightarrow> string" where
  "py_lower s = map lower_char s"

lemma lower_char_idem [simp]: "lower_char (lower_char c) = lower_char c"
  by (auto simp: lower_char_def Let_def)

lemma py_lower_idem [simp]: "py_lower (py_lower s) = py_lower s"
  by (simp add: py_lower_def)

lemma length_py_lower [simp]: "length (py_lower s) = length s"
  by (simp add: py_lower_def)

lemma py_lower_append [simp]: "py_lower (s @ t) = py_lower s @ py_lower t"
  by (simp add: py_lower_def)

lemma py_lower_Nil [simp]: "py_lower [] = []"
  by (simp add: py_lower_def)

definition is_space :: "char \<Rightarrow> bool" where
  "is_space c = (let n = code c in (9 \<le> n \<and> n \<le> 13) \<or> (28 \<le> n \<and> n \<le> 32) \<or> n = 133 \<or> n = 160)"

text \<open>The same, tested against the characters themselves, for evaluation.\<close>

lemma is_space_code [code]:
  "is_space c \<longleftrightarrow> c \<in> set [CHR 0x09, CHR 0x0A, CHR 0x0B, CHR 0x0C, CHR 0x0D, CHR 0x1C,
     CHR 0x1D, CHR 0x1E, CHR 0x1F, CHR '' '', CHR 0x85, CHR 0xA0]"
proof -
  have low: "9 \<le> n \<and> n \<le> 13 \<longleftrightarrow> n = 9 \<or> n = 10 \<or> n = 11 \<or> n = 12 \<or> n = 13"
    and mid: "28 \<le> n \<and> n \<le> 32 \<longleftrightarrow> n = 28 \<or> n = 29 \<or> n = 30 \<or> n = 31 \<or> n = 32" for n :: nat
    by presburger+
  have "code c \<in> code ` S \<longleftrightarrow> c \<in> S" for S by (simp add: image_iff code_inj)
  from this [of "set [CHR 0x09, CHR 0x0A, CHR 0x0B, CHR 0x0C, CHR 0x0D, CHR 0x1C,
     CHR 0x1D, CHR 0x1E, CHR 0x1F, CHR '' '', CHR 0x85, CHR 0xA0]"]
  have "c \<in> set [CHR 0x09, CHR 0x0A, CHR 0x0B, CHR 0x0C, CHR 0x0D, CHR 0x1C,
     CHR 0x1D, CHR 0x1E, CHR 0x1F, CHR '' '', CHR 0x85, CHR 0xA0]
    \<longleftrightarrow> code c \<in> {9, 10, 11, 12, 13, 28, 29, 30, 31, 32, 133, 160}"
    by (simp add: code_def)
  then show ?thesis
    unfolding is_space_def Let_def low mid by (simp only: insert_iff empty_iff disj_assoc simp_thms)
qed

definition is_digit :: "char \<Rightarrow> bool" where
  "is_digit c = (48 \<le> code c \<and> code c \<le> 57)"

definition is_az :: "char \<Rightarrow> bool" where
  "is_az c = (97 \<le> code c \<and> code c \<le> 122)"

definition is_AZ :: "char \<Rightarrow> bool" where
  "is_AZ c = (65 \<le> code c \<and> code c \<le> 90)"

subsection \<open>Stripping, searching, splitting\<close>

definition lstrip_on :: "(char \<Rightarrow> bool) \<Rightarrow> string \<Rightarrow> string" where
  "lstrip_on p s = dropWhile p s"

definition rstrip_on :: "(char \<Rightarrow> bool) \<Rightarrow> string \<Rightarrow> string" where
  "rstrip_on p s = rev (dropWhile p (rev s))"

definition strip_on :: "(char \<Rightarrow> bool) \<Rightarrow> string \<Rightarrow> string" where
  "strip_on p s = rstrip_on p (lstrip_on p s)"

definition py_strip :: "string \<Rightarrow> string" where
  "py_strip s = strip_on is_space s"

lemma set_rstrip_on: "set (rstrip_on p s) \<subseteq> set s"
  unfolding rstrip_on_def set_rev by (metis set_dropWhileD set_rev subsetI)

lemma set_strip_on: "set (strip_on p s) \<subseteq> set s"
proof
  fix x assume "x \<in> set (strip_on p s)"
  then have "x \<in> set (lstrip_on p s)" using set_rstrip_on by (auto simp: strip_on_def)
  then show "x \<in> set s" by (auto simp: lstrip_on_def dest: set_dropWhileD)
qed

lemma hd_lstrip_on: "lstrip_on p s \<noteq> [] \<Longrightarrow> \<not> p (hd (lstrip_on p s))"
  by (simp add: lstrip_on_def hd_dropWhile)

lemma last_rstrip_on: "rstrip_on p s \<noteq> [] \<Longrightarrow> \<not> p (last (rstrip_on p s))"
  by (simp add: rstrip_on_def last_rev hd_dropWhile)

lemma rstrip_on_prefix: "prefix (rstrip_on p s) s"
proof -
  have "suffix (dropWhile p (rev s)) (rev s)" by (rule suffix_dropWhile)
  then show ?thesis by (simp add: rstrip_on_def suffix_to_prefix)
qed

lemma hd_strip_on:
  assumes "strip_on p s \<noteq> []"
  shows "\<not> p (hd (strip_on p s))"
proof -
  obtain z where z: "lstrip_on p s = strip_on p s @ z"
    using rstrip_on_prefix [of p "lstrip_on p s"] by (auto simp: strip_on_def prefix_def)
  with assms have "hd (lstrip_on p s) = hd (strip_on p s)" "lstrip_on p s \<noteq> []" by auto
  then show ?thesis using hd_lstrip_on by metis
qed

lemma last_strip_on: "strip_on p s \<noteq> [] \<Longrightarrow> \<not> p (last (strip_on p s))"
  by (simp add: strip_on_def last_rstrip_on)

lemma strip_on_id:
  "s = [] \<or> (\<not> p (hd s) \<and> \<not> p (last s)) \<Longrightarrow> strip_on p s = s"
proof -
  have l: "\<not> p (hd t) \<Longrightarrow> dropWhile p t = t" for t by (cases t) simp_all
  assume "s = [] \<or> (\<not> p (hd s) \<and> \<not> p (last s))"
  then show ?thesis
    by (auto simp: strip_on_def lstrip_on_def rstrip_on_def l hd_rev)
qed

definition strip_char :: "char \<Rightarrow> string \<Rightarrow> string" where
  "strip_char d s = strip_on (\<lambda>c. c = d) s"

text \<open>\<open>needle in s\<close>, \<open>s.split(sep)\<close> for a one-character separator, and the text after the
  first occurrence of a needle (\<open>s.split(needle, 1)[1]\<close>).\<close>

lemma prefix_take_iff: "prefix p s \<longleftrightarrow> take (length p) s = p"
  by (metis append_eq_conv_conj append_take_drop_id prefix_def)

fun contains :: "string \<Rightarrow> string \<Rightarrow> bool" where
  "contains n [] = (n = [])"
| "contains n (c # cs) = (prefix n (c # cs) \<or> contains n cs)"

lemma contains_iff: "contains n s \<longleftrightarrow> (\<exists>a b. s = a @ n @ b)"
proof (induction s)
  case (Cons c cs)
  have "(\<exists>a b. c # cs = a @ n @ b) \<longleftrightarrow> prefix n (c # cs) \<or> (\<exists>a b. cs = a @ n @ b)"
    by (auto simp: prefix_def Cons_eq_append_conv)
  with Cons show ?case by simp
qed auto

fun after_first :: "string \<Rightarrow> string \<Rightarrow> string option" where
  "after_first n [] = (if n = [] then Some [] else None)"
| "after_first n (c # cs) =
     (if prefix n (c # cs) then Some (drop (length n) (c # cs)) else after_first n cs)"

fun split_char :: "char \<Rightarrow> string \<Rightarrow> string list" where
  "split_char d [] = [[]]"
| "split_char d (c # cs) =
     (if c = d then [] # split_char d cs
      else (case split_char d cs of [] \<Rightarrow> [[c]] | w # ws \<Rightarrow> (c # w) # ws))"

lemma split_char_ne [simp]: "split_char d s \<noteq> []"
  by (cases s) (auto split: list.splits)

fun join :: "string \<Rightarrow> string list \<Rightarrow> string" where
  "join sep [] = []"
| "join sep [w] = w"
| "join sep (w # ws) = w @ sep @ join sep ws"

lemma join_Cons: "ws \<noteq> [] \<Longrightarrow> join sep (w # ws) = w @ sep @ join sep ws"
  by (cases ws) simp_all

lemma join_split_char: "join [d] (split_char d s) = s"
proof (induction s)
  case (Cons c cs)
  obtain w ws where w: "split_char d cs = w # ws" by (cases "split_char d cs") auto
  with Cons show ?case by (cases ws) simp_all
qed simp

lemma split_char_none: "d \<notin> set s \<Longrightarrow> split_char d s = [s]"
  by (induction s) auto

lemma split_char_append:
  "d \<notin> set s \<Longrightarrow> split_char d (s @ d # t) = s # split_char d t"
  by (induction s) auto

subsection \<open>Lines\<close>

definition is_break :: "char \<Rightarrow> bool" where
  "is_break c = (let n = code c in (10 \<le> n \<and> n \<le> 13) \<or> (28 \<le> n \<and> n \<le> 30) \<or> n = 133)"

lemma is_break_code [code]:
  "is_break c \<longleftrightarrow> c \<in> set [CHR 0x0A, CHR 0x0B, CHR 0x0C, CHR 0x0D, CHR 0x1C, CHR 0x1D, CHR 0x1E, CHR 0x85]"
proof -
  have ten: "10 \<le> n \<and> n \<le> 13 \<longleftrightarrow> n = 10 \<or> n = 11 \<or> n = 12 \<or> n = 13"
    and low: "28 \<le> n \<and> n \<le> 30 \<longleftrightarrow> n = 28 \<or> n = 29 \<or> n = 30" for n :: nat
    by presburger+
  have "code c \<in> code ` S \<longleftrightarrow> c \<in> S" for S by (simp add: image_iff code_inj)
  from this [of "set [CHR 0x0A, CHR 0x0B, CHR 0x0C, CHR 0x0D, CHR 0x1C, CHR 0x1D, CHR 0x1E, CHR 0x85]"]
  have "c \<in> set [CHR 0x0A, CHR 0x0B, CHR 0x0C, CHR 0x0D, CHR 0x1C, CHR 0x1D, CHR 0x1E, CHR 0x85]
    \<longleftrightarrow> code c \<in> {10, 11, 12, 13, 28, 29, 30, 133}"
    by (simp add: code_def)
  then show ?thesis
    unfolding is_break_def Let_def ten low by (simp only: insert_iff empty_iff disj_assoc simp_thms)
qed

definition slash :: char where "slash = CHR ''/''"
definition cr :: char where "cr = CHR 0x0D"
definition lf :: char where "lf = CHR 0x0A"

lemma is_break_lf [simp]: "is_break lf" and is_break_cr [simp]: "is_break cr"
  by (simp_all add: is_break_def lf_def cr_def code_def)

lemma lf_neq_cr [simp]: "lf \<noteq> cr" "cr \<noteq> lf"
  by (simp_all add: lf_def cr_def)

text \<open>\<open>s.splitlines(keepends=True)\<close> and \<open>s.splitlines()\<close>.\<close>

fun splitlines_keep :: "string \<Rightarrow> string list" where
  "splitlines_keep [] = []"
| "splitlines_keep (c # cs) =
     (if c = cr \<and> cs \<noteq> [] \<and> hd cs = lf then [cr, lf] # splitlines_keep (tl cs)
      else if is_break c then [c] # splitlines_keep cs
      else (case splitlines_keep cs of [] \<Rightarrow> [[c]] | w # ws \<Rightarrow> (c # w) # ws))"

definition drop_ending :: "string \<Rightarrow> string" where
  "drop_ending l = rstrip_on is_break l"

definition splitlines :: "string \<Rightarrow> string list" where
  "splitlines s = map drop_ending (splitlines_keep s)"

lemma splitlines_keep_Nil_iff [simp]: "splitlines_keep s = [] \<longleftrightarrow> s = []"
  by (cases s) (auto split: list.splits)

lemma concat_splitlines_keep [simp]: "concat (splitlines_keep s) = s"
proof (induction s rule: splitlines_keep.induct)
  case (2 c cs)
  show ?case
  proof (cases "c = cr \<and> cs \<noteq> [] \<and> hd cs = lf")
    case True
    with 2 show ?thesis by (cases cs) simp_all
  next
    case False
    with 2 have "concat (splitlines_keep cs) = cs" by (cases "is_break c") simp_all
    with False show ?thesis by (auto split: list.splits)
  qed
qed simp

lemma splitlines_keep_line:
  assumes "\<forall>c \<in> set l. \<not> is_break c"
  shows "splitlines_keep (l @ lf # t) = (l @ [lf]) # splitlines_keep t"
  using assms
proof (induction l)
  case (Cons a l)
  then have "a \<noteq> cr" by auto
  with Cons show ?case by simp
qed simp

lemma splitlines_keep_last:
  assumes "\<forall>c \<in> set l. \<not> is_break c" and "l \<noteq> []"
  shows "splitlines_keep l = [l]"
  using assms
proof (induction l)
  case (Cons a l)
  then have "a \<noteq> cr" by auto
  with Cons show ?case by (cases "l = []") auto
qed simp

lemma drop_ending_line:
  "\<forall>c \<in> set l. \<not> is_break c \<Longrightarrow> drop_ending (l @ [lf]) = l"
  "\<forall>c \<in> set l. \<not> is_break c \<Longrightarrow> drop_ending l = l"
  by (cases l rule: rev_cases; simp add: drop_ending_def rstrip_on_def)+

lemma splitlines_line:
  "\<forall>c \<in> set l. \<not> is_break c \<Longrightarrow> splitlines (l @ lf # t) = l # splitlines t"
  by (simp add: splitlines_def splitlines_keep_line drop_ending_line)

definition no_breaks :: "string \<Rightarrow> bool" where
  "no_breaks l = (\<forall>c \<in> set l. \<not> is_break c)"

lemma splitlines_Nil [simp]: "splitlines [] = []"
  by (simp add: splitlines_def)

subsection \<open>Decimal numerals\<close>

fun nat_str :: "nat \<Rightarrow> string" where
  "nat_str n = (if n < 10 then [char_of (48 + n)] else nat_str (n div 10) @ [char_of (48 + n mod 10)])"

declare nat_str.simps [simp del]

definition int_str :: "int \<Rightarrow> string" where
  "int_str i = (if i < 0 then ''-'' @ nat_str (nat (- i)) else nat_str (nat i))"

definition digits_val :: "string \<Rightarrow> nat" where
  "digits_val s = foldl (\<lambda>n c. 10 * n + (code c - 48)) 0 s"

lemma nat_str_ne [simp]: "nat_str n \<noteq> []"
  by (subst nat_str.simps) simp

lemma nat_str_digits: "\<forall>c \<in> set (nat_str n). is_digit c"
proof (induction n rule: nat_str.induct)
  case (1 n)
  then show ?case by (subst nat_str.simps) (auto simp: is_digit_def)
qed

lemma digits_val_nat_str [simp]: "digits_val (nat_str n) = n"
proof (induction n rule: nat_str.induct)
  case (1 n)
  then show ?case by (subst nat_str.simps) (auto simp: digits_val_def)
qed

lemma nat_str_inj [simp]: "nat_str m = nat_str n \<longleftrightarrow> m = n"
  by (metis digits_val_nat_str)

lemma length_nat_str_le: "n < 10 ^ Suc k \<Longrightarrow> length (nat_str n) \<le> Suc k"
proof (induction k arbitrary: n)
  case 0
  then show ?case by (subst nat_str.simps) simp
next
  case (Suc k)
  then have "n div 10 < 10 ^ Suc k" by (simp add: div_less_iff_less_mult mult.commute)
  then have "length (nat_str (n div 10)) \<le> Suc k" by (rule Suc.IH)
  then show ?case by (subst nat_str.simps) simp
qed

subsection \<open>Dictionaries\<close>

text \<open>A Python dict keeps insertion order: an association list. Assignment replaces in place or
  appends, which is \<^const>\<open>AList.update\<close>; \<open>pop(k, None)\<close> is \<^const>\<open>AList.delete\<close>.\<close>

lemma map_of_update [simp]: "map_of (AList.update k v m) = (map_of m)(k \<mapsto> v)"
  by (simp add: update_conv')

lemma map_of_delete [simp]: "map_of (AList.delete k m) = (map_of m)(k := None)"
  by (simp add: delete_conv')

lemma keys_update: "fst ` set (AList.update k v m) = insert k (fst ` set m)"
  by (simp add: dom_update)

subsection \<open>Systems that move in steps\<close>

text \<open>The contract between a step relation and an invariant of it: what holds at a start state and
  is kept by every step holds wherever a run gets to.\<close>

locale step_system =
  fixes start :: "'s \<Rightarrow> bool"
    and step :: "'s \<Rightarrow> 's \<Rightarrow> bool"
    and inv :: "'s \<Rightarrow> bool"
  assumes inv_start: "start s \<Longrightarrow> inv s"
    and inv_step: "step s t \<Longrightarrow> inv s \<Longrightarrow> inv t"
begin

lemma inv_steps: "step\<^sup>*\<^sup>* s t \<Longrightarrow> inv s \<Longrightarrow> inv t"
  by (induction rule: rtranclp_induct) (auto intro: inv_step)

lemma inv_reachable: "start s \<Longrightarrow> step\<^sup>*\<^sup>* s t \<Longrightarrow> inv t"
  by (blast intro: inv_start inv_steps)

end

end
