(* ===== verification/Values.thy ===== *)
theory Values
  imports Prelude
begin

text \<open>
  JSON documents as the Python values \<open>json.loads\<close> builds, the errors of
  \<^verbatim>\<open>smbpal/errors.py\<close>, and the validation problems they carry.

  A dict is its association list in insertion order (keys distinct, as Python keeps them). A float
  is carried as its \<open>repr\<close>, the only thing the modelled code reads of one. The prose of a message
  is kept where the code computes with it (the \<open>where\<close> of a problem, an identifier, a file's text)
  and is a constructor with the interpolated values where it is only shown to a person.
\<close>

datatype json =
    JNull
  | JBool bool
  | JInt int
  | JFloat string
  | JStr string
  | JList "json list"
  | JObj "(string \<times> json) list"

type_synonym obj = "(string \<times> json) list"

text \<open>\<open>obj.get(k)\<close>: a missing key reads as \<open>None\<close>.\<close>

definition get :: "obj \<Rightarrow> string \<Rightarrow> json" where
  "get ob k = (case map_of ob k of None \<Rightarrow> JNull | Some v \<Rightarrow> v)"

definition keys :: "obj \<Rightarrow> string list" where
  "keys ob = remdups (map fst ob)"

definition kind :: "json \<Rightarrow> string" where
  "kind v = (case v of
      JNull \<Rightarrow> ''null'' | JBool _ \<Rightarrow> ''a boolean'' | JInt _ \<Rightarrow> ''a number''
    | JFloat _ \<Rightarrow> ''a number'' | JStr _ \<Rightarrow> ''a string'' | JList _ \<Rightarrow> ''a list''
    | JObj _ \<Rightarrow> ''an object'')"

lemma get_Nil [simp]: "get [] k = JNull"
  by (simp add: get_def)

lemma get_Cons [simp]: "get ((k', v) # ob) k = (if k = k' then v else get ob k)"
  by (simp add: get_def)

lemma get_update [simp]: "get (AList.update k v ob) k' = (if k' = k then v else get ob k')"
  by (simp add: get_def)

lemma get_not_key: "k \<notin> set (keys ob) \<Longrightarrow> get ob k = JNull"
  by (auto simp: get_def keys_def split: option.splits dest: map_of_SomeD intro: rev_image_eqI)

lemma set_keys [simp]: "set (keys ob) = fst ` set ob"
  by (simp add: keys_def)

lemma get_key: "get ob k \<noteq> JNull \<Longrightarrow> k \<in> fst ` set ob"
  using get_not_key [of k ob] by auto

subsection \<open>Truth and text of a value\<close>

fun truthy :: "json \<Rightarrow> bool" where
  "truthy JNull = False"
| "truthy (JBool b) = b"
| "truthy (JInt i) = (i \<noteq> 0)"
| "truthy (JFloat r) = (r \<noteq> ''0.0'' \<and> r \<noteq> ''-0.0'')"
| "truthy (JStr s) = (s \<noteq> [])"
| "truthy (JList xs) = (xs \<noteq> [])"
| "truthy (JObj ob) = (ob \<noteq> [])"

text \<open>\<open>repr\<close> of a string: single quotes unless the text has a single quote and no double one;
  the backslash, the quote and the unprintable code points escaped.\<close>

definition hex_digit :: "nat \<Rightarrow> char" where
  "hex_digit n = (if n < 10 then char_of (48 + n) else char_of (87 + n))"

definition hex2 :: "char \<Rightarrow> string" where
  "hex2 c = [hex_digit (code c div 16), hex_digit (code c mod 16)]"

definition backslash :: char where "backslash = CHR 0x5C"
definition quote1 :: char where "quote1 = CHR 0x27"
definition quote2 :: char where "quote2 = CHR 0x22"

definition repr_char :: "char \<Rightarrow> char \<Rightarrow> string" where
  "repr_char q c =
     (if c = backslash \<or> c = q then [backslash, c]
      else if c = lf then [backslash, CHR ''n'']
      else if c = cr then [backslash, CHR ''r'']
      else if c = CHR 0x09 then [backslash, CHR ''t'']
      else if code c < 32 \<or> (127 \<le> code c \<and> code c \<le> 160) \<or> code c = 173
        then [backslash, CHR ''x''] @ hex2 c
      else [c])"

definition repr_str :: "string \<Rightarrow> string" where
  "repr_str s =
     (let q = (if quote1 \<in> set s \<and> quote2 \<notin> set s then quote2 else quote1)
      in [q] @ concat (map (repr_char q) s) @ [q])"

fun repr :: "json \<Rightarrow> string" where
  "repr JNull = ''None''"
| "repr (JBool b) = (if b then ''True'' else ''False'')"
| "repr (JInt i) = int_str i"
| "repr (JFloat r) = r"
| "repr (JStr s) = repr_str s"
| "repr (JList xs) = ''['' @ join '', '' (map repr xs) @ '']''"
| "repr (JObj ob) = ''{'' @ join '', '' (map (\<lambda>(k, v). repr_str k @ '': '' @ repr v) ob) @ ''}''"

definition py_str :: "json \<Rightarrow> string" where
  "py_str v = (case v of JStr s \<Rightarrow> s | _ \<Rightarrow> repr v)"

lemma py_str_JStr [simp]: "py_str (JStr s) = s"
  by (simp add: py_str_def)

subsection \<open>Problems and errors\<close>

text \<open>The message of a validation problem: one constructor per message of \<open>schema.py\<close>, with the
  values the message shows.\<close>

datatype message =
    Expected_object string
  | Expected_integer string
  | Newer_version int
  | Version_below_one int
  | Expected_list string
  | Not_recognised
  | Missing_field string
  | Unsupported_type json
  | Bad_id
  | Duplicate_id string
  | Expected_string string
  | Must_not_be_empty
  | Longer_than nat
  | Contains "char list"
  | Reserved_name string
  | Not_absolute string
  | Has_nul
  | Has_newline
  | Has_dotdot
  | Bad_owner
  | Bad_account
  | Has_control
  | Expected_bool string
  | Bad_ref
  | Bad_keychain json
  | Bad_auto_connect json
  | Collides string nat

datatype problem = Problem (problem_where: string) (problem_message: message)

text \<open>The exception classes of \<open>errors.py\<close> and of the modules that add their own, each with its
  \<open>message\<close>; \<open>ConfigInvalid\<close> with the problems its \<open>detail\<close> lists and \<open>NeedsAuthorisation\<close>
  with the right it names. \<open>Reported\<close> is an error
  another process answered with, its code kept. Those from \<open>TypeError\<close> on are Python's own, which no handler of the code expects;
  \<open>Beyond_latin1\<close> is no error of the code's: the input leaves the code points the model's strings have.\<close>

datatype py_error =
    BadRequest string
  | UnsupportedVersion string
  | UnknownMethod string
  | InvalidParams string
  | ConfigInvalid string "problem list"
  | ConfigIOError string
  | NotPermitted string
  | NeedsAuthorisation string string
  | NotSupported string
  | NotFound string
  | AlreadyExists string
  | Unavailable string
  | DaemonUnreachable string
  | MountError string
  | SystemdError string
  | CredentialsError string
  | ApplyError string
  | GenerationRefused string
  | SmbConfError string
  | ReloadFailed string
  | ShareNotServed string
  | CommandFailed string
  | OwnershipError string
  | CredentialError string
  | AdvertiseError string
  | SmbpalError string
  | AgentUnreachable string
  | Reported string string
  | TypeError
  | AttributeError
  | KeyError string
  | OverflowError
  | OSError
  | ValueError
  | Beyond_latin1

definition error_code :: "py_error \<Rightarrow> string option" where
  "error_code e = (case e of
      BadRequest _ \<Rightarrow> Some ''bad_request''
    | UnsupportedVersion _ \<Rightarrow> Some ''unsupported_version''
    | UnknownMethod _ \<Rightarrow> Some ''unknown_method''
    | InvalidParams _ \<Rightarrow> Some ''invalid_params''
    | ConfigInvalid _ _ \<Rightarrow> Some ''config_invalid''
    | ConfigIOError _ \<Rightarrow> Some ''config_io''
    | NotPermitted _ \<Rightarrow> Some ''not_permitted''
    | NeedsAuthorisation _ _ \<Rightarrow> Some ''needs_authorisation''
    | NotSupported _ \<Rightarrow> Some ''not_supported''
    | NotFound _ \<Rightarrow> Some ''not_found''
    | AlreadyExists _ \<Rightarrow> Some ''already_exists''
    | Unavailable _ \<Rightarrow> Some ''unavailable''
    | DaemonUnreachable _ \<Rightarrow> Some ''daemon_unreachable''
    | MountError _ \<Rightarrow> Some ''mount_failed''
    | SystemdError _ \<Rightarrow> Some ''systemd''
    | CredentialsError _ \<Rightarrow> Some ''credentials''
    | ApplyError _ \<Rightarrow> Some ''apply_failed''
    | GenerationRefused _ \<Rightarrow> Some ''generation_refused''
    | SmbConfError _ \<Rightarrow> Some ''smb_conf''
    | ReloadFailed _ \<Rightarrow> Some ''reload_failed''
    | ShareNotServed _ \<Rightarrow> Some ''share_not_served''
    | CommandFailed _ \<Rightarrow> Some ''command_failed''
    | OwnershipError _ \<Rightarrow> Some ''ownership''
    | CredentialError _ \<Rightarrow> Some ''credential''
    | AdvertiseError _ \<Rightarrow> Some ''advertise''
    | SmbpalError _ \<Rightarrow> Some ''internal''
    | AgentUnreachable _ \<Rightarrow> Some ''agent_unreachable''
    | Reported c _ \<Rightarrow> Some c
    | TypeError \<Rightarrow> None
    | AttributeError \<Rightarrow> None
    | KeyError _ \<Rightarrow> None
    | OverflowError \<Rightarrow> None
    | OSError \<Rightarrow> None
    | ValueError \<Rightarrow> None
    | Beyond_latin1 \<Rightarrow> None)"

definition is_smbpal_error :: "py_error \<Rightarrow> bool" where
  "is_smbpal_error e = (error_code e \<noteq> None)"

type_synonym 'a res = "py_error + 'a"

end
