(* ===== verification/Schema.thy ===== *)
theory Schema
  imports Values
begin

text \<open>
  \<^verbatim>\<open>smbpal/config/schema.py\<close>: every check of the configuration document, in the code's order, and
  the declarative description of a valid document that the checks decide.

  A check returns the problems it appends. \<open>validate\<close> raises where Python does: the membership
  test of \<open>keychain_credential\<close> in a frozenset hashes its operand, and a list or an object there has
  no hash.
\<close>

subsection \<open>Constants\<close>

definition SCHEMA_VERSION :: int where "SCHEMA_VERSION = 1"

definition id_start :: "char \<Rightarrow> bool" where
  "id_start c = (is_AZ c \<or> is_az c \<or> is_digit c)"

definition id_char :: "char \<Rightarrow> bool" where
  "id_char c = (id_start c \<or> c = CHR ''_'' \<or> c = CHR ''-'')"

definition is_id :: "string \<Rightarrow> bool" where
  "is_id s = (case s of [] \<Rightarrow> False | c # cs \<Rightarrow> id_start c \<and> length cs \<le> 63 \<and> list_all id_char cs)"

definition share_name_forbidden :: "char list" where
  "share_name_forbidden =
     [lf, cr, CHR 0x09, CHR ''/'', backslash, CHR ''['', CHR '']'', CHR '':'', CHR '';'', quote2, quote1,
      CHR 0x60, CHR ''$'', CHR ''%'', CHR 0x00]"

definition remote_share_name_forbidden :: "char list" where
  "remote_share_name_forbidden = [lf, cr, CHR 0x09, CHR ''/'', backslash, CHR ''%'', CHR 0x00]"

definition share_name_max :: nat where "share_name_max = 80"

definition reserved_share_names :: "string list" where
  "reserved_share_names = [''global'', ''homes'', ''printers'', ''print$'']"

definition host_forbidden :: "char list" where
  "host_forbidden =
     [lf, cr, CHR 0x09, CHR '' '', CHR ''/'', backslash, CHR ''['', CHR '']'', quote2, quote1,
      CHR 0x60, CHR ''$'', CHR ''%'', CHR 0x00]"

definition host_max :: nat where "host_max = 253"

definition keychain_values :: "string list" where
  "keychain_values = [''created'', ''replaced'']"

definition auto_connect_values :: "string list" where
  "auto_connect_values = [''always'', ''on_this_network'', ''never'']"

definition share_keys :: "string list" where
  "share_keys = [''type'', ''id'', ''name'', ''path'', ''read_only'', ''credential_ref'', ''enabled'']"

definition connection_keys :: "string list" where
  "connection_keys =
     [''type'', ''id'', ''host'', ''share'', ''mountpoint'', ''credential_ref'', ''auto_connect'',
      ''owner'', ''fallback_host'', ''credential_account'', ''keychain_credential'', ''disconnected'']"

definition top_keys :: "string list" where
  "top_keys = [''version'', ''shares'', ''connections'']"

definition empty_config :: obj where
  "empty_config =
     [(''version'', JInt SCHEMA_VERSION), (''shares'', JList []), (''connections'', JList [])]"

subsection \<open>Field checks\<close>

definition field :: "string \<Rightarrow> string \<Rightarrow> string" where
  "field w k = w @ ''.'' @ k"

definition check_keys :: "string \<Rightarrow> obj \<Rightarrow> string list \<Rightarrow> string list \<Rightarrow> problem list" where
  "check_keys w ob allowed required =
     map (\<lambda>k. Problem (field w k) Not_recognised) (sort (filter (\<lambda>k. k \<notin> set allowed) (keys ob)))
     @ map (\<lambda>k. Problem w (Missing_field k)) (sort (filter (\<lambda>k. k \<notin> set (keys ob)) required))"

definition check_type_discriminator :: "string \<Rightarrow> obj \<Rightarrow> problem list" where
  "check_type_discriminator w ob =
     (let v = get ob ''type''
      in if v \<noteq> JNull \<and> v \<noteq> JStr ''os'' then [Problem (field w ''type'') (Unsupported_type v)] else [])"

definition check_id :: "string \<Rightarrow> obj \<Rightarrow> problem list" where
  "check_id w ob =
     (case get ob ''id'' of
        JNull \<Rightarrow> []
      | JStr s \<Rightarrow> if is_id s then [] else [Problem (field w ''id'') Bad_id]
      | _ \<Rightarrow> [Problem (field w ''id'') Bad_id])"

definition check_id_unique ::
    "string \<Rightarrow> obj \<Rightarrow> (string \<times> string) list \<Rightarrow> problem list \<times> (string \<times> string) list" where
  "check_id_unique w ob seen =
     (case get ob ''id'' of
        JStr s \<Rightarrow> (case map_of seen s of
            Some earlier \<Rightarrow> ([Problem (field w ''id'') (Duplicate_id earlier)], seen)
          | None \<Rightarrow> ([], AList.update s w seen))
      | _ \<Rightarrow> ([], seen))"

definition bad_chars :: "char list \<Rightarrow> string \<Rightarrow> char list" where
  "bad_chars forbidden s = sort (filter (\<lambda>c. c \<in> set forbidden) (remdups s))"

definition check_share_name :: "string \<Rightarrow> json \<Rightarrow> bool \<Rightarrow> problem list" where
  "check_share_name w v served =
     (case v of
        JNull \<Rightarrow> []
      | JStr s \<Rightarrow>
          if s = [] then [Problem w Must_not_be_empty]
          else
            (if length s > share_name_max then [Problem w (Longer_than share_name_max)] else [])
            @ (let bad = bad_chars (if served then share_name_forbidden
                                    else remote_share_name_forbidden) s
               in if bad \<noteq> [] then [Problem w (Contains bad)] else [])
            @ (if served \<and> py_lower s \<in> set reserved_share_names
               then [Problem w (Reserved_name s)] else [])
      | _ \<Rightarrow> [Problem w (Expected_string (kind v))])"

definition check_host :: "string \<Rightarrow> json \<Rightarrow> problem list" where
  "check_host w v =
     (case v of
        JNull \<Rightarrow> []
      | JStr s \<Rightarrow>
          if s = [] then [Problem w Must_not_be_empty]
          else
            (if length s > host_max then [Problem w (Longer_than host_max)] else [])
            @ (let bad = bad_chars host_forbidden s
               in if bad \<noteq> [] then [Problem w (Contains bad)] else [])
      | _ \<Rightarrow> [Problem w (Expected_string (kind v))])"

definition check_absolute_path :: "string \<Rightarrow> json \<Rightarrow> problem list" where
  "check_absolute_path w v =
     (case v of
        JNull \<Rightarrow> []
      | JStr s \<Rightarrow>
          if \<not> prefix ''/'' s then [Problem w (Not_absolute s)]
          else
            (if CHR 0x00 \<in> set s then [Problem w Has_nul] else [])
            @ (if lf \<in> set s \<or> cr \<in> set s then [Problem w Has_newline] else [])
            @ (if ''..'' \<in> set (split_char (CHR ''/'') s) then [Problem w Has_dotdot] else [])
      | _ \<Rightarrow> [Problem w (Expected_string (kind v))])"

definition is_user_name :: "string \<Rightarrow> bool" where
  "is_user_name s =
     (case s of [] \<Rightarrow> False
      | c # cs \<Rightarrow> (is_az c \<or> c = CHR ''_'') \<and> length cs \<le> 31
          \<and> list_all (\<lambda>d. is_az d \<or> is_digit d \<or> d = CHR ''_'' \<or> d = CHR ''-'') cs)"

definition check_owner :: "string \<Rightarrow> json \<Rightarrow> problem list" where
  "check_owner w v =
     (case v of
        JNull \<Rightarrow> []
      | JStr s \<Rightarrow> if is_user_name s then [] else [Problem w Bad_owner]
      | _ \<Rightarrow> [Problem w Bad_owner])"

definition is_control :: "char \<Rightarrow> bool" where
  "is_control c = (code c < 32 \<or> code c = 127)"

definition check_remote_account :: "string \<Rightarrow> json \<Rightarrow> problem list" where
  "check_remote_account w v =
     (case v of
        JNull \<Rightarrow> []
      | JStr s \<Rightarrow>
          if s = [] then [Problem w Bad_account]
          else if list_ex is_control s then [Problem w Has_control] else []
      | _ \<Rightarrow> [Problem w Bad_account])"

definition check_optional_bool :: "string \<Rightarrow> json \<Rightarrow> problem list" where
  "check_optional_bool w v =
     (case v of JNull \<Rightarrow> [] | JBool _ \<Rightarrow> [] | _ \<Rightarrow> [Problem w (Expected_bool (kind v))])"

definition check_optional_ref :: "string \<Rightarrow> json \<Rightarrow> problem list" where
  "check_optional_ref w v =
     (case v of
        JNull \<Rightarrow> []
      | JStr s \<Rightarrow> if is_id s then [] else [Problem w Bad_ref]
      | _ \<Rightarrow> [Problem w Bad_ref])"

text \<open>Membership in a frozenset hashes the value; membership in a tuple only compares.\<close>

definition check_keychain :: "string \<Rightarrow> json \<Rightarrow> problem list res" where
  "check_keychain w v =
     (case v of
        JNull \<Rightarrow> Inr []
      | JList _ \<Rightarrow> Inl TypeError
      | JObj _ \<Rightarrow> Inl TypeError
      | _ \<Rightarrow> Inr (if v \<in> JStr ` set keychain_values then [] else [Problem w (Bad_keychain v)]))"

definition check_auto_connect :: "string \<Rightarrow> json \<Rightarrow> problem list" where
  "check_auto_connect w v =
     (if v \<noteq> JNull \<and> v \<notin> JStr ` set auto_connect_values then [Problem w (Bad_auto_connect v)] else [])"

subsection \<open>Records and the document\<close>

definition validate_share :: "string \<Rightarrow> obj \<Rightarrow> problem list res" where
  "validate_share w s = Inr (
     check_keys w s share_keys [''type'', ''id'', ''name'', ''path'']
     @ check_type_discriminator w s
     @ check_id w s
     @ check_share_name (field w ''name'') (get s ''name'') True
     @ check_absolute_path (field w ''path'') (get s ''path'')
     @ check_optional_bool (field w ''read_only'') (get s ''read_only'')
     @ check_optional_bool (field w ''enabled'') (get s ''enabled'')
     @ check_optional_ref (field w ''credential_ref'') (get s ''credential_ref''))"

definition validate_connection :: "string \<Rightarrow> obj \<Rightarrow> problem list res" where
  "validate_connection w c =
     and_then (check_keychain (field w ''keychain_credential'') (get c ''keychain_credential''))
       (\<lambda>keychain. Inr (
     check_keys w c connection_keys [''type'', ''id'', ''host'', ''share'', ''mountpoint'']
     @ check_type_discriminator w c
     @ check_id w c
     @ check_host (field w ''host'') (get c ''host'')
     @ check_share_name (field w ''share'') (get c ''share'') False
     @ check_absolute_path (field w ''mountpoint'') (get c ''mountpoint'')
     @ check_optional_ref (field w ''credential_ref'') (get c ''credential_ref'')
     @ check_owner (field w ''owner'') (get c ''owner'')
     @ check_host (field w ''fallback_host'') (get c ''fallback_host'')
     @ check_remote_account (field w ''credential_account'') (get c ''credential_account'')
     @ check_optional_bool (field w ''disconnected'') (get c ''disconnected'')
     @ keychain
     @ check_auto_connect (field w ''auto_connect'') (get c ''auto_connect'')))"

definition element :: "string \<Rightarrow> nat \<Rightarrow> string" where
  "element key i = key @ ''['' @ nat_str i @ '']''"

text \<open>The loop of \<open>_validate_list\<close>, with the index, and the ids seen so far.\<close>

fun validate_items ::
    "(string \<Rightarrow> obj \<Rightarrow> problem list res) \<Rightarrow> string \<Rightarrow> nat \<Rightarrow> json list \<Rightarrow> (string \<times> string) list
     \<Rightarrow> (problem list \<times> (string \<times> string) list) res" where
  "validate_items check key i [] seen = Inr ([], seen)"
| "validate_items check key i (v # vs) seen =
     (case v of
        JObj item \<Rightarrow>
          and_then (check (element key i) item) (\<lambda>ps.
            let (qs, seen') = check_id_unique (element key i) item seen
            in and_then (validate_items check key (Suc i) vs seen') (\<lambda>(rs, seen'').
                 Inr (ps @ qs @ rs, seen'')))
      | _ \<Rightarrow>
          and_then (validate_items check key (Suc i) vs seen) (\<lambda>(rs, seen'').
            Inr (Problem (element key i) (Expected_object (kind v)) # rs, seen'')))"

definition validate_list ::
    "obj \<Rightarrow> string \<Rightarrow> (string \<Rightarrow> obj \<Rightarrow> problem list res) \<Rightarrow> (string \<times> string) list
     \<Rightarrow> (problem list \<times> (string \<times> string) list) res" where
  "validate_list doc key check seen =
     (case map_of doc key of
        None \<Rightarrow> Inr ([], seen)
      | Some (JList items) \<Rightarrow> validate_items check key 0 items seen
      | Some v \<Rightarrow> Inr ([Problem key (Expected_list (kind v))], seen))"

fun unique_names :: "nat \<Rightarrow> json list \<Rightarrow> (string \<times> nat) list \<Rightarrow> problem list" where
  "unique_names i [] seen = []"
| "unique_names i (v # vs) seen =
     (case v of
        JObj s \<Rightarrow> (case get s ''name'' of
            JStr n \<Rightarrow> (case map_of seen (py_lower n) of
                Some j \<Rightarrow> Problem (field (element ''shares'' i) ''name'') (Collides n j)
                            # unique_names (Suc i) vs seen
              | None \<Rightarrow> unique_names (Suc i) vs (AList.update (py_lower n) i seen))
          | _ \<Rightarrow> unique_names (Suc i) vs seen)
      | _ \<Rightarrow> unique_names (Suc i) vs seen)"

definition check_unique_share_names :: "json \<Rightarrow> problem list" where
  "check_unique_share_names shares =
     (case shares of JList items \<Rightarrow> unique_names 0 items [] | _ \<Rightarrow> [])"

definition check_version :: "json \<Rightarrow> problem list" where
  "check_version v =
     (case v of
        JInt n \<Rightarrow> if n > SCHEMA_VERSION then [Problem ''version'' (Newer_version n)]
                  else if n < 1 then [Problem ''version'' (Version_below_one n)] else []
      | _ \<Rightarrow> [Problem ''version'' (Expected_integer (kind v))])"

definition validate :: "json \<Rightarrow> problem list res" where
  "validate doc =
     (case doc of
        JObj ob \<Rightarrow>
          and_then (validate_list ob ''shares'' validate_share []) (\<lambda>(ps, seen).
          and_then (validate_list ob ''connections'' validate_connection seen) (\<lambda>(qs, _).
            Inr (check_keys ''<document>'' ob top_keys [''version'']
                 @ check_version (get ob ''version'')
                 @ ps @ qs
                 @ check_unique_share_names (get ob ''shares''))))
      | _ \<Rightarrow> Inr [Problem ''<document>'' (Expected_object (kind doc))])"

definition validate_or_raise :: "json \<Rightarrow> string \<Rightarrow> (string \<Rightarrow> string) option \<Rightarrow> json res" where
  "validate_or_raise doc source relabel =
     and_then (validate doc) (\<lambda>problems.
       if problems = [] then Inr doc
       else Inl (ConfigInvalid source
              (map (\<lambda>p. Problem (case relabel of Some f \<Rightarrow> f (problem_where p) | None \<Rightarrow> problem_where p)
                                (problem_message p)) problems)))"

subsection \<open>What a valid document is\<close>

text \<open>The description a reader of the schema has in mind, without an order of checks: the fields of
  each record, and uniqueness as distinctness of the lists of ids and of case-folded names.\<close>

definition opt_str :: "(string \<Rightarrow> bool) \<Rightarrow> json \<Rightarrow> bool" where
  "opt_str P v = (case v of JNull \<Rightarrow> True | JStr s \<Rightarrow> P s | _ \<Rightarrow> False)"

definition opt_bool :: "json \<Rightarrow> bool" where
  "opt_bool v = (case v of JNull \<Rightarrow> True | JBool _ \<Rightarrow> True | _ \<Rightarrow> False)"

definition free_of :: "char list \<Rightarrow> string \<Rightarrow> bool" where
  "free_of forbidden s = (\<forall>c \<in> set s. c \<notin> set forbidden)"

definition served_name :: "string \<Rightarrow> bool" where
  "served_name s = (s \<noteq> [] \<and> length s \<le> share_name_max \<and> free_of share_name_forbidden s
     \<and> py_lower s \<notin> set reserved_share_names)"

definition remote_name :: "string \<Rightarrow> bool" where
  "remote_name s = (s \<noteq> [] \<and> length s \<le> share_name_max \<and> free_of remote_share_name_forbidden s)"

definition host_name :: "string \<Rightarrow> bool" where
  "host_name s = (s \<noteq> [] \<and> length s \<le> host_max \<and> free_of host_forbidden s)"

definition abs_path :: "string \<Rightarrow> bool" where
  "abs_path s = (prefix ''/'' s \<and> CHR 0x00 \<notin> set s \<and> lf \<notin> set s \<and> cr \<notin> set s
     \<and> ''..'' \<notin> set (split_char (CHR ''/'') s))"

definition account_name :: "string \<Rightarrow> bool" where
  "account_name s = (s \<noteq> [] \<and> list_all (\<lambda>c. \<not> is_control c) s)"

definition fields_ok :: "obj \<Rightarrow> string list \<Rightarrow> string list \<Rightarrow> bool" where
  "fields_ok ob allowed required =
     (set (keys ob) \<subseteq> set allowed \<and> set required \<subseteq> set (keys ob))"

definition share_ok :: "obj \<Rightarrow> bool" where
  "share_ok s =
     (fields_ok s share_keys [''type'', ''id'', ''name'', ''path'']
      \<and> get s ''type'' \<in> {JNull, JStr ''os''}
      \<and> opt_str is_id (get s ''id'') \<and> opt_str served_name (get s ''name'')
      \<and> opt_str abs_path (get s ''path'') \<and> opt_bool (get s ''read_only'')
      \<and> opt_bool (get s ''enabled'') \<and> opt_str is_id (get s ''credential_ref''))"

definition connection_ok :: "obj \<Rightarrow> bool" where
  "connection_ok c =
     (fields_ok c connection_keys [''type'', ''id'', ''host'', ''share'', ''mountpoint'']
      \<and> get c ''type'' \<in> {JNull, JStr ''os''}
      \<and> opt_str is_id (get c ''id'') \<and> opt_str host_name (get c ''host'')
      \<and> opt_str remote_name (get c ''share'') \<and> opt_str abs_path (get c ''mountpoint'')
      \<and> opt_str is_id (get c ''credential_ref'') \<and> opt_str is_user_name (get c ''owner'')
      \<and> opt_str host_name (get c ''fallback_host'')
      \<and> opt_str account_name (get c ''credential_account'') \<and> opt_bool (get c ''disconnected'')
      \<and> opt_str (\<lambda>s. s \<in> set keychain_values) (get c ''keychain_credential'')
      \<and> opt_str (\<lambda>s. s \<in> set auto_connect_values) (get c ''auto_connect''))"

definition items :: "obj \<Rightarrow> string \<Rightarrow> json list" where
  "items ob key = (case map_of ob key of Some (JList vs) \<Rightarrow> vs | _ \<Rightarrow> [])"

definition obj_sat :: "(obj \<Rightarrow> bool) \<Rightarrow> json \<Rightarrow> bool" where
  "obj_sat P v = (case v of JObj r \<Rightarrow> P r | _ \<Rightarrow> False)"

definition list_ok :: "obj \<Rightarrow> string \<Rightarrow> (obj \<Rightarrow> bool) \<Rightarrow> bool" where
  "list_ok ob key P =
     (case map_of ob key of
        None \<Rightarrow> True
      | Some (JList vs) \<Rightarrow> list_all (obj_sat P) vs
      | Some _ \<Rightarrow> False)"

definition str_of :: "json \<Rightarrow> string list" where
  "str_of v = (case v of JStr s \<Rightarrow> [s] | _ \<Rightarrow> [])"

definition fields_of :: "string \<Rightarrow> json list \<Rightarrow> string list" where
  "fields_of k vs = concat (map (\<lambda>v. case v of JObj r \<Rightarrow> str_of (get r k) | _ \<Rightarrow> []) vs)"

definition ids_of :: "obj \<Rightarrow> string list" where
  "ids_of ob = fields_of ''id'' (items ob ''shares'') @ fields_of ''id'' (items ob ''connections'')"

definition names_of :: "obj \<Rightarrow> string list" where
  "names_of ob = map py_lower (fields_of ''name'' (items ob ''shares''))"

definition valid_config :: "json \<Rightarrow> bool" where
  "valid_config doc =
     (case doc of
        JObj ob \<Rightarrow> set (keys ob) \<subseteq> set top_keys \<and> get ob ''version'' = JInt 1
          \<and> list_ok ob ''shares'' share_ok \<and> list_ok ob ''connections'' connection_ok
          \<and> distinct (ids_of ob) \<and> distinct (names_of ob)
      | _ \<Rightarrow> False)"

lemma obj_sat_iff: "obj_sat P v \<longleftrightarrow> (\<exists>r. v = JObj r \<and> P r)"
  by (simp add: obj_sat_def split: json.split)

lemma obj_sat_simps [simp]:
  "obj_sat P JNull = False" "obj_sat P (JBool b) = False" "obj_sat P (JInt n) = False"
  "obj_sat P (JFloat x) = False" "obj_sat P (JStr s) = False" "obj_sat P (JList vs) = False"
  "obj_sat P (JObj r) = P r"
  by (simp_all add: obj_sat_def)

lemma fields_of_simps [simp]:
  "fields_of k [] = []"
  "fields_of k (JObj r # vs) = str_of (get r k) @ fields_of k vs"
  "fields_of k (vs @ ws) = fields_of k vs @ fields_of k ws"
  by (simp_all add: fields_of_def)

lemma str_of_simps [simp]: "str_of (JStr s) = [s]" "str_of JNull = []"
  by (simp_all add: str_of_def)

lemma in_str_of [simp]: "s \<in> set (str_of v) \<longleftrightarrow> v = JStr s"
  by (cases v) (auto simp: str_of_def)

lemma in_fields_of: "s \<in> set (fields_of k vs) \<longleftrightarrow> (\<exists>r. JObj r \<in> set vs \<and> get r k = JStr s)"
  by (force simp: fields_of_def split: json.splits)

subsection \<open>Each check decides its description\<close>

lemma filter_sort_empty: "sort (filter P xs) = [] \<longleftrightarrow> (\<forall>x \<in> set xs. \<not> P x)"
  by (metis filter_empty_conv set_empty set_sort)

lemma check_keys_iff: "check_keys w ob allowed required = [] \<longleftrightarrow> fields_ok ob allowed required"
  by (auto simp: check_keys_def fields_ok_def filter_sort_empty simp del: set_keys)

lemma bad_chars_iff: "bad_chars forb s = [] \<longleftrightarrow> free_of forb s"
  by (simp add: bad_chars_def free_of_def filter_sort_empty)

lemma check_type_iff: "check_type_discriminator w ob = [] \<longleftrightarrow> get ob ''type'' \<in> {JNull, JStr ''os''}"
  by (auto simp: check_type_discriminator_def Let_def)

lemma check_id_iff: "check_id w ob = [] \<longleftrightarrow> opt_str is_id (get ob ''id'')"
  by (simp add: check_id_def opt_str_def split: json.split)

lemma check_share_name_iff:
  "check_share_name w v True = [] \<longleftrightarrow> opt_str served_name v"
  "check_share_name w v False = [] \<longleftrightarrow> opt_str remote_name v"
  by (auto simp: check_share_name_def opt_str_def served_name_def remote_name_def Let_def
      bad_chars_iff split: json.split)

lemma check_host_iff: "check_host w v = [] \<longleftrightarrow> opt_str host_name v"
  by (auto simp: check_host_def opt_str_def host_name_def Let_def bad_chars_iff split: json.split)

lemma check_absolute_path_iff: "check_absolute_path w v = [] \<longleftrightarrow> opt_str abs_path v"
  by (auto simp: check_absolute_path_def opt_str_def abs_path_def split: json.split)

lemma check_owner_iff: "check_owner w v = [] \<longleftrightarrow> opt_str is_user_name v"
  by (simp add: check_owner_def opt_str_def split: json.split)

lemma check_remote_account_iff: "check_remote_account w v = [] \<longleftrightarrow> opt_str account_name v"
  by (auto simp: check_remote_account_def opt_str_def account_name_def list_all_iff list_ex_iff
      split: json.split)

lemma check_optional_bool_iff: "check_optional_bool w v = [] \<longleftrightarrow> opt_bool v"
  by (simp add: check_optional_bool_def opt_bool_def split: json.split)

lemma check_optional_ref_iff: "check_optional_ref w v = [] \<longleftrightarrow> opt_str is_id v"
  by (simp add: check_optional_ref_def opt_str_def split: json.split)

lemma check_keychain_iff:
  "check_keychain w v = Inr [] \<longleftrightarrow> opt_str (\<lambda>s. s \<in> set keychain_values) v"
  by (auto simp: check_keychain_def opt_str_def split: json.split)

lemma check_auto_connect_iff:
  "check_auto_connect w v = [] \<longleftrightarrow> opt_str (\<lambda>s. s \<in> set auto_connect_values) v"
  by (auto simp: check_auto_connect_def opt_str_def split: json.split)

lemmas check_iffs = check_keys_iff check_type_iff check_id_iff check_share_name_iff check_host_iff
  check_absolute_path_iff check_owner_iff check_remote_account_iff check_optional_bool_iff
  check_optional_ref_iff check_auto_connect_iff

definition unhashable :: "json \<Rightarrow> bool" where
  "unhashable v = (case v of JList _ \<Rightarrow> True | JObj _ \<Rightarrow> True | _ \<Rightarrow> False)"

lemma check_keychain_raises:
  "check_keychain w v = Inl e \<longleftrightarrow> e = TypeError \<and> unhashable v"
  by (auto simp: check_keychain_def unhashable_def split: json.splits)

lemma check_version_iff: "check_version v = [] \<longleftrightarrow> v = JInt 1"
  by (auto simp: check_version_def SCHEMA_VERSION_def split: json.splits)

subsection \<open>A list of records, whatever the record\<close>

text \<open>The contract between the loop of \<open>_validate_list\<close> and the validator it is given: the
  validator finds nothing exactly on the records that satisfy \<open>ok\<close>, and raises \<open>TypeError\<close>
  exactly on those that satisfy \<open>bad\<close>.\<close>

locale record_check =
  fixes check :: "string \<Rightarrow> obj \<Rightarrow> problem list res"
    and ok :: "obj \<Rightarrow> bool"
    and bad :: "obj \<Rightarrow> bool"
  assumes check_ok: "check w r = Inr [] \<longleftrightarrow> ok r"
    and check_raises: "check w r = Inl e \<longleftrightarrow> e = TypeError \<and> bad r"
begin

lemma items_raise:
  "validate_items check key i vs seen = Inl e \<longleftrightarrow> e = TypeError \<and> (\<exists>r. JObj r \<in> set vs \<and> bad r)"
proof (induction vs arbitrary: i seen)
  case (Cons v vs)
  show ?case
  proof (cases v)
    case (JObj r)
    then show ?thesis
      using check_raises [of "element key i" r]
      by (cases "check (element key i) r") (auto simp: and_then_eq_Inl Cons.IH split: prod.splits)
  qed (auto simp: and_then_eq_Inl Cons.IH split: prod.splits)
qed simp

lemma items_accepted:
  "(\<exists>seen'. validate_items check key i vs seen = Inr ([], seen') \<and> fst ` set seen' = K) \<longleftrightarrow>
   list_all (obj_sat ok) vs
     \<and> distinct (fields_of ''id'' vs) \<and> set (fields_of ''id'' vs) \<inter> fst ` set seen = {}
     \<and> K = fst ` set seen \<union> set (fields_of ''id'' vs)"
proof (induction vs arbitrary: i seen)
  case (Cons v vs)
  show ?case
  proof (cases v)
    case (JObj r)
    show ?thesis
    proof (cases "\<exists>s. get r ''id'' = JStr s")
      case True
      then obtain s where s: "get r ''id'' = JStr s" by blast
      show ?thesis
      proof (cases "s \<in> fst ` set seen")
        case True
        then have "map_of seen s \<noteq> None" by (simp add: map_of_eq_None_iff)
        with JObj s True show ?thesis
          by (auto simp: check_id_unique_def split: prod.splits)
      next
        case False
        then have "map_of seen s = None" by (simp add: map_of_eq_None_iff)
        with JObj s False show ?thesis
          using Cons.IH [of "Suc i" "AList.update s (element key i) seen"]
          by (auto simp: check_id_unique_def check_ok keys_update split: prod.splits)
      qed
    next
      case False
      then have "str_of (get r ''id'') = []" "check_id_unique w r seen = ([], seen)" for w
        by (auto simp: str_of_def check_id_unique_def split: json.splits)
      with JObj show ?thesis
        using Cons.IH [of "Suc i" seen] by (auto simp: check_ok split: prod.splits)
    qed
  qed (auto split: prod.splits)
qed auto

end

interpretation share_check: record_check validate_share share_ok "\<lambda>_. False"
  by unfold_locales (simp_all add: validate_share_def share_ok_def check_iffs)

interpretation connection_check:
  record_check validate_connection connection_ok "\<lambda>c. unhashable (get c ''keychain_credential'')"
proof
  fix w r e
  show "validate_connection w r = Inr [] \<longleftrightarrow> connection_ok r"
    by (auto simp: validate_connection_def connection_ok_def check_iffs check_keychain_iff)
  show "validate_connection w r = Inl e
      \<longleftrightarrow> e = TypeError \<and> unhashable (get r ''keychain_credential'')"
    by (auto simp: validate_connection_def and_then_eq_Inl check_keychain_raises)
qed

lemma unique_names_iff:
  "unique_names i vs seen = [] \<longleftrightarrow>
     distinct (map py_lower (fields_of ''name'' vs))
     \<and> py_lower ` set (fields_of ''name'' vs) \<inter> fst ` set seen = {}"
proof (induction vs arbitrary: i seen)
  case (Cons v vs)
  show ?case
  proof (cases "\<exists>r n. v = JObj r \<and> get r ''name'' = JStr n")
    case True
    then obtain r n where v: "v = JObj r" "get r ''name'' = JStr n" by blast
    show ?thesis
    proof (cases "map_of seen (py_lower n)")
      case None
      then have "py_lower n \<notin> fst ` set seen" by (simp add: map_of_eq_None_iff)
      with v None show ?thesis by (auto simp: Cons.IH keys_update)
    next
      case (Some j)
      then have "py_lower n \<in> fst ` set seen" by (metis domI dom_map_of_conv_image_fst)
      with v Some show ?thesis by auto
    qed
  next
    case False
    then have "fields_of ''name'' (v # vs) = fields_of ''name'' vs"
      by (auto simp: fields_of_def str_of_def split: json.splits)
    moreover from False have "unique_names i (v # vs) seen = unique_names (Suc i) vs seen"
      by (auto split: json.splits)
    ultimately show ?thesis by (simp add: Cons.IH)
  qed
qed simp

subsection \<open>The document\<close>

lemma validate_list_accepted:
  assumes "record_check check ok bad"
  shows "(\<exists>seen'. validate_list ob key check seen = Inr ([], seen') \<and> fst ` set seen' = K) \<longleftrightarrow>
     list_ok ob key ok \<and> distinct (fields_of ''id'' (items ob key))
     \<and> set (fields_of ''id'' (items ob key)) \<inter> fst ` set seen = {}
     \<and> K = fst ` set seen \<union> set (fields_of ''id'' (items ob key))"
proof (cases "map_of ob key")
  case (Some v)
  then show ?thesis
    using record_check.items_accepted [OF assms, of key 0]
    by (cases v) (simp_all add: validate_list_def list_ok_def items_def)
qed (auto simp: validate_list_def list_ok_def items_def)

lemma validate_list_accepts:
  assumes "record_check check ok bad"
  shows "(\<exists>seen'. validate_list ob key check seen = Inr ([], seen')) \<longleftrightarrow>
     list_ok ob key ok \<and> distinct (fields_of ''id'' (items ob key))
     \<and> set (fields_of ''id'' (items ob key)) \<inter> fst ` set seen = {}"
    (is "?L \<longleftrightarrow> ?R")
proof
  assume ?L
  then obtain seen' where "validate_list ob key check seen = Inr ([], seen')" by blast
  then show ?R using validate_list_accepted [OF assms, of ob key seen "fst ` set seen'"] by simp
next
  assume ?R
  then show ?L
    using validate_list_accepted [OF assms, of ob key seen
        "fst ` set seen \<union> set (fields_of ''id'' (items ob key))"] by auto
qed

lemma validate_list_raises:
  assumes "record_check check ok bad"
  shows "validate_list ob key check seen = Inl e \<longleftrightarrow>
    e = TypeError \<and> (\<exists>r. JObj r \<in> set (items ob key) \<and> bad r)"
  by (auto simp: validate_list_def items_def record_check.items_raise [OF assms]
      split: option.splits json.splits)

lemma check_unique_share_names_iff:
  "list_ok ob ''shares'' P \<Longrightarrow>
   check_unique_share_names (get ob ''shares'') = [] \<longleftrightarrow> distinct (names_of ob)"
  by (auto simp: check_unique_share_names_def get_def list_ok_def names_of_def items_def
      unique_names_iff split: option.splits json.splits)

lemma fields_ok_version:
  "get ob ''version'' = JInt 1 \<Longrightarrow>
   fields_ok ob top_keys [''version''] \<longleftrightarrow> set (keys ob) \<subseteq> set top_keys"
  using get_key [of ob "''version''"] by (auto simp: fields_ok_def)

lemma validate_accepts_iff: "validate doc = Inr [] \<longleftrightarrow> valid_config doc"
proof (cases doc)
  case (JObj ob)
  let ?s = "fields_of ''id'' (items ob ''shares'')"
  let ?c = "fields_of ''id'' (items ob ''connections'')"
  have shares: "(\<exists>seen. validate_list ob ''shares'' validate_share [] = Inr ([], seen)
        \<and> fst ` set seen = K) \<longleftrightarrow> list_ok ob ''shares'' share_ok \<and> distinct ?s \<and> K = set ?s" for K
    using validate_list_accepted [OF share_check.record_check_axioms] by simp
  have conns: "(\<exists>seen'. validate_list ob ''connections'' validate_connection seen = Inr ([], seen'))
      \<longleftrightarrow> list_ok ob ''connections'' connection_ok \<and> distinct ?c \<and> set ?c \<inter> fst ` set seen = {}"
    for seen
    by (rule validate_list_accepts [OF connection_check.record_check_axioms])
  have "validate doc = Inr [] \<longleftrightarrow>
      (\<exists>seen. validate_list ob ''shares'' validate_share [] = Inr ([], seen)
        \<and> (\<exists>seen'. validate_list ob ''connections'' validate_connection seen = Inr ([], seen')))
      \<and> check_keys ''<document>'' ob top_keys [''version''] = []
      \<and> check_version (get ob ''version'') = []
      \<and> check_unique_share_names (get ob ''shares'') = []"
    unfolding JObj validate_def by (auto simp: split_beta intro: exI)
  also have "\<dots> \<longleftrightarrow>
      (\<exists>K. (list_ok ob ''shares'' share_ok \<and> distinct ?s \<and> K = set ?s)
        \<and> list_ok ob ''connections'' connection_ok \<and> distinct ?c \<and> set ?c \<inter> K = {})
      \<and> fields_ok ob top_keys [''version''] \<and> get ob ''version'' = JInt 1
      \<and> check_unique_share_names (get ob ''shares'') = []"
    unfolding conns check_keys_iff check_version_iff shares [symmetric] by blast
  also have "\<dots> \<longleftrightarrow>
      list_ok ob ''shares'' share_ok \<and> distinct ?s \<and> list_ok ob ''connections'' connection_ok
      \<and> distinct ?c \<and> set ?c \<inter> set ?s = {} \<and> set (keys ob) \<subseteq> set top_keys
      \<and> get ob ''version'' = JInt 1 \<and> distinct (names_of ob)"
    using fields_ok_version [of ob] check_unique_share_names_iff [of ob share_ok] by blast
  also have "\<dots> \<longleftrightarrow> valid_config doc"
    using JObj by (auto simp: valid_config_def ids_of_def)
  finally show ?thesis .
qed (simp_all add: validate_def valid_config_def)

definition connection_items :: "json \<Rightarrow> json list" where
  "connection_items doc = (case doc of JObj ob \<Rightarrow> items ob ''connections'' | _ \<Rightarrow> [])"

lemma validate_raises_iff:
  "validate doc = Inl e \<longleftrightarrow> e = TypeError \<and>
     (\<exists>c. JObj c \<in> set (connection_items doc) \<and> unhashable (get c ''keychain_credential''))"
proof (cases doc)
  case (JObj ob)
  have no: "validate_list ob ''shares'' validate_share [] \<noteq> Inl e" for e
    using validate_list_raises [OF share_check.record_check_axioms] by blast
  then obtain ps seen where s: "validate_list ob ''shares'' validate_share [] = Inr (ps, seen)"
    by (metis sum.exhaust surj_pair)
  show ?thesis
    using JObj s validate_list_raises [OF connection_check.record_check_axioms, of ob "''connections''" seen e]
    by (auto simp: validate_def connection_items_def and_then_eq_Inl split: prod.splits)
qed (simp_all add: validate_def connection_items_def)

lemma validate_or_raise_Inr:
  "validate_or_raise doc source relabel = Inr d \<longleftrightarrow> d = doc \<and> valid_config doc"
  by (auto simp: validate_or_raise_def validate_accepts_iff [symmetric])

lemma validate_or_raise_Inl:
  "validate_or_raise doc source relabel = Inl e \<Longrightarrow>
     e = TypeError \<or> (\<exists>ps. e = ConfigInvalid source ps \<and> ps \<noteq> [])"
  by (auto simp: validate_or_raise_def and_then_eq_Inl validate_raises_iff split: if_splits)

lemma empty_config_valid [simp]: "valid_config (JObj empty_config)"
  by (simp add: valid_config_def empty_config_def SCHEMA_VERSION_def top_keys_def list_ok_def
      ids_of_def names_of_def items_def keys_def)

end
