(* ===== verification/Paths.thy ===== *)
theory Paths
  imports Values
begin

text \<open>
  The path functions of Python's \<^verbatim>\<open>posixpath\<close> that the code calls: \<open>os.path.normpath\<close>, which decides
  when two spellings of a mountpoint are the same one.
\<close>

text \<open>The loop over the components, with the components kept so far (last one first).\<close>

fun norm_comps :: "bool \<Rightarrow> string list \<Rightarrow> string list \<Rightarrow> string list" where
  "norm_comps rooted [] acc = rev acc"
| "norm_comps rooted (w # ws) acc =
     (if w = [] \<or> w = ''.'' then norm_comps rooted ws acc
      else if w \<noteq> ''..'' \<or> (\<not> rooted \<and> acc = []) \<or> (acc \<noteq> [] \<and> hd acc = ''..'')
        then norm_comps rooted ws (w # acc)
      else norm_comps rooted ws (tl acc))"

definition normpath :: "string \<Rightarrow> string" where
  "normpath p =
     (if p = [] then ''.''
      else
        (let slashes = (if prefix [slash, slash] p \<and> \<not> prefix [slash, slash, slash] p
                        then [slash, slash] else if prefix [slash] p then [slash] else []);
             q = slashes @ join [slash] (norm_comps (slashes \<noteq> []) (split_char slash p) [])
         in if q = [] then ''.'' else q))"

definition norm_word :: "string \<Rightarrow> bool" where
  "norm_word w = (w \<noteq> [] \<and> w \<noteq> ''.'' \<and> slash \<notin> set w)"

lemma split_char_words: "w \<in> set (split_char d s) \<Longrightarrow> d \<notin> set w"
proof (induction s arbitrary: w)
  case (Cons c cs)
  then show ?case by (cases "split_char d cs") (auto split: if_splits)
qed simp

lemma split_char_join:
  "ws \<noteq> [] \<Longrightarrow> \<forall>w \<in> set ws. d \<notin> set w \<Longrightarrow> split_char d (join [d] ws) = ws"
proof (induction ws)
  case (Cons w ws)
  then show ?case
    by (cases "ws = []") (simp_all add: split_char_none join_Cons split_char_append)
qed simp

text \<open>Components of an absolute path without \<open>..\<close> are only filtered.\<close>

lemma norm_comps_filter:
  "''..'' \<notin> set ws \<Longrightarrow> norm_comps r ws acc = rev acc @ filter (\<lambda>w. w \<noteq> [] \<and> w \<noteq> ''.'') ws"
  by (induction ws arbitrary: acc) auto

lemma normpath_absolute:
  assumes "prefix [slash] p" and "\<not> prefix [slash, slash] p" and "''..'' \<notin> set (split_char slash p)"
  shows "normpath p = slash # join [slash] (filter (\<lambda>w. w \<noteq> [] \<and> w \<noteq> ''.'') (split_char slash p))"
  using assms by (auto simp: normpath_def norm_comps_filter)

lemma split_char_rooted: "split_char d (d # s) = [] # split_char d s"
  by simp

text \<open>Normalising twice is normalising once, on the paths the schema admits (absolute, no \<open>..\<close>) that
  do not start with a double slash.\<close>

lemma normpath_idem:
  assumes "prefix [slash] p" and "\<not> prefix [slash, slash] p" and "''..'' \<notin> set (split_char slash p)"
  shows "normpath (normpath p) = normpath p"
proof -
  let ?keep = "\<lambda>w. w \<noteq> [] \<and> w \<noteq> ''.''"
  let ?ws = "filter ?keep (split_char slash p)"
  have q: "normpath p = slash # join [slash] ?ws" by (rule normpath_absolute [OF assms])
  have words: "\<forall>w \<in> set ?ws. slash \<notin> set w" by (auto dest: split_char_words)
  show ?thesis
  proof (cases "?ws = []")
    case True
    then show ?thesis unfolding q by (simp add: normpath_def slash_def)
  next
    case False
    then have split: "split_char slash (slash # join [slash] ?ws) = [] # ?ws"
      using words by (simp add: split_char_join)
    obtain w ws where w: "?ws = w # ws" using False by (cases ?ws) auto
    then have "w \<in> set ?ws" by (metis list.set_intros(1))
    then have w1: "w \<noteq> []" "slash \<notin> set w" using words by auto
    have "\<not> prefix [slash] (join [slash] (w # ws))"
      using w1 by (cases w; cases ws) auto
    then have "\<not> prefix [slash] (join [slash] ?ws)" unfolding w .
    then have "prefix [slash] (slash # join [slash] ?ws)"
      "\<not> prefix [slash, slash] (slash # join [slash] ?ws)" by auto
    moreover have "''..'' \<notin> set (split_char slash (slash # join [slash] ?ws))"
      unfolding split using assms(3) by auto
    ultimately have "normpath (slash # join [slash] ?ws) =
        slash # join [slash] (filter ?keep (split_char slash (slash # join [slash] ?ws)))"
      by (rule normpath_absolute)
    also have "\<dots> = slash # join [slash] ?ws" unfolding split by simp
    finally show ?thesis unfolding q .
  qed
qed

end
