(* ===== verification/Operations.thy ===== *)
theory Operations
  imports Schema Paths
begin

text \<open>
  \<^verbatim>\<open>smbpal/config/operations.py\<close>: the structured edits of a configuration document. Each takes the
  document (an object the store has validated) and returns the new one with the record added or
  removed, or the error raised. \<open>copy.deepcopy\<close> is the identity on immutable values.
\<close>

subsection \<open>Where a connection goes by default\<close>

record mountpoint_style =
  root :: string
  per_user :: bool

definition MANAGED_ROOTS :: "string list" where
  "MANAGED_ROOTS = [''/media'', ''/run/media'', ''/Volumes'']"

definition in_managed_root :: "string \<Rightarrow> string list \<Rightarrow> bool" where
  "in_managed_root mountpoint roots =
     list_ex (\<lambda>r. prefix (normpath r @ [slash]) (normpath mountpoint)) roots"

definition linux_style :: mountpoint_style where
  "linux_style = \<lparr>root = ''/media'', per_user = True\<rparr>"

definition darwin_style :: mountpoint_style where
  "darwin_style = \<lparr>root = ''/Volumes'', per_user = False\<rparr>"

definition platform_style :: "string option \<Rightarrow> mountpoint_style" where
  "platform_style platform = (if platform = Some ''darwin'' then darwin_style else linux_style)"

definition volume_name :: "string \<Rightarrow> string" where
  "volume_name share =
     (let cleaned = py_strip (strip_char (CHR ''.'') (py_strip share))
      in if cleaned = [] then ''share'' else cleaned)"

text \<open>The \<open>while\<close> loop over \<open>stem 2\<close>, \<open>stem 3\<close>, \<dots>: it ends because the set of taken paths is finite.\<close>

definition numbered :: "string \<Rightarrow> nat \<Rightarrow> string" where
  "numbered stem k = stem @ '' '' @ nat_str k"

lemma numbered_inj [simp]: "numbered stem j = numbered stem k \<longleftrightarrow> j = k"
  by (simp add: numbered_def)

lemma finite_numbered: "finite {j. k \<le> j \<and> numbered stem j \<in> set taken}"
proof -
  have "inj (numbered stem)" by (simp add: inj_def)
  then have "finite (numbered stem -` set taken)" by (simp add: finite_vimageI)
  then show ?thesis by (rule rev_finite_subset) auto
qed

function free_suffix :: "string \<Rightarrow> string list \<Rightarrow> nat \<Rightarrow> nat" where
  "free_suffix stem taken k =
     (if numbered stem k \<in> set taken then free_suffix stem taken (Suc k) else k)"
  by pat_completeness auto
termination
proof (relation "measure (\<lambda>(stem, taken, k). card {j. k \<le> j \<and> numbered stem j \<in> set taken})")
  fix stem taken and k :: nat
  assume "numbered stem k \<in> set taken"
  then have "{j. Suc k \<le> j \<and> numbered stem j \<in> set taken} \<subset> {j. k \<le> j \<and> numbered stem j \<in> set taken}"
    (is "?A \<subset> ?B")
  proof -
    have "k \<in> ?B - ?A" "?A \<subseteq> ?B" using \<open>numbered stem k \<in> set taken\<close> by auto
    then show ?thesis by blast
  qed
  then show "((stem, taken, Suc k), stem, taken, k)
      \<in> measure (\<lambda>(stem, taken, k). card {j. k \<le> j \<and> numbered stem j \<in> set taken})"
    by (simp add: psubset_card_mono finite_numbered)
qed simp

declare free_suffix.simps [simp del]

lemma free_suffix_free: "numbered stem (free_suffix stem taken k) \<notin> set taken"
  by (induction stem taken k rule: free_suffix.induct) (subst free_suffix.simps, auto)

lemma free_suffix_least:
  "k \<le> j \<Longrightarrow> j < free_suffix stem taken k \<Longrightarrow> numbered stem j \<in> set taken"
proof (induction stem taken k rule: free_suffix.induct)
  case (1 stem taken k)
  show ?case
  proof (cases "numbered stem k \<in> set taken")
    case True
    with 1 show ?thesis by (cases "j = k") (auto simp: free_suffix.simps [of stem taken k])
  next
    case False
    with 1 show ?thesis by (simp add: free_suffix.simps [of stem taken k])
  qed
qed

definition default_mountpoint ::
    "string \<Rightarrow> string option \<Rightarrow> string list \<Rightarrow> string option \<Rightarrow> mountpoint_style option \<Rightarrow> string res" where
  "default_mountpoint share owner taken host style =
     (let st = (case style of None \<Rightarrow> platform_style None | Some s \<Rightarrow> s);
          who = (case owner of None \<Rightarrow> [] | Some u \<Rightarrow> u)
      in if per_user st \<and> who = []
         then Inl (InvalidParams ''cannot work out where to mount this'')
         else
           (let base = (if per_user st then root st @ [slash] @ who else root st);
                name = volume_name share;
                candidates = name # (case host of
                    None \<Rightarrow> [] | Some h \<Rightarrow> if h = [] then [] else [name @ '' on '' @ h])
            in case find (\<lambda>c. base @ [slash] @ c \<notin> set taken) candidates of
                 Some c \<Rightarrow> Inr (base @ [slash] @ c)
               | None \<Rightarrow>
                   (let stem = base @ [slash] @ last candidates
                    in Inr (numbered stem (free_suffix stem taken 2)))))"

subsection \<open>Readable ids\<close>

definition slug_ok :: "char \<Rightarrow> bool" where
  "slug_ok c = (is_az c \<or> is_digit c)"

text \<open>\<open>re.sub("[^a-z0-9]+", "-", s)\<close>: each maximal run of other characters becomes one hyphen.\<close>

function slugify :: "string \<Rightarrow> string" where
  "slugify [] = []"
| "slugify (c # cs) =
     (if slug_ok c then c # slugify cs
      else CHR ''-'' # slugify (dropWhile (\<lambda>d. \<not> slug_ok d) cs))"
  by pat_completeness auto
termination by (relation "measure length") (auto simp: le_imp_less_Suc length_dropWhile_le)

definition max_id_len :: nat where "max_id_len = 64"

text \<open>\<open>str.isalnum\<close> on one code point below 256.\<close>

definition is_alnum :: "char \<Rightarrow> bool" where
  "is_alnum c = (is_az c \<or> is_AZ c \<or> is_digit c
     \<or> code c \<in> {170, 178, 179, 181, 185, 186, 188, 189, 190}
     \<or> (192 \<le> code c \<and> code c \<noteq> 215 \<and> code c \<noteq> 247))"

definition base_slug :: "string \<Rightarrow> string" where
  "base_slug name =
     (let slug = take max_id_len (strip_char (CHR ''-'') (slugify (py_lower name)))
      in if slug = [] then ''share''
         else if \<not> is_alnum (hd slug) then CHR ''s'' # slug else slug)"

definition id_candidate :: "string \<Rightarrow> nat \<Rightarrow> string" where
  "id_candidate slug k = take (max_id_len - length (nat_str k) - 1) slug @ ''-'' @ nat_str k"

definition id_suffixes :: "nat list" where
  "id_suffixes = [2..<1000]"

definition make_id :: "string \<Rightarrow> string list \<Rightarrow> string res" where
  "make_id name taken =
     (let slug = base_slug name
      in if slug \<notin> set taken then Inr slug
         else (case find (\<lambda>k. id_candidate slug k \<notin> set taken) id_suffixes of
                 Some k \<Rightarrow> Inr (id_candidate slug k)
               | None \<Rightarrow> Inl (AlreadyExists (''cannot derive a free id from '' @ repr_str name))))"

subsection \<open>Looking records up\<close>

definition as_obj :: "json \<Rightarrow> obj" where
  "as_obj v = (case v of JObj r \<Rightarrow> r | _ \<Rightarrow> [])"

lemma as_obj_JObj [simp]: "as_obj (JObj r) = r"
  by (simp add: as_obj_def)

definition all_ids :: "obj \<Rightarrow> string list" where
  "all_ids doc =
     fields_of ''id'' (items doc ''shares'') @ fields_of ''id'' (items doc ''connections'')"

definition strip_index :: "string \<Rightarrow> nat \<Rightarrow> string \<Rightarrow> string" where
  "strip_index key index w =
     (let p = element key index
      in if w = p then ''this record''
         else if prefix (p @ ''.'') w then drop (length p + 1) w else w)"

fun index_where :: "('a \<Rightarrow> bool) \<Rightarrow> 'a list \<Rightarrow> nat option" where
  "index_where p [] = None"
| "index_where p (x # xs) = (if p x then Some 0 else map_option Suc (index_where p xs))"

definition find_ref :: "json list \<Rightarrow> string \<Rightarrow> string \<Rightarrow> nat option" where
  "find_ref vs ref secondary =
     (case index_where (\<lambda>v. get (as_obj v) ''id'' = JStr ref) vs of
        Some i \<Rightarrow> Some i
      | None \<Rightarrow>
          index_where (\<lambda>v. case get (as_obj v) secondary of
              JStr s \<Rightarrow> py_lower s = py_lower ref | _ \<Rightarrow> False) vs)"

definition setdefault :: "string \<Rightarrow> json \<Rightarrow> obj \<Rightarrow> obj" where
  "setdefault k v ob = (if k \<in> set (keys ob) then ob else ob @ [(k, v)])"

definition opt_json :: "string option \<Rightarrow> json" where
  "opt_json v = (case v of None \<Rightarrow> JNull | Some s \<Rightarrow> JStr s)"

definition or_else :: "string option \<Rightarrow> string res \<Rightarrow> string res" where
  "or_else v r = (case v of None \<Rightarrow> r | Some s \<Rightarrow> if s = [] then r else Inr s)"

definition text_of :: "obj \<Rightarrow> string \<Rightarrow> string" where
  "text_of ob k = (case map_of ob k of None \<Rightarrow> [] | Some v \<Rightarrow> py_str v)"

subsection \<open>Shares\<close>

record share_args =
  sa_name :: string
  sa_path :: string
  sa_id :: "string option"
  sa_read_only :: bool
  sa_credential_ref :: "string option"
  sa_enabled :: bool

definition share_record :: "share_args \<Rightarrow> string \<Rightarrow> obj" where
  "share_record a i =
     [(''type'', JStr ''os''), (''id'', JStr i), (''name'', JStr (sa_name a)),
      (''path'', JStr (sa_path a)), (''read_only'', JBool (sa_read_only a)),
      (''credential_ref'', opt_json (sa_credential_ref a)), (''enabled'', JBool (sa_enabled a))]"

definition same_name :: "string \<Rightarrow> json \<Rightarrow> bool" where
  "same_name name v = (py_lower (text_of (as_obj v) ''name'') = py_lower name)"

definition add_share :: "obj \<Rightarrow> share_args \<Rightarrow> (obj \<times> obj) res" where
  "add_share doc a =
     (let result = setdefault ''shares'' (JList []) doc;
          shares = items result ''shares''
      in case find (same_name (sa_name a)) shares of
           Some existing \<Rightarrow>
             (case map_of (as_obj existing) ''name'' of
                None \<Rightarrow> Inl (KeyError ''name'')
              | Some n \<Rightarrow> Inl (AlreadyExists (''a share named '' @ repr n @ '' is already configured'')))
         | None \<Rightarrow>
             and_then (or_else (sa_id a) (make_id (sa_name a) (all_ids result))) (\<lambda>i.
               if i \<in> set (all_ids result)
               then Inl (AlreadyExists (''id '' @ repr_str i @ '' is already in use''))
               else
                 (let share = share_record a i;
                      new = AList.update ''shares'' (JList (shares @ [JObj share])) result
                  in and_then
                       (validate_or_raise (JObj new) (''cannot add share '' @ repr_str (sa_name a))
                          (Some (strip_index ''shares'' (length shares))))
                       (\<lambda>_. Inr (new, share)))))"

definition remove_at :: "nat \<Rightarrow> 'a list \<Rightarrow> 'a list" where
  "remove_at i xs = take i xs @ drop (Suc i) xs"

text \<open>\<open>remove_share\<close> and \<open>remove_connection\<close> differ in the list, the second field a reference may
  match and the words of the errors.\<close>

definition remove_record ::
    "string \<Rightarrow> string \<Rightarrow> string \<Rightarrow> obj \<Rightarrow> string \<Rightarrow> (obj \<times> obj) res" where
  "remove_record key secondary noun doc ref =
     (let result = setdefault key (JList []) doc;
          records = items result key
      in case find_ref records ref secondary of
           None \<Rightarrow> Inl (NotFound (''no '' @ noun @ '' called '' @ repr_str ref))
         | Some i \<Rightarrow>
             (let new = AList.update key (JList (remove_at i records)) result
              in and_then
                   (validate_or_raise (JObj new) (''cannot remove '' @ noun @ '' '' @ repr_str ref) None)
                   (\<lambda>_. Inr (new, as_obj (records ! i)))))"

definition remove_share :: "obj \<Rightarrow> string \<Rightarrow> (obj \<times> obj) res" where
  "remove_share doc ref = remove_record ''shares'' ''name'' ''share'' doc ref"

subsection \<open>Connections\<close>

record connection_args =
  ca_host :: string
  ca_share :: string
  ca_mountpoint :: "string option"
  ca_id :: "string option"
  ca_credential_ref :: "string option"
  ca_auto_connect :: string
  ca_owner :: "string option"
  ca_fallback_host :: "string option"
  ca_in_use :: "string list"
  ca_style :: "mountpoint_style option"

definition connection_record :: "connection_args \<Rightarrow> string \<Rightarrow> string \<Rightarrow> obj" where
  "connection_record a i mountpoint =
     [(''type'', JStr ''os''), (''id'', JStr i), (''host'', JStr (ca_host a)),
      (''share'', JStr (ca_share a)), (''mountpoint'', JStr mountpoint),
      (''credential_ref'', opt_json (ca_credential_ref a)),
      (''auto_connect'', JStr (ca_auto_connect a)), (''owner'', opt_json (ca_owner a)),
      (''fallback_host'', opt_json (ca_fallback_host a))]"

definition same_target :: "string \<Rightarrow> string \<Rightarrow> json \<Rightarrow> bool" where
  "same_target host share v =
     (py_lower (text_of (as_obj v) ''host'') = py_lower host
      \<and> py_lower (text_of (as_obj v) ''share'') = py_lower share)"

definition connection_mountpoint :: "json list \<Rightarrow> connection_args \<Rightarrow> string res" where
  "connection_mountpoint connections a =
     (case ca_mountpoint a of
        Some m \<Rightarrow> Inr m
      | None \<Rightarrow> default_mountpoint (ca_share a) (ca_owner a)
          (fields_of ''mountpoint'' connections @ ca_in_use a) (Some (ca_host a)) (ca_style a))"

definition insert_connection :: "obj \<Rightarrow> connection_args \<Rightarrow> string \<Rightarrow> (obj \<times> obj) res" where
  "insert_connection result a mountpoint =
     (let connections = items result ''connections'';
          shown = (\<lambda>v. repr (get (as_obj v) ''id''))
      in case find (same_target (ca_host a) (ca_share a)) connections of
           Some existing \<Rightarrow> Inl (AlreadyExists (ca_share a @ '' on '' @ ca_host a
             @ '' is already connection '' @ shown existing @ '', at ''
             @ py_str (get (as_obj existing) ''mountpoint'')))
         | None \<Rightarrow>
         case find (\<lambda>v. get (as_obj v) ''mountpoint'' = JStr mountpoint) connections of
           Some existing \<Rightarrow> Inl (AlreadyExists (mountpoint
             @ '' is already the mountpoint for connection '' @ shown existing))
         | None \<Rightarrow>
             and_then (or_else (ca_id a) (make_id (ca_host a @ ''-'' @ ca_share a) (all_ids result))) (\<lambda>i.
               if i \<in> set (all_ids result)
               then Inl (AlreadyExists (''id '' @ repr_str i @ '' is already in use''))
               else
                 (let connection = connection_record a i mountpoint;
                      new = AList.update ''connections''
                              (JList (connections @ [JObj connection])) result
                  in and_then
                       (validate_or_raise (JObj new)
                          (''cannot add connection to //'' @ ca_host a @ [slash] @ ca_share a)
                          (Some (strip_index ''connections'' (length connections))))
                       (\<lambda>_. Inr (new, connection)))))"

definition add_connection :: "obj \<Rightarrow> connection_args \<Rightarrow> (obj \<times> obj) res" where
  "add_connection doc a =
     (let result = setdefault ''connections'' (JList []) doc
      in and_then (connection_mountpoint (items result ''connections'') a)
           (insert_connection result a))"

definition remove_connection :: "obj \<Rightarrow> string \<Rightarrow> (obj \<times> obj) res" where
  "remove_connection doc ref =
     remove_record ''connections'' ''mountpoint'' ''connection'' doc ref"

end
