(* ===== verification/Edits.thy ===== *)
theory Edits
  imports Operations
begin

text \<open>
  What the structured edits of \<^theory_text>\<open>Operations\<close> promise: derived ids and mountpoints are legal and free,
  an edit that succeeds yields a valid document with exactly the one record added or removed, adding
  and removing are inverse, and no sequence of edits puts two connections on one mountpoint or on one
  remote share.
\<close>

subsection \<open>Derived ids\<close>

lemma slugify_alphabet: "c \<in> set (slugify s) \<Longrightarrow> slug_ok c \<or> c = CHR ''-''"
  by (induction s rule: slugify.induct) (auto split: if_splits)

lemma slug_ok_id: "slug_ok c \<Longrightarrow> id_start c \<and> id_char c \<and> is_alnum c"
  by (auto simp: slug_ok_def id_start_def id_char_def is_alnum_def)

lemma id_char_hyphen [simp]: "id_char (CHR ''-'')"
  by (simp add: id_char_def)

lemma is_id_iff: "is_id s \<longleftrightarrow> s \<noteq> [] \<and> id_start (hd s) \<and> length s \<le> 64 \<and> (\<forall>c \<in> set s. id_char c)"
  by (cases s) (auto simp: is_id_def list_all_iff id_char_def)

lemma digit_id_char: "is_digit c \<Longrightarrow> id_char c"
  by (simp add: id_char_def id_start_def)

lemma base_slug_id: "is_id (base_slug name)"
proof -
  let ?t = "strip_char (CHR ''-'') (slugify (py_lower name))"
  let ?slug = "take max_id_len ?t"
  have alphabet: "c \<in> set ?slug \<Longrightarrow> slug_ok c \<or> c = CHR ''-''" for c
    using set_strip_on [of "\<lambda>c. c = CHR ''-''"] slugify_alphabet
    by (force simp: strip_char_def dest: in_set_takeD)
  show ?thesis
  proof (cases "?slug = []")
    case True
    then show ?thesis
      by (simp add: base_slug_def Let_def is_id_def id_start_def id_char_def is_az_def code_def)
  next
    case False
    then have hd: "hd ?slug = hd ?t" "?t \<noteq> []" by (auto simp: max_id_len_def)
    then have "hd ?slug \<noteq> CHR ''-''"
      using hd_strip_on [of "\<lambda>c. c = CHR ''-''"] by (auto simp: strip_char_def)
    moreover have "hd ?slug \<in> set ?slug" using False by (rule hd_in_set)
    ultimately have ok: "slug_ok (hd ?slug)" using alphabet by blast
    with False have "base_slug name = ?slug"
      by (simp add: base_slug_def Let_def slug_ok_id)
    moreover have "\<forall>c \<in> set ?slug. id_char c" using alphabet slug_ok_id by force
    moreover have "length ?slug \<le> 64" by (simp add: max_id_len_def)
    ultimately show ?thesis using False ok slug_ok_id by (metis is_id_iff)
  qed
qed

lemma length_suffix: "k < 1000 \<Longrightarrow> length (nat_str k) \<le> 3"
  using length_nat_str_le [of k 2] by simp

lemma id_candidate_id:
  assumes "is_id slug" and "k < 1000"
  shows "is_id (id_candidate slug k)"
proof -
  let ?n = "max_id_len - length (nat_str k) - 1"
  have n: "0 < ?n" "?n + length (nat_str k) + 1 = 64"
    using length_suffix [OF assms(2)] by (simp_all add: max_id_len_def)
  have "take ?n slug \<noteq> []" "hd (take ?n slug) = hd slug" "length (take ?n slug) \<le> ?n"
    using assms(1) n by (auto simp: is_id_iff)
  moreover have "\<forall>c \<in> set (take ?n slug). id_char c"
    using assms(1) by (auto simp: is_id_iff dest: in_set_takeD)
  moreover have "\<forall>c \<in> set (nat_str k). id_char c"
    using nat_str_digits digit_id_char by blast
  ultimately show ?thesis
    using assms(1) n unfolding is_id_iff id_candidate_def by auto
qed

lemma digits_not_hyphen: "CHR ''-'' \<notin> set (nat_str k)"
  using nat_str_digits [of k] by (auto simp: is_digit_def code_def)

lemma id_candidate_inj: "id_candidate slug j = id_candidate slug k \<longleftrightarrow> j = k"
proof
  let ?w = "\<lambda>k. takeWhile (\<lambda>c. c \<noteq> CHR ''-'') (rev (id_candidate slug k))"
  have w: "?w k = rev (nat_str k)" for k
    using digits_not_hyphen [of k]
    by (subst id_candidate_def) (simp add: takeWhile_tail takeWhile_append takeWhile_eq_all_conv; auto)
  assume "id_candidate slug j = id_candidate slug k"
  then have "?w j = ?w k" by simp
  then show "j = k" unfolding w by simp
qed simp

lemma find_SomeD: "find p xs = Some x \<Longrightarrow> x \<in> set xs \<and> p x"
  by (induction xs) (auto split: if_splits)

lemma find_NoneD: "find p xs = None \<Longrightarrow> x \<in> set xs \<Longrightarrow> \<not> p x"
  by (induction xs) (auto split: if_splits)

lemma id_suffixes_less: "k \<in> set id_suffixes \<Longrightarrow> k < 1000"
  unfolding id_suffixes_def by (simp only: set_upt atLeastLessThan_iff)

lemma card_id_suffixes: "card (set id_suffixes) = 998"
  unfolding id_suffixes_def set_upt by simp

lemma make_id_legal_free:
  assumes "make_id name taken = Inr i"
  shows "is_id i \<and> i \<notin> set taken"
proof (cases "base_slug name \<in> set taken")
  case False
  with assms base_slug_id [of name] show ?thesis by (auto simp: make_id_def)
next
  case True
  with assms obtain k where k: "find (\<lambda>k. id_candidate (base_slug name) k \<notin> set taken) id_suffixes = Some k"
    and i: "i = id_candidate (base_slug name) k"
    by (auto simp: make_id_def Let_def split: option.splits)
  then have "k < 1000" "i \<notin> set taken" using find_SomeD [OF k] id_suffixes_less by auto
  with i show ?thesis using id_candidate_id [OF base_slug_id] by simp
qed

lemma make_id_total:
  assumes "length taken < 998"
  shows "\<exists>i. make_id name taken = Inr i"
proof (rule ccontr)
  let ?f = "id_candidate (base_slug name)"
  assume "\<nexists>i. make_id name taken = Inr i"
  then have "find (\<lambda>k. ?f k \<notin> set taken) id_suffixes = None"
    by (simp add: make_id_def Let_def split: if_splits option.splits)
  then have "?f ` set id_suffixes \<subseteq> set taken" using find_NoneD by fastforce
  then have "card (?f ` set id_suffixes) \<le> card (set taken)" by (simp add: card_mono)
  moreover have "card (?f ` set id_suffixes) = 998"
    by (subst card_image) (simp_all add: inj_on_def id_candidate_inj card_id_suffixes)
  moreover have "card (set taken) \<le> length taken" by (rule card_length)
  ultimately show False using assms by simp
qed

subsection \<open>Derived mountpoints\<close>

lemma default_mountpoint_raises:
  "default_mountpoint share owner taken host style = Inl e \<longleftrightarrow>
     e = InvalidParams ''cannot work out where to mount this''
     \<and> per_user (case style of None \<Rightarrow> linux_style | Some s \<Rightarrow> s) \<and> owner \<in> {None, Some []}"
  by (auto simp: default_mountpoint_def Let_def platform_style_def split: option.splits)

lemma default_mountpoint_free:
  assumes "default_mountpoint share owner taken host style = Inr m"
  shows "m \<notin> set taken"
  using assms
  by (auto simp: default_mountpoint_def Let_def find_Some_iff free_suffix_free split: if_splits option.splits)

lemma default_mountpoint_under_root:
  assumes "default_mountpoint share owner taken host style = Inr m"
  shows "prefix (root (case style of None \<Rightarrow> linux_style | Some s \<Rightarrow> s) @ [slash]) m"
  using assms
  by (auto simp: default_mountpoint_def Let_def platform_style_def numbered_def split: if_splits option.splits)

subsection \<open>Updating one list of the document\<close>

lemma items_update [simp]:
  "items (AList.update k (JList vs) ob) k' = (if k' = k then vs else items ob k')"
  by (simp add: items_def)

lemma map_of_setdefault:
  "map_of (setdefault k v ob) k' = (if k' = k \<and> map_of ob k = None then Some v else map_of ob k')"
proof (cases "map_of ob k")
  case None
  then have "k \<notin> fst ` set ob" by (simp add: map_of_eq_None_iff)
  with None show ?thesis by (simp add: setdefault_def map_add_def split: option.split)
next
  case (Some w)
  then have "k \<in> fst ` set ob" by (metis domI dom_map_of_conv_image_fst)
  with Some show ?thesis by (simp add: setdefault_def)
qed

lemma items_setdefault [simp]: "items (setdefault k (JList []) ob) k' = items ob k'"
  by (simp add: items_def map_of_setdefault)

lemma get_setdefault [simp]: "k' \<noteq> k \<Longrightarrow> get (setdefault k v ob) k' = get ob k'"
  by (simp add: get_def map_of_setdefault)

lemma keys_setdefault: "fst ` set (setdefault k v ob) = insert k (fst ` set ob)"
  by (auto simp: setdefault_def)

lemma all_ids_ids_of: "all_ids doc = ids_of doc"
  by (simp add: all_ids_def ids_of_def)

lemma ids_of_setdefault [simp]: "ids_of (setdefault k (JList []) ob) = ids_of ob"
  by (simp add: ids_of_def)

lemma names_of_setdefault [simp]: "names_of (setdefault k (JList []) ob) = names_of ob"
  by (simp add: names_of_def)

lemma list_ok_items:
  "list_ok ob k P \<Longrightarrow> v \<in> set (items ob k) \<Longrightarrow> \<exists>r. v = JObj r \<and> P r"
  by (auto simp: list_ok_def items_def list_all_iff obj_sat_iff split: option.splits json.splits)

lemma list_ok_update:
  "list_ok (AList.update k (JList vs) ob) k' P \<longleftrightarrow>
     (if k' = k then list_all (obj_sat P) vs else list_ok ob k' P)"
  by (simp add: list_ok_def)

lemma list_ok_setdefault:
  "list_ok ob k' P \<Longrightarrow> list_ok (setdefault k (JList []) ob) k' P"
  by (simp add: list_ok_def map_of_setdefault)

lemma items_all_ok:
  "list_ok ob k P \<Longrightarrow> list_all (obj_sat P) (items ob k)"
  by (auto simp: list_ok_def items_def split: option.splits json.splits)

definition doc_keys :: "string set" where
  "doc_keys = {''shares'', ''connections''}"

lemma valid_update_setdefault:
  assumes valid: "valid_config (JObj doc)" and k: "k \<in> doc_keys"
    and sub: "set vs \<subseteq> set (items doc k)"
    and distinct: "distinct (ids_of (AList.update k (JList vs) doc))"
      "distinct (names_of (AList.update k (JList vs) doc))"
  shows "valid_config (JObj (AList.update k (JList vs) (setdefault k (JList []) doc)))"
proof -
  have ok: "list_all (obj_sat P) vs" if "list_ok doc k P" for P
    using items_all_ok [OF that] sub by (auto simp: list_all_iff)
  have keys: "insert k (fst ` set doc) \<subseteq> set top_keys"
    using valid k by (auto simp: valid_config_def doc_keys_def top_keys_def)
  have "distinct (ids_of (AList.update k (JList vs) (setdefault k (JList []) doc)))"
    "distinct (names_of (AList.update k (JList vs) (setdefault k (JList []) doc)))"
    using distinct k by (auto simp: ids_of_def names_of_def doc_keys_def)
  moreover have "list_ok (AList.update k (JList vs) (setdefault k (JList []) doc)) k' P"
    if "list_ok doc k' P" for k' P
    using that ok [of P] by (auto simp: list_ok_update list_ok_setdefault)
  moreover have "k \<noteq> ''version''" using k by (auto simp: doc_keys_def)
  ultimately show ?thesis
    using keys valid by (simp add: valid_config_def keys_update keys_setdefault)
qed

lemma remove_at_split:
  "i < length xs \<Longrightarrow> xs = take i xs @ xs ! i # drop (Suc i) xs"
  by (rule id_take_nth_drop)

lemma set_remove_at: "set (remove_at i xs) \<subseteq> set xs"
  by (auto simp: remove_at_def dest: in_set_takeD in_set_dropD)

lemma distinct_fields_remove_at:
  assumes "distinct (map f (fields_of k xs) @ ys)"
  shows "distinct (map f (fields_of k (remove_at i xs)) @ ys)"
proof (cases "i < length xs")
  case True
  have "fields_of k xs = fields_of k (take i xs) @ fields_of k [xs ! i] @ fields_of k (drop (Suc i) xs)"
    by (subst remove_at_split [OF True], subst fields_of_simps(3)) (simp add: fields_of_def)
  with assms show ?thesis by (auto simp: remove_at_def)
qed (use assms in \<open>simp add: remove_at_def\<close>)

lemma set_fields_remove_at: "set (fields_of k (remove_at i xs)) \<subseteq> set (fields_of k xs)"
  using set_remove_at [of i xs] unfolding subset_iff in_fields_of by blast

lemma remove_valid:
  assumes valid: "valid_config (JObj doc)" and k: "k \<in> doc_keys"
  shows "valid_config (JObj (AList.update k (JList (remove_at i (items doc k)))
           (setdefault k (JList []) doc)))"
proof (rule valid_update_setdefault [OF valid k set_remove_at])
  have ids: "distinct (fields_of ''id'' (items doc ''shares'') @ fields_of ''id'' (items doc ''connections''))"
    and names: "distinct (names_of doc)"
    using valid by (simp_all add: valid_config_def ids_of_def)
  show "distinct (ids_of (AList.update k (JList (remove_at i (items doc k))) doc))"
    using k ids distinct_fields_remove_at [of id "''id''" _ "[]" i] set_fields_remove_at [of "''id''" i]
    by (auto simp: doc_keys_def ids_of_def; blast)
  show "distinct (names_of (AList.update k (JList (remove_at i (items doc k))) doc))"
    using k names distinct_fields_remove_at [of py_lower "''name''" _ "[]" i]
    by (auto simp: doc_keys_def names_of_def)
qed

subsection \<open>Adding\<close>

lemma or_else_Inr: "or_else v r = Inr s \<Longrightarrow> v = Some s \<or> r = Inr s"
  by (auto simp: or_else_def split: option.splits if_splits)

lemma add_share_Inr:
  assumes "add_share doc a = Inr (new, share)"
  obtains i where "share = share_record a i" and "i \<notin> set (ids_of doc)"
    and "new = AList.update ''shares'' (JList (items doc ''shares'' @ [JObj share]))
                 (setdefault ''shares'' (JList []) doc)"
    and "valid_config (JObj new)"
    and "\<forall>v \<in> set (items doc ''shares''). \<not> same_name (sa_name a) v"
  using assms
  by (auto simp: add_share_def Let_def all_ids_ids_of validate_or_raise_Inr find_None_iff
      split: option.splits if_splits)

lemma add_connection_Inr:
  assumes "add_connection doc a = Inr (new, c)"
  obtains i m where "c = connection_record a i m" and "i \<notin> set (ids_of doc)"
    and "new = AList.update ''connections'' (JList (items doc ''connections'' @ [JObj c]))
                 (setdefault ''connections'' (JList []) doc)"
    and "valid_config (JObj new)"
    and "\<forall>v \<in> set (items doc ''connections''). \<not> same_target (ca_host a) (ca_share a) v"
    and "\<forall>v \<in> set (items doc ''connections''). get (as_obj v) ''mountpoint'' \<noteq> JStr m"
    and "case ca_mountpoint a of Some p \<Rightarrow> m = p
         | None \<Rightarrow> m \<notin> set (ca_in_use a) \<and> m \<notin> set (fields_of ''mountpoint'' (items doc ''connections''))"
proof -
  let ?result = "setdefault ''connections'' (JList []) doc"
  obtain m where m: "connection_mountpoint (items doc ''connections'') a = Inr m"
    and c: "insert_connection ?result a m = Inr (new, c)"
    using assms by (auto simp: add_connection_def)
  have "case ca_mountpoint a of Some p \<Rightarrow> m = p
         | None \<Rightarrow> m \<notin> set (ca_in_use a) \<and> m \<notin> set (fields_of ''mountpoint'' (items doc ''connections''))"
    using m by (auto simp: connection_mountpoint_def dest: default_mountpoint_free split: option.splits)
  with c show thesis
    using that
    by (auto simp: insert_connection_def Let_def all_ids_ids_of validate_or_raise_Inr find_None_iff
        split: option.splits if_splits)
qed

subsection \<open>Removing\<close>

lemma remove_record_valid:
  assumes "valid_config (JObj doc)" and "key \<in> doc_keys"
  shows "remove_record key secondary noun doc ref =
    (case find_ref (items doc key) ref secondary of
       None \<Rightarrow> Inl (NotFound (''no '' @ noun @ '' called '' @ repr_str ref))
     | Some i \<Rightarrow> Inr (AList.update key (JList (remove_at i (items doc key))) (setdefault key (JList []) doc),
                     as_obj (items doc key ! i)))"
proof -
  have "validate_or_raise (JObj (AList.update key (JList (remove_at i (items doc key)))
      (setdefault key (JList []) doc))) source relabel = Inr (JObj (AList.update key
      (JList (remove_at i (items doc key))) (setdefault key (JList []) doc)))" for i source relabel
    using remove_valid [OF assms] by (simp add: validate_or_raise_Inr)
  then show ?thesis by (simp add: remove_record_def Let_def split: option.split)
qed

lemma index_where_less: "index_where p xs = Some i \<Longrightarrow> i < length xs \<and> p (xs ! i)"
  by (induction xs arbitrary: i) (auto split: if_splits)

lemma index_where_last:
  "\<forall>x \<in> set xs. \<not> p x \<Longrightarrow> p y \<Longrightarrow> index_where p (xs @ [y]) = Some (length xs)"
  by (induction xs) auto

lemma index_where_none: "index_where p xs = None \<longleftrightarrow> (\<forall>x \<in> set xs. \<not> p x)"
  by (induction xs) auto

lemma find_ref_less: "find_ref xs ref secondary = Some i \<Longrightarrow> i < length xs"
  by (auto simp: find_ref_def dest: index_where_less split: option.splits)

text \<open>An id always wins over another record's name.\<close>

lemma find_ref_id_first:
  assumes "v \<in> set xs" and "get (as_obj v) ''id'' = JStr ref"
    and "find_ref xs ref secondary = Some i"
  shows "get (as_obj (xs ! i)) ''id'' = JStr ref"
proof -
  have "index_where (\<lambda>v. get (as_obj v) ''id'' = JStr ref) xs \<noteq> None"
    using assms(1,2) by (auto simp: index_where_none)
  with assms(3) show ?thesis by (auto simp: find_ref_def dest: index_where_less)
qed

lemma find_ref_last:
  assumes "\<forall>v \<in> set xs. get (as_obj v) ''id'' \<noteq> JStr ref" and "get (as_obj y) ''id'' = JStr ref"
  shows "find_ref (xs @ [y]) ref secondary = Some (length xs)"
  using assms by (simp add: find_ref_def index_where_last)

lemma ids_of_absent:
  assumes "i \<notin> set (fields_of ''id'' vs)"
  shows "\<forall>v \<in> set vs. get (as_obj v) ''id'' \<noteq> JStr i"
proof
  fix v assume "v \<in> set vs"
  with assms show "get (as_obj v) ''id'' \<noteq> JStr i"
    by (cases v) (auto simp: in_fields_of as_obj_def)
qed

lemma remove_at_last [simp]: "remove_at (length xs) (xs @ [y]) = xs"
  by (simp add: remove_at_def)

lemma items_some: "map_of doc k \<noteq> None \<Longrightarrow> list_ok doc k P \<Longrightarrow> map_of doc k = Some (JList (items doc k))"
  by (auto simp: list_ok_def items_def split: option.splits json.splits)

lemma setdefault_present: "map_of doc k \<noteq> None \<Longrightarrow> setdefault k v doc = doc"
  by (auto simp: setdefault_def map_of_eq_None_iff)

lemma update_back:
  assumes "map_of doc k = Some v"
  shows "AList.update k v (setdefault k d (AList.update k w doc)) = doc"
proof -
  have "setdefault k d (AList.update k w doc) = AList.update k w doc"
    by (rule setdefault_present) simp
  moreover have "AList.update k v (AList.update k w doc) = AList.update k v doc" by simp
  moreover have "AList.update k v doc = doc" using assms by (rule update_triv)
  ultimately show ?thesis by simp
qed

lemma remove_last_record:
  assumes valid: "valid_config (JObj doc)" and k: "key \<in> doc_keys" "map_of doc key \<noteq> None"
    and new: "new = AList.update key (JList (items doc key @ [JObj r])) (setdefault key (JList []) doc)"
      "valid_config (JObj new)"
    and i: "i \<notin> set (fields_of ''id'' (items doc key))" "get r ''id'' = JStr i"
  shows "remove_record key secondary noun new i = Inr (doc, r)"
proof -
  have doc: "setdefault key (JList []) doc = doc" using k(2) by (rule setdefault_present)
  have items: "items new key = items doc key @ [JObj r]" using new by simp
  have "find_ref (items new key) i secondary = Some (length (items doc key))"
    unfolding items using find_ref_last [OF ids_of_absent [OF i(1)], of "JObj r"] i(2) by simp
  moreover have "map_of doc key = Some (JList (items doc key))"
    using valid k by (auto simp: valid_config_def doc_keys_def intro: items_some)
  then have "AList.update key (JList (items doc key)) (setdefault key (JList []) new) = doc"
    unfolding new doc by (rule update_back)
  ultimately show ?thesis
    unfolding remove_record_valid [OF new(2) k(1)] by (simp add: items)
qed

subsection \<open>Documents reached by edits\<close>

inductive edit :: "obj \<Rightarrow> obj \<Rightarrow> bool" where
  share_added: "add_share doc a = Inr (doc', r) \<Longrightarrow> edit doc doc'"
| share_removed: "remove_share doc ref = Inr (doc', r) \<Longrightarrow> edit doc doc'"
| connection_added: "add_connection doc c = Inr (doc', r) \<Longrightarrow> edit doc doc'"
| connection_removed: "remove_connection doc ref = Inr (doc', r) \<Longrightarrow> edit doc doc'"

definition target :: "json \<Rightarrow> string \<times> string" where
  "target v = (py_lower (text_of (as_obj v) ''host''), py_lower (text_of (as_obj v) ''share''))"

definition place :: "json \<Rightarrow> json" where
  "place v = get (as_obj v) ''mountpoint''"

definition no_clash :: "obj \<Rightarrow> bool" where
  "no_clash doc =
     (valid_config (JObj doc)
      \<and> distinct (map target (items doc ''connections''))
      \<and> distinct (map place (items doc ''connections'')))"

lemma same_target_target: "same_target h s v \<longleftrightarrow> target v = (py_lower h, py_lower s)"
  by (simp add: same_target_def target_def)

lemma distinct_map_remove_at: "distinct (map f xs) \<Longrightarrow> distinct (map f (remove_at i xs))"
proof (cases "i < length xs")
  case True
  assume "distinct (map f xs)"
  then have "distinct (map f (take i xs @ xs ! i # drop (Suc i) xs))"
    by (subst (asm) remove_at_split [OF True])
  then show ?thesis by (auto simp: remove_at_def)
qed (simp add: remove_at_def)

lemma remove_record_no_clash:
  assumes "no_clash doc" and key: "key \<in> doc_keys"
    and "remove_record key secondary noun doc ref = Inr (doc', r)"
  shows "no_clash doc'"
proof -
  have valid: "valid_config (JObj doc)" using assms(1) by (simp add: no_clash_def)
  from assms(3) obtain i where doc': "doc' = AList.update key (JList (remove_at i (items doc key)))
      (setdefault key (JList []) doc)"
    unfolding remove_record_valid [OF valid key] by (auto split: option.splits)
  then have "items doc' ''connections'' =
      (if key = ''connections'' then remove_at i (items doc key) else items doc ''connections'')"
    by simp
  with assms(1) remove_valid [OF valid key, of i] show ?thesis
    unfolding doc' no_clash_def by (auto intro: distinct_map_remove_at)
qed

lemma connection_record_target:
  "target (JObj (connection_record a i m)) = (py_lower (ca_host a), py_lower (ca_share a))"
  "place (JObj (connection_record a i m)) = JStr m"
  by (simp_all add: target_def place_def connection_record_def text_of_def)

lemma edit_no_clash [preserved]:
  assumes "edit doc doc'" and inv: "no_clash doc"
  shows "no_clash doc'"
  using assms(1)
proof (cases rule: edit.cases)
  case (share_added a r)
  then show ?thesis using inv by (auto simp: no_clash_def elim: add_share_Inr)
next
  case (share_removed ref r)
  then show ?thesis
    unfolding remove_share_def by (rule remove_record_no_clash [OF inv, rotated]) (simp add: doc_keys_def)
next
  case (connection_added c r)
  then show ?thesis
    by (rule add_connection_Inr)
      (use inv in \<open>auto simp: no_clash_def same_target_target place_def [symmetric]
         connection_record_target\<close>)
next
  case (connection_removed ref r)
  then show ?thesis
    unfolding remove_connection_def by (rule remove_record_no_clash [OF inv, rotated]) (simp add: doc_keys_def)
qed

lemma no_clash_empty: "no_clash empty_config"
  by (simp add: no_clash_def) (simp add: empty_config_def items_def)

interpretation edits: step_system "\<lambda>d. d = empty_config" edit no_clash
  by unfold_locales (auto intro: no_clash_empty edit_no_clash)

subsection \<open>The properties of the configuration\<close>

text \<open>C1: the validator reports no problem exactly on the documents the schema describes: known and
  required fields only, every field of its own shape, ids unique over shares and connections together,
  and served names unique up to case.\<close>

theorem validate_decides_schema: "validate doc = Inr [] \<longleftrightarrow> valid_config doc"
  by (rule validate_accepts_iff)

text \<open>The validator's only way to raise is the \<open>TypeError\<close> of hashing a \<open>keychain_credential\<close> that
  is a list or an object, and it raises on every document with such a connection.\<close>

theorem validate_raises_only_on_unhashable_keychain:
  "validate doc = Inl e \<longleftrightarrow> e = TypeError \<and>
     (\<exists>c. JObj c \<in> set (connection_items doc) \<and> unhashable (get c ''keychain_credential''))"
  by (rule validate_raises_iff)

text \<open>A derived id obeys the id grammar and is not taken, and one is always found while fewer
  than 998 ids are taken.\<close>

theorem make_id_legal_and_free:
  assumes "length taken < 998"
  shows "\<exists>i. make_id name taken = Inr i \<and> is_id i \<and> i \<notin> set taken"
  using make_id_total [OF assms] make_id_legal_free by blast

theorem make_id_legal_and_free_witness:
  "\<exists>i. make_id ''Luke H's Public Folder'' [''luke-h-s-public-folder''] = Inr i \<and> is_id i
       \<and> i \<notin> {''luke-h-s-public-folder''}"
  using make_id_legal_and_free [of "[''luke-h-s-public-folder'']" "''Luke H's Public Folder''"] by simp

text \<open>A derived mountpoint is not among the taken ones and lies under the platform's root, and the
  only refusal is a per-user root with no owner to put under it.\<close>

theorem default_mountpoint_correct:
  "case default_mountpoint share owner taken host style of
     Inr m \<Rightarrow> m \<notin> set taken \<and> prefix (root (case style of None \<Rightarrow> linux_style | Some s \<Rightarrow> s) @ [slash]) m
   | Inl e \<Rightarrow> e = InvalidParams ''cannot work out where to mount this''
       \<and> per_user (case style of None \<Rightarrow> linux_style | Some s \<Rightarrow> s) \<and> owner \<in> {None, Some []}"
proof (cases "default_mountpoint share owner taken host style")
  case (Inl e)
  then show ?thesis using default_mountpoint_raises [of share owner taken host style e] by simp
next
  case (Inr m)
  then show ?thesis
    using default_mountpoint_free [OF Inr] default_mountpoint_under_root [OF Inr] by simp
qed

text \<open>C3: removing a share just added, by its id, gives back the document it was added to.\<close>

theorem add_then_remove_share:
  assumes "valid_config (JObj doc)" and "map_of doc ''shares'' \<noteq> None"
    and "add_share doc a = Inr (new, share)"
  shows "\<exists>i. get share ''id'' = JStr i \<and> remove_share new i = Inr (doc, share)"
proof -
  from assms(3) obtain i where share: "share = share_record a i" and i: "i \<notin> set (ids_of doc)"
    and new: "new = AList.update ''shares'' (JList (items doc ''shares'' @ [JObj share]))
                 (setdefault ''shares'' (JList []) doc)" "valid_config (JObj new)"
    by (rule add_share_Inr)
  from i have "i \<notin> set (fields_of ''id'' (items doc ''shares''))" by (simp add: ids_of_def)
  moreover have id: "get share ''id'' = JStr i" by (simp add: share share_record_def)
  ultimately have "remove_share new i = Inr (doc, share)"
    unfolding remove_share_def by (intro remove_last_record assms(1,2) new) (simp_all add: doc_keys_def)
  with id show ?thesis by blast
qed

definition example_share :: share_args where
  "example_share = \<lparr>sa_name = ''Media'', sa_path = ''/srv/media'', sa_id = None,
     sa_read_only = False, sa_credential_ref = None, sa_enabled = True\<rparr>"

definition example_connection :: connection_args where
  "example_connection = \<lparr>ca_host = ''nas.local'', ca_share = ''Media'', ca_mountpoint = None,
     ca_id = None, ca_credential_ref = None, ca_auto_connect = ''on_this_network'',
     ca_owner = Some ''pi'', ca_fallback_host = None, ca_in_use = [''/media/pi/Media''],
     ca_style = None\<rparr>"

lemma res_cases: "\<not> isl r \<Longrightarrow> \<exists>x y. r = Inr (x, y)"
  by (cases r) auto

theorem add_then_remove_share_witness:
  "\<exists>new share i. add_share empty_config example_share = Inr (new, share)
     \<and> remove_share new i = Inr (empty_config, share)"
proof -
  have "\<not> isl (add_share empty_config example_share)" by code_simp
  then obtain new share where h: "add_share empty_config example_share = Inr (new, share)"
    by (blast dest: res_cases)
  moreover have "map_of empty_config ''shares'' \<noteq> None" by (simp add: empty_config_def)
  ultimately show ?thesis
    using add_then_remove_share [OF empty_config_valid _ h] by blast
qed

text \<open>C4: whatever sequence of edits starts from the empty configuration, the document stays valid and
  no two of its connections have the same mountpoint, or the same host and share up to case.\<close>

theorem edits_never_clash:
  assumes "edit\<^sup>*\<^sup>* empty_config doc"
  shows "valid_config (JObj doc) \<and> distinct (map target (items doc ''connections''))
    \<and> distinct (map place (items doc ''connections''))"
  using edits.inv_reachable [OF refl assms] by (simp add: no_clash_def)

theorem edits_never_clash_witness:
  "\<exists>doc. edit\<^sup>*\<^sup>* empty_config doc \<and> items doc ''connections'' \<noteq> []
     \<and> distinct (map target (items doc ''connections''))
     \<and> distinct (map place (items doc ''connections''))"
proof -
  have "\<not> isl (add_connection empty_config example_connection)" by code_simp
  then obtain doc c where h: "add_connection empty_config example_connection = Inr (doc, c)"
    by (blast dest: res_cases)
  then have "edit empty_config doc" by (rule connection_added)
  then have "edit\<^sup>*\<^sup>* empty_config doc" by simp
  moreover have "items doc ''connections'' \<noteq> []"
    using h by (rule add_connection_Inr) simp
  ultimately show ?thesis using edits_never_clash by blast
qed

end
