(* ===== verification/Translate.thy ===== *)
theory Translate
  imports Values
begin

text \<open>
  \<^verbatim>\<open>smbpal/state/translate.py\<close>: why a mount failed, read out of the unit's journal. The states of a
  connection (\<^verbatim>\<open>state/machine.py\<close>) are declared here because a cause names one.
\<close>

datatype conn_state =
    Idle | Connecting | Connected | Reconnecting | Unreachable | Unresolved | Auth_failed
  | Failed | Disabled | Unknown

text \<open>The messages of the table, by what they say.\<close>

datatype cause_text =
    Refused_the_credentials
  | Refused_the_password
  | No_share_by_that_name
  | Io_error
  | Network_unreachable
  | No_answer_in_time
  | Connection_refused
  | Server_off
  | No_route
  | Still_connecting
  | Mount_failed_with nat
  | Name_not_resolved

record cause =
  cause_state :: conn_state
  cause_message :: cause_text
  cause_errno :: "nat option"
  cause_retryable :: bool

definition linux_mount_errno :: "nat \<Rightarrow> (conn_state \<times> cause_text \<times> bool) option" where
  "linux_mount_errno n =
     (if n = 1 then Some (Auth_failed, Refused_the_credentials, False)
      else if n = 13 then Some (Auth_failed, Refused_the_password, False)
      else if n = 2 then Some (Failed, No_share_by_that_name, False)
      else if n = 5 then Some (Failed, Io_error, True)
      else if n = 6 then Some (Failed, No_share_by_that_name, False)
      else if n = 101 then Some (Unreachable, Network_unreachable, True)
      else if n = 110 then Some (Unreachable, No_answer_in_time, True)
      else if n = 111 then Some (Unreachable, Connection_refused, True)
      else if n = 112 then Some (Unreachable, Server_off, True)
      else if n = 113 then Some (Unreachable, No_route, True)
      else if n = 115 then Some (Connecting, Still_connecting, True)
      else None)"

subsection \<open>The two patterns\<close>

text \<open>\<open>mount error\((\d+)\)\<close> without case: the number and what follows the match. Among the code
  points below 256 the digits of \<open>\d\<close> are the ASCII ones.\<close>

definition errno_head :: string where
  "errno_head = ''mount error(''"

definition match_errno :: "string \<Rightarrow> (nat \<times> string) option" where
  "match_errno s =
     (if prefix errno_head (py_lower s)
      then (let rest = drop (length errno_head) s;
                digits = takeWhile is_digit rest;
                after = dropWhile is_digit rest
            in if digits \<noteq> [] \<and> after \<noteq> [] \<and> hd after = CHR '')''
               then Some (digits_val digits, tl after) else None)
      else None)"

lemma match_errno_shorter: "match_errno s = Some (n, r) \<Longrightarrow> length r < length s"
proof -
  assume m: "match_errno s = Some (n, r)"
  let ?after = "dropWhile is_digit (drop (length errno_head) s)"
  from m have "?after \<noteq> []" "r = tl ?after"
    by (auto simp: match_errno_def Let_def split: if_splits)
  moreover have "length ?after \<le> length s"
    using length_dropWhile_le [of is_digit "drop (length errno_head) s"] by simp
  ultimately show ?thesis by (cases ?after) auto
qed

function find_errnos :: "string \<Rightarrow> nat list" where
  "find_errnos [] = []"
| "find_errnos (c # cs) =
     (case match_errno (c # cs) of
        Some (n, rest) \<Rightarrow> n # find_errnos rest
      | None \<Rightarrow> find_errnos cs)"
  by pat_completeness auto
termination by (relation "measure length") (auto dest: match_errno_shorter)

definition unresolved_phrases :: "string list" where
  "unresolved_phrases =
     [''could not resolve address'', ''unable to find suitable address'', ''name or service not known'']"

definition says_unresolved :: "string \<Rightarrow> bool" where
  "says_unresolved text = list_ex (\<lambda>p. contains p (py_lower text)) unresolved_phrases"

definition errno_cause :: "nat \<Rightarrow> cause" where
  "errno_cause n =
     (case linux_mount_errno n of
        Some (st, msg, retryable) \<Rightarrow>
          \<lparr>cause_state = st, cause_message = msg, cause_errno = Some n, cause_retryable = retryable\<rparr>
      | None \<Rightarrow>
          \<lparr>cause_state = Failed, cause_message = Mount_failed_with n, cause_errno = Some n,
           cause_retryable = True\<rparr>)"

definition unresolved_cause :: cause where
  "unresolved_cause =
     \<lparr>cause_state = Unresolved, cause_message = Name_not_resolved, cause_errno = None,
      cause_retryable = True\<rparr>"

definition translate_journal :: "string \<Rightarrow> cause option" where
  "translate_journal text =
     (if text = [] then None
      else if find_errnos text \<noteq> [] then Some (errno_cause (last (find_errnos text)))
      else if says_unresolved text then Some unresolved_cause
      else None)"

datatype exit_text = Exit_status string bool | Reason_not_recorded

text \<open>The flag is the suffix that names 32 as mount(8)'s generic failure.\<close>

definition describe_exit :: "string option \<Rightarrow> exit_text" where
  "describe_exit status =
     (case status of
        Some s \<Rightarrow> if s \<noteq> [] \<and> s \<noteq> ''0'' then Exit_status s (s = ''32'') else Reason_not_recorded
      | None \<Rightarrow> Reason_not_recorded)"

subsection \<open>The last failure of a journal decides\<close>

lemma errno_head_tail: "0 < i \<Longrightarrow> i < 12 \<Longrightarrow> errno_head ! i \<noteq> CHR ''m''"
proof -
  have "\<forall>c \<in> set (tl errno_head). c \<noteq> CHR ''m''" by (simp add: errno_head_def)
  moreover assume "0 < i" "i < 12"
  then have "errno_head ! i \<in> set (tl errno_head)"
    by (cases i) (simp_all add: errno_head_def nth_Cons' del: nth_Cons_numeral)
  ultimately show "errno_head ! i \<noteq> CHR ''m''" by blast
qed

lemma length_errno_head [simp]: "length errno_head = 12"
  by (simp add: errno_head_def)

lemma match_errno_append_m:
  assumes "a \<noteq> []"
  shows "match_errno (a @ CHR ''m'' # t) =
    (case match_errno a of Some (n, r) \<Rightarrow> Some (n, r @ CHR ''m'' # t) | None \<Rightarrow> None)"
proof (cases "length a < 12")
  case True
  have low: "lower_char CHR ''m'' = CHR ''m''" by (simp add: lower_char_def code_def)
  have "\<not> prefix errno_head (py_lower (a @ CHR ''m'' # t))"
  proof
    assume "prefix errno_head (py_lower (a @ CHR ''m'' # t))"
    then obtain z where z: "py_lower (a @ CHR ''m'' # t) = errno_head @ z" by (auto simp: prefix_def)
    have "py_lower (a @ CHR ''m'' # t) ! length a = CHR ''m''"
      by (simp add: py_lower_def nth_append low)
    with z True have "errno_head ! length a = CHR ''m''" by (simp add: nth_append)
    with True assms errno_head_tail [of "length a"] show False by simp
  qed
  moreover have "\<not> prefix errno_head (py_lower a)"
    using True by (auto dest: prefix_length_le)
  ultimately show ?thesis by (simp add: match_errno_def)
next
  case False
  then have "prefix errno_head (py_lower (a @ CHR ''m'' # t)) = prefix errno_head (py_lower a)"
    by (simp add: py_lower_def prefix_take_iff)
  moreover have d: "\<not> is_digit CHR ''m''" by (simp add: is_digit_def code_def)
  moreover have "takeWhile is_digit (r @ CHR ''m'' # t) = takeWhile is_digit r"
    "dropWhile is_digit (r @ CHR ''m'' # t) = dropWhile is_digit r @ CHR ''m'' # t" for r
    using d by (induction r) auto
  moreover have "drop 12 (a @ CHR ''m'' # t) = drop 12 a @ CHR ''m'' # t" using False by simp
  ultimately show ?thesis
    unfolding match_errno_def Let_def length_errno_head
    by (cases "dropWhile is_digit (drop 12 a)") (simp_all del: takeWhile_eq_Nil_iff dropWhile_eq_Nil_conv)
qed

lemma find_errnos_append_m:
  "find_errnos (a @ CHR ''m'' # t) = find_errnos a @ find_errnos (CHR ''m'' # t)"
proof (induction a rule: find_errnos.induct)
  case (2 c cs)
  have m: "match_errno (c # cs @ CHR ''m'' # t) =
    (case match_errno (c # cs) of Some (n, r) \<Rightarrow> Some (n, r @ CHR ''m'' # t) | None \<Rightarrow> None)"
    using match_errno_append_m [of "c # cs" t] by simp
  show ?case
  proof (cases "match_errno (c # cs)")
    case None
    then have "find_errnos (cs @ CHR ''m'' # t) = find_errnos cs @ find_errnos (CHR ''m'' # t)"
      by (rule "2.IH"(1))
    with None m show ?thesis by (simp del: find_errnos.simps add: find_errnos.simps(2) [of c])
  next
    case (Some p)
    then obtain n r where "match_errno (c # cs) = Some (n, r)" by (cases p) auto
    moreover from this have "find_errnos (r @ CHR ''m'' # t) = find_errnos r @ find_errnos (CHR ''m'' # t)"
      using "2.IH"(2) by simp
    ultimately show ?thesis using m by (simp del: find_errnos.simps add: find_errnos.simps(2) [of c])
  qed
qed simp

definition mount_error_line :: "nat \<Rightarrow> string" where
  "mount_error_line n = errno_head @ nat_str n @ '')''"

lemma takeWhile_digits: "takeWhile is_digit (nat_str n @ CHR '')'' # t) = nat_str n"
  "dropWhile is_digit (nat_str n @ CHR '')'' # t) = CHR '')'' # t"
proof -
  have "\<not> is_digit CHR '')''" by (simp add: is_digit_def code_def)
  then show "takeWhile is_digit (nat_str n @ CHR '')'' # t) = nat_str n"
    "dropWhile is_digit (nat_str n @ CHR '')'' # t) = CHR '')'' # t"
    using nat_str_digits [of n] by (simp_all add: takeWhile_append2 dropWhile_append2)
qed

lemma errno_head_lower: "py_lower errno_head = errno_head"
  by (simp add: errno_head_def py_lower_def lower_char_def code_def)

lemma match_errno_line: "match_errno (mount_error_line n @ b) = Some (n, b)"
proof -
  let ?s = "mount_error_line n @ b"
  have "prefix errno_head (py_lower ?s)" by (simp add: mount_error_line_def errno_head_lower)
  moreover have "drop (length errno_head) ?s = nat_str n @ CHR '')'' # b"
    by (simp add: mount_error_line_def)
  ultimately show ?thesis
    unfolding match_errno_def by (simp only: takeWhile_digits Let_def) simp
qed

lemma mount_error_line_m: "\<exists>t. mount_error_line n @ b = CHR ''m'' # t"
  by (simp add: mount_error_line_def errno_head_def)

lemma find_errnos_line: "find_errnos (a @ mount_error_line n @ b) = find_errnos a @ n # find_errnos b"
proof -
  obtain t where t: "mount_error_line n @ b = CHR ''m'' # t" using mount_error_line_m by blast
  have "find_errnos (CHR ''m'' # t) = n # find_errnos b"
    using match_errno_line [of n b] by (simp add: t)
  then show ?thesis unfolding t find_errnos_append_m by simp
qed

lemma translate_last_failure:
  "find_errnos b = [] \<Longrightarrow> translate_journal (a @ mount_error_line n @ b) = Some (errno_cause n)"
  using mount_error_line_m [of n b] by (auto simp: translate_journal_def find_errnos_line)

text \<open>What any cause can say: its state is one of six, and a refused credential is never one to retry.\<close>

lemma errno_cause_state:
  "cause_state (errno_cause n) \<in> {Auth_failed, Failed, Unreachable, Connecting}"
  by (simp add: errno_cause_def linux_mount_errno_def)

lemma errno_cause_retryable:
  "cause_retryable (errno_cause n) \<longleftrightarrow> n \<notin> {1, 2, 6, 13}"
  by (simp add: errno_cause_def linux_mount_errno_def)

lemma errno_cause_auth: "cause_state (errno_cause n) = Auth_failed \<longleftrightarrow> n \<in> {1, 13}"
  by (simp add: errno_cause_def linux_mount_errno_def)

lemma translate_cases:
  "translate_journal text = Some c \<Longrightarrow> c = unresolved_cause \<or> (\<exists>n. c = errno_cause n)"
  by (auto simp: translate_journal_def split: if_splits)

lemma translate_state:
  assumes "translate_journal text = Some c"
  shows "cause_state c \<in> {Auth_failed, Failed, Unreachable, Connecting, Unresolved}"
  using translate_cases [OF assms]
proof
  assume "c = unresolved_cause"
  then show ?thesis by (simp add: unresolved_cause_def)
next
  assume "\<exists>n. c = errno_cause n"
  then show ?thesis using errno_cause_state by blast
qed

lemma translate_auth:
  assumes "translate_journal text = Some c" and "cause_state c = Auth_failed"
  shows "\<not> cause_retryable c"
  using translate_cases [OF assms(1)] assms(2)
  by (auto simp: unresolved_cause_def errno_cause_auth errno_cause_retryable)

subsection \<open>Properties\<close>

text \<open>The most recent mount error of a journal is the one reported, whatever came before it, and
  a refused credential (errno 1 or 13) is reported as one that must not be retried.\<close>

theorem journal_reports_last_failure:
  assumes "find_errnos b = []"
  shows "translate_journal (a @ mount_error_line n @ b) = Some (errno_cause n)
    \<and> (n \<in> {1, 13} \<longrightarrow> cause_state (errno_cause n) = Auth_failed \<and> \<not> cause_retryable (errno_cause n))"
  using translate_last_failure [OF assms] errno_cause_auth errno_cause_retryable by auto

theorem journal_reports_last_failure_witness:
  "translate_journal (''mount error(112): Host is down; '' @ mount_error_line 13 @ '': Permission denied'')
     = Some (errno_cause 13) \<and> cause_state (errno_cause 13) = Auth_failed"
proof -
  have "find_errnos '': Permission denied'' = []" by code_simp
  from journal_reports_last_failure [OF this, of "''mount error(112): Host is down; ''" 13]
  show ?thesis by simp
qed

end
