(* ===== verification/Machine.thy ===== *)
theory Machine
  imports Translate
begin

text \<open>
  \<^verbatim>\<open>smbpal/state/machine.py\<close>: the state of one connection, derived from the mount table, the systemd
  unit, the journal's cause and the autofs trigger. Every optional argument is an option, a
  \<open>systemctl show\<close> answer a dict of strings.
\<close>

definition STATES :: "conn_state list" where
  "STATES = [Idle, Connecting, Connected, Reconnecting, Unreachable, Unresolved, Auth_failed, Failed,
     Disabled, Unknown]"

definition PROBLEM_STATES :: "conn_state list" where
  "PROBLEM_STATES = [Unreachable, Unresolved, Auth_failed, Failed]"

text \<open>The sentences of \<open>derive\<close>; \<open>Latched\<close> is \<open>_latched\<close> around another one.\<close>

datatype state_text =
    Not_connected_automatically
  | Occupied string string
  | Mounted_not_answering
  | Mounted_read_only
  | Mounted
  | No_unit_information
  | Mounting
  | Because cause_text
  | Exited exit_text
  | Latched state_text string
  | Automount_not_running
  | Ready

record connection_state =
  cs_id :: string
  cs_state :: conn_state
  cs_message :: state_text
  cs_errno :: "nat option"
  cs_retryable :: bool
  cs_read_only :: bool

definition is_problem :: "connection_state \<Rightarrow> bool" where
  "is_problem s = (cs_state s \<in> set PROBLEM_STATES)"

definition plain_state :: "string \<Rightarrow> conn_state \<Rightarrow> state_text \<Rightarrow> connection_state" where
  "plain_state i st msg =
     \<lparr>cs_id = i, cs_state = st, cs_message = msg, cs_errno = None, cs_retryable = False,
      cs_read_only = False\<rparr>"

type_synonym unit_info = "(string \<times> string) list"

definition unit_get :: "unit_info \<Rightarrow> string \<Rightarrow> string" where
  "unit_get u k = (case map_of u k of None \<Rightarrow> [] | Some v \<Rightarrow> v)"

definition START_LIMIT_HIT :: string where
  "START_LIMIT_HIT = ''start-limit-hit''"

text \<open>The observations \<open>derive\<close> is given.\<close>

record observation =
  ob_mounted :: "bool option"
  ob_unit :: "unit_info option"
  ob_cause :: "cause option"
  ob_armed :: "bool option"
  ob_read_only :: "bool option"
  ob_occupied_by :: "string option"
  ob_server_answering :: "bool option"

definition failed_state :: "cause \<Rightarrow> bool \<Rightarrow> conn_state" where
  "failed_state c latched =
     (let st = (if cause_state c = Connecting then Connecting
                else if cause_retryable c \<and> cause_state c = Failed then Reconnecting
                else cause_state c)
      in if latched then (if st = Auth_failed then Auth_failed else Failed) else st)"

definition derive_failed :: "string \<Rightarrow> unit_info \<Rightarrow> cause option \<Rightarrow> connection_state" where
  "derive_failed i u c =
     (let latched = (unit_get u ''Result'' = START_LIMIT_HIT);
          say = (\<lambda>msg. if latched then Latched msg i else msg)
      in case c of
           Some cause \<Rightarrow>
             \<lparr>cs_id = i, cs_state = failed_state cause latched,
              cs_message = say (Because (cause_message cause)), cs_errno = cause_errno cause,
              cs_retryable = (if latched then False else cause_retryable cause),
              cs_read_only = False\<rparr>
         | None \<Rightarrow>
             (plain_state i Failed (say (Exited (describe_exit (map_of u ''ExecMainStatus'')))))
               \<lparr>cs_retryable := \<not> latched\<rparr>)"

definition derive :: "obj \<Rightarrow> observation \<Rightarrow> connection_state" where
  "derive connection ob =
     (let i = py_str (get connection ''id'')
      in if get connection ''auto_connect'' = JStr ''never''
         then plain_state i Disabled Not_connected_automatically
         else case ob_occupied_by ob of
           Some who \<Rightarrow> plain_state i Failed (Occupied who (py_str (get connection ''mountpoint'')))
         | None \<Rightarrow>
         if ob_mounted ob = Some True
         then (if ob_server_answering ob = Some False
               then (plain_state i Unreachable Mounted_not_answering)
                      \<lparr>cs_retryable := True, cs_read_only := (ob_read_only ob = Some True)\<rparr>
               else if ob_read_only ob = Some True
               then (plain_state i Connected Mounted_read_only)\<lparr>cs_read_only := True\<rparr>
               else plain_state i Connected Mounted)
         else case ob_unit ob of
           None \<Rightarrow> plain_state i Unknown No_unit_information
         | Some u \<Rightarrow>
         if unit_get u ''ActiveState'' = ''activating''
         then (plain_state i Connecting Mounting)\<lparr>cs_retryable := True\<rparr>
         else if unit_get u ''ActiveState'' = ''failed''
                 \<or> (unit_get u ''Result'' \<noteq> [] \<and> unit_get u ''Result'' \<noteq> ''success'')
         then derive_failed i u (ob_cause ob)
         else if ob_armed ob = Some False
         then plain_state i Failed Automount_not_running
         else plain_state i Idle Ready)"

text \<open>The wire form: the text of the message stays a \<^typ>\<open>state_text\<close>.\<close>

record wire_state =
  ws_id :: string
  ws_state :: conn_state
  ws_message :: state_text
  ws_errno :: "nat option"
  ws_retryable :: bool
  ws_read_only :: bool
  ws_is_problem :: bool

definition state_to_wire :: "connection_state \<Rightarrow> wire_state" where
  "state_to_wire s =
     \<lparr>ws_id = cs_id s, ws_state = cs_state s, ws_message = cs_message s, ws_errno = cs_errno s,
      ws_retryable = cs_retryable s, ws_read_only = cs_read_only s, ws_is_problem = is_problem s\<rparr>"

subsection \<open>What the derived state is entitled to say\<close>

lemmas derive_defs = derive_def derive_failed_def plain_state_def Let_def

definition unit_failed :: "unit_info \<Rightarrow> bool" where
  "unit_failed u = (unit_get u ''ActiveState'' = ''failed''
     \<or> (unit_get u ''Result'' \<noteq> [] \<and> unit_get u ''Result'' \<noteq> ''success''))"

definition latched_unit :: "unit_info \<Rightarrow> bool" where
  "latched_unit u = (unit_get u ''Result'' = START_LIMIT_HIT)"

definition reaches_unit :: "obj \<Rightarrow> observation \<Rightarrow> bool" where
  "reaches_unit connection ob =
     (get connection ''auto_connect'' \<noteq> JStr ''never'' \<and> ob_occupied_by ob = None \<and> ob_mounted ob \<noteq> Some True)"

lemma failed_state_journal:
  assumes "translate_journal text = Some c"
  shows "failed_state c l \<in> {Auth_failed, Failed, Unreachable, Connecting, Unresolved, Reconnecting}"
  using translate_state [OF assms] by (auto simp: failed_state_def Let_def)

lemma derive_connected_iff:
  assumes "\<And>c. ob_cause ob = Some c \<Longrightarrow> \<exists>text. translate_journal text = Some c"
  shows "cs_state (derive connection ob) = Connected \<longleftrightarrow>
    get connection ''auto_connect'' \<noteq> JStr ''never'' \<and> ob_occupied_by ob = None
    \<and> ob_mounted ob = Some True \<and> ob_server_answering ob \<noteq> Some False"
proof -
  have "failed_state c l \<noteq> Connected" if hyp: "ob_cause ob = Some c" for c l
  proof -
    obtain journal where "translate_journal journal = Some c" using assms [OF hyp] by blast
    from failed_state_journal [OF this, of l] show ?thesis by auto
  qed
  then show ?thesis by (auto simp: derive_defs split: option.split)
qed

lemma derive_idle_iff:
  assumes "\<And>c. ob_cause ob = Some c \<Longrightarrow> \<exists>text. translate_journal text = Some c"
  shows "cs_state (derive connection ob) = Idle \<longleftrightarrow>
    reaches_unit connection ob \<and> ob_armed ob \<noteq> Some False
    \<and> (\<exists>u. ob_unit ob = Some u \<and> unit_get u ''ActiveState'' \<noteq> ''activating'' \<and> \<not> unit_failed u)"
proof -
  have "failed_state c l \<noteq> Idle" if hyp: "ob_cause ob = Some c" for c l
  proof -
    obtain journal where "translate_journal journal = Some c" using assms [OF hyp] by blast
    from failed_state_journal [OF this, of l] show ?thesis by auto
  qed
  then show ?thesis by (auto simp: derive_defs reaches_unit_def unit_failed_def split: option.split)
qed

lemma derive_auth_failed:
  assumes "\<And>c. ob_cause ob = Some c \<Longrightarrow> \<exists>text. translate_journal text = Some c"
    and "cs_state (derive connection ob) = Auth_failed"
  shows "\<not> cs_retryable (derive connection ob)"
proof -
  have "\<not> cause_retryable c" if "ob_cause ob = Some c" "failed_state c l = Auth_failed" for c l
  proof -
    from that(2) have "cause_state c = Auth_failed" by (auto simp: failed_state_def Let_def split: if_splits)
    with assms(1) [OF that(1)] translate_auth show ?thesis by blast
  qed
  with assms(2) show ?thesis by (auto simp: derive_defs split: option.splits if_splits)
qed

lemma derive_latched:
  assumes "reaches_unit connection ob" and "ob_unit ob = Some u" and "latched_unit u"
    and "unit_get u ''ActiveState'' \<noteq> ''activating''"
  shows "cs_state (derive connection ob) \<in> {Auth_failed, Failed}
    \<and> \<not> cs_retryable (derive connection ob)
    \<and> (\<exists>m. cs_message (derive connection ob) = Latched m (py_str (get connection ''id'')))"
  using assms
  by (auto simp: derive_defs reaches_unit_def latched_unit_def START_LIMIT_HIT_def failed_state_def
      split: option.split)

lemma derive_id [simp]: "cs_id (derive connection ob) = py_str (get connection ''id'')"
  by (simp add: derive_defs split: option.split)

lemma states_complete: "s \<in> set STATES"
  by (cases s) (simp_all add: STATES_def)

subsection \<open>Properties\<close>

text \<open>An observation whose cause comes from a journal, as every observation of the monitor does.\<close>

definition journal_cause :: "observation \<Rightarrow> bool" where
  "journal_cause ob = (case ob_cause ob of None \<Rightarrow> True | Some c \<Rightarrow> \<exists>text. translate_journal text = Some c)"

lemma journal_causeD:
  "journal_cause ob \<Longrightarrow> ob_cause ob = Some c \<Longrightarrow> \<exists>text. translate_journal text = Some c"
  by (simp add: journal_cause_def)


definition example_observation :: observation where
  "example_observation = \<lparr>ob_mounted = Some False, ob_unit = Some [(''ActiveState'', ''failed''),
     (''Result'', ''start-limit-hit'')], ob_cause = translate_journal ''mount error(13): Permission denied'',
     ob_armed = Some True, ob_read_only = None, ob_occupied_by = None, ob_server_answering = None\<rparr>"

lemma example_observation_journal: "journal_cause example_observation"
  by (auto simp: journal_cause_def example_observation_def split: option.split)


text \<open>Nothing that will not be retried is reported as retryable: a refused credential never is, and
  a unit systemd has given up on is \<open>auth_failed\<close> or \<open>failed\<close>, not retryable, and says how to clear it.\<close>

theorem refusals_are_not_retryable:
  assumes "journal_cause ob"
  shows "(cs_state (derive connection ob) = Auth_failed \<longrightarrow> \<not> cs_retryable (derive connection ob))
    \<and> (reaches_unit connection ob \<and> ob_unit ob = Some u \<and> latched_unit u
         \<and> unit_get u ''ActiveState'' \<noteq> ''activating'' \<longrightarrow>
       cs_state (derive connection ob) \<in> {Auth_failed, Failed}
       \<and> \<not> cs_retryable (derive connection ob)
       \<and> (\<exists>m. cs_message (derive connection ob) = Latched m (py_str (get connection ''id''))))"
  using derive_auth_failed [OF journal_causeD [OF assms]] derive_latched by blast

theorem refusals_are_not_retryable_witness:
  "cs_state (derive [(''id'', JStr ''nas'')] example_observation) = Auth_failed
   \<and> \<not> cs_retryable (derive [(''id'', JStr ''nas'')] example_observation)"
proof -
  have "cs_state (derive [(''id'', JStr ''nas'')] example_observation) = Auth_failed" by code_simp
  then show ?thesis
    using refusals_are_not_retryable [OF example_observation_journal, of "[(''id'', JStr ''nas'')]"] by blast
qed

end
