(* ===== verification/Probe.thy ===== *)
theory Probe
  imports Complex_Main Paths
begin

text \<open>
  \<^verbatim>\<open>smbpal/mounts/probe.py\<close>: what the kernel's mount table and the cifs debug file say, and the
  stat probe that may block. The two files are given by their text, \<open>None\<close> when they cannot be read;
  the clock, the stat and the socket are the environment's.
\<close>

subsection \<open>Words and octal escapes\<close>

text \<open>\<open>line.split()\<close>: the maximal runs of characters that are not white space.\<close>

function words :: "string \<Rightarrow> string list" where
  "words [] = []"
| "words (c # cs) =
     (if is_space c then words cs
      else takeWhile (\<lambda>d. \<not> is_space d) (c # cs) # words (dropWhile (\<lambda>d. \<not> is_space d) (c # cs)))"
  by pat_completeness auto
termination by (relation "measure length") (auto simp: le_imp_less_Suc length_dropWhile_le)

definition octal_char :: "char \<Rightarrow> bool" where
  "octal_char c = (48 \<le> code c \<and> code c \<le> 55)"

text \<open>\<open>\\(\d{3})\<close> replaced by the character of that octal number. Python's \<open>int(\<dots>, 8)\<close> refuses the
  digits 8 and 9; the kernel writes octal ones only, and the model leaves other text alone.\<close>

fun unescape_octal :: "string \<Rightarrow> string" where
  "unescape_octal (b # x # y # z # rest) =
     (if b = backslash \<and> octal_char x \<and> octal_char y \<and> octal_char z
      then char_of (64 * (code x - 48) + 8 * (code y - 48) + (code z - 48)) # unescape_octal rest
      else b # unescape_octal (x # y # z # rest))"
| "unescape_octal s = s"

subsection \<open>The mount table\<close>

record mount_entry =
  me_mountpoint :: string
  me_fstype :: string
  me_source :: string
  me_options :: string

definition entry_read_only :: "mount_entry \<Rightarrow> bool" where
  "entry_read_only e = (''ro'' \<in> set (split_char (CHR '','') (me_options e)))"

fun index_from :: "nat \<Rightarrow> string \<Rightarrow> string list \<Rightarrow> nat option" where
  "index_from k w [] = None"
| "index_from k w (x # xs) =
     (if k = 0 \<and> x = w then Some 0 else map_option Suc (index_from (k - 1) w xs))"

definition parse_entry :: "string \<Rightarrow> mount_entry option" where
  "parse_entry line =
     (let fields = words line
      in if length fields < 8 then None
         else case index_from 6 ''-'' fields of
           None \<Rightarrow> None
         | Some sep \<Rightarrow>
             if length fields < sep + 3 then None
             else Some \<lparr>me_mountpoint = unescape_octal (fields ! 4), me_fstype = fields ! (sep + 1),
                        me_source = unescape_octal (fields ! (sep + 2)), me_options = fields ! 5\<rparr>)"

definition mount_entries :: "string option \<Rightarrow> mount_entry list option" where
  "mount_entries mountinfo =
     map_option (\<lambda>text. List.map_filter parse_entry (splitlines text)) mountinfo"

definition AUTOFS :: string where "AUTOFS = ''autofs''"
definition CIFS :: string where "CIFS = ''cifs''"

definition mounted_paths :: "string option \<Rightarrow> string list option" where
  "mounted_paths mountinfo =
     map_option (\<lambda>es. map me_mountpoint (filter (\<lambda>e. me_fstype e \<noteq> AUTOFS) es)) (mount_entries mountinfo)"

definition has_mount :: "string option \<Rightarrow> string \<Rightarrow> bool \<Rightarrow> bool option" where
  "has_mount mountinfo mountpoint autofs =
     map_option (\<lambda>es. list_ex (\<lambda>e. normpath (me_mountpoint e) = normpath mountpoint
                                  \<and> (me_fstype e = AUTOFS) = autofs) es) (mount_entries mountinfo)"

definition is_mounted :: "string option \<Rightarrow> string \<Rightarrow> bool option" where
  "is_mounted mountinfo mountpoint = has_mount mountinfo mountpoint False"

definition is_armed :: "string option \<Rightarrow> string \<Rightarrow> bool option" where
  "is_armed mountinfo mountpoint = has_mount mountinfo mountpoint True"

definition occupant :: "string option \<Rightarrow> string \<Rightarrow> mount_entry option" where
  "occupant mountinfo mountpoint =
     (case mount_entries mountinfo of
        None \<Rightarrow> None
      | Some es \<Rightarrow> find (\<lambda>e. normpath (me_mountpoint e) = normpath mountpoint \<and> me_fstype e \<noteq> AUTOFS) es)"

definition is_read_only :: "string option \<Rightarrow> string \<Rightarrow> bool option" where
  "is_read_only mountinfo mountpoint = map_option entry_read_only (occupant mountinfo mountpoint)"

lemma find_Some_ex: "find p xs \<noteq> None \<longleftrightarrow> list_ex p xs"
  by (induction xs) auto

lemma occupant_iff_mounted: "occupant mountinfo m \<noteq> None \<longleftrightarrow> is_mounted mountinfo m = Some True"
  unfolding occupant_def is_mounted_def has_mount_def
  by (cases "mount_entries mountinfo") (simp_all add: find_Some_ex del: not_None_eq)

subsection \<open>The cifs debug file\<close>

text \<open>\<open>re.search\<close> of a key, white space and a run of characters: the leftmost place where it fits.\<close>

fun search_after :: "string \<Rightarrow> (char \<Rightarrow> bool) \<Rightarrow> string \<Rightarrow> string option" where
  "search_after key p [] = None"
| "search_after key p (c # cs) =
     (let run = takeWhile p (dropWhile is_space (drop (length key) (c # cs)))
      in if prefix key (c # cs) \<and> run \<noteq> [] then Some run else search_after key p cs)"

text \<open>The walk: the host of the last \<open>Hostname:\<close> line takes the next \<open>TCP status:\<close>.\<close>

fun walk_debug :: "string list \<Rightarrow> string option \<Rightarrow> (string \<times> bool) list \<Rightarrow> (string \<times> bool) list" where
  "walk_debug [] host states = states"
| "walk_debug (l # ls) host states =
     (case search_after ''Hostname:'' (\<lambda>c. \<not> is_space c) l of
        Some h \<Rightarrow> walk_debug ls (Some (py_lower h)) states
      | None \<Rightarrow>
          (case host of
             None \<Rightarrow> walk_debug ls None states
           | Some h \<Rightarrow>
               (case search_after ''TCP status:'' is_digit l of
                  Some n \<Rightarrow> walk_debug ls None (AList.update h (n = ''1'') states)
                | None \<Rightarrow> walk_debug ls (Some h) states)))"

definition cifs_server_states :: "string option \<Rightarrow> (string \<times> bool) list option" where
  "cifs_server_states debug_data =
     (case debug_data of
        None \<Rightarrow> None
      | Some text \<Rightarrow>
          (let states = walk_debug (splitlines text) None []
           in if states = [] then None else Some states))"

definition server_is_answering :: "string \<Rightarrow> (string \<times> bool) list option \<Rightarrow> bool option" where
  "server_is_answering host states =
     (case states of None \<Rightarrow> None | Some m \<Rightarrow> if m = [] then None else map_of m (py_lower host))"

definition loopback_hosts :: "string list" where
  "loopback_hosts = [''localhost'', ''127.0.0.1'', ''::1'', ''[::1]'']"

definition can_probe :: "string \<Rightarrow> string \<Rightarrow> bool" where
  "can_probe platform host =
     (platform \<noteq> ''darwin'' \<or> host \<in> set loopback_hosts \<or> suffix ''.localhost'' host)"

text \<open>\<open>connects\<close> is whether the TCP connection to port 445 was made.\<close>

definition server_reachable :: "string \<Rightarrow> (string \<Rightarrow> bool) \<Rightarrow> string \<Rightarrow> bool option" where
  "server_reachable platform connects host =
     (if \<not> can_probe platform host then None else Some (connects host))"

subsection \<open>The probe that may block\<close>

text \<open>Per mountpoint: the cached answer with its time, the paths a thread is stat()ing, and the
  threads themselves. Times are seconds of the monotonic clock.\<close>

record probe_state =
  ps_inflight :: "string list"
  ps_results :: "(string \<times> (bool option \<times> rat)) list"
  ps_threads :: "string list"

datatype probe_answer = Cached "bool option" | Busy "bool option" | Started

definition probe_start :: "rat \<Rightarrow> rat \<Rightarrow> string \<Rightarrow> probe_state \<Rightarrow> probe_answer \<times> probe_state" where
  "probe_start cache_seconds now m s =
     (let cached = map_of (ps_results s) m
      in case cached of
           Some (v, t) \<Rightarrow>
             if now - t < cache_seconds then (Cached v, s)
             else if m \<in> set (ps_inflight s) then (Busy v, s)
             else (Started, s\<lparr>ps_inflight := m # ps_inflight s, ps_threads := m # ps_threads s\<rparr>)
         | None \<Rightarrow>
             if m \<in> set (ps_inflight s) then (Busy None, s)
             else (Started, s\<lparr>ps_inflight := m # ps_inflight s, ps_threads := m # ps_threads s\<rparr>))"

definition probe_finish :: "string \<Rightarrow> bool \<Rightarrow> rat \<Rightarrow> probe_state \<Rightarrow> probe_state" where
  "probe_finish m stat_ok now s =
     s\<lparr>ps_inflight := filter (\<lambda>x. x \<noteq> m) (ps_inflight s),
       ps_results := AList.update m (Some stat_ok, now) (ps_results s),
       ps_threads := remove1 m (ps_threads s)\<rparr>"

text \<open>What \<open>reachable\<close> returns: a started probe's outcome if it came within the timeout.\<close>

definition probe_result :: "probe_answer \<Rightarrow> bool option \<Rightarrow> bool option" where
  "probe_result a outcome = (case a of Cached v \<Rightarrow> v | Busy v \<Rightarrow> v | Started \<Rightarrow> outcome)"

datatype probe_word = P_mounted | P_unreachable | P_not_mounted | P_checking | P_unknown

definition probe_word_of :: "string option \<Rightarrow> string \<Rightarrow> bool \<Rightarrow> bool option \<Rightarrow> probe_word" where
  "probe_word_of mountinfo mountpoint deep reachable =
     (case is_mounted mountinfo mountpoint of
        None \<Rightarrow> P_unknown
      | Some False \<Rightarrow> P_not_mounted
      | Some True \<Rightarrow>
          if \<not> deep then P_mounted
          else (case reachable of None \<Rightarrow> P_checking | Some True \<Rightarrow> P_mounted | Some False \<Rightarrow> P_unreachable))"

inductive probe_step :: "probe_state \<Rightarrow> probe_state \<Rightarrow> bool" where
  ask: "probe_start cache now m s = (a, s') \<Longrightarrow> probe_step s s'"
| answered: "m \<in> set (ps_threads s) \<Longrightarrow> probe_step s (probe_finish m ok now s)"

definition probe_init :: probe_state where
  "probe_init = \<lparr>ps_inflight = [], ps_results = [], ps_threads = []\<rparr>"

definition one_each :: "probe_state \<Rightarrow> bool" where
  "one_each s = (distinct (ps_threads s) \<and> set (ps_inflight s) = set (ps_threads s))"

lemma probe_step_one_each [preserved]: "probe_step s t \<Longrightarrow> one_each s \<Longrightarrow> one_each t"
proof (induction rule: probe_step.induct)
  case (ask cache now m s a s')
  then show ?case
    by (auto simp: probe_start_def one_each_def Let_def split: option.splits if_splits)
next
  case (answered m s ok now)
  then show ?case by (auto simp: probe_finish_def one_each_def)
qed

interpretation probe: step_system "\<lambda>s. s = probe_init" probe_step one_each
  by unfold_locales (simp add: probe_init_def one_each_def, rule probe_step_one_each)

subsection \<open>The kernel's lines read back\<close>

text \<open>The kernel writes space, tab, newline and backslash as octal escapes.\<close>

definition octal3 :: "char \<Rightarrow> string" where
  "octal3 c = [backslash, char_of (48 + code c div 64), char_of (48 + code c div 8 mod 8),
     char_of (48 + code c mod 8)]"

definition kernel_escape :: "string \<Rightarrow> string" where
  "kernel_escape s =
     concat (map (\<lambda>c. if c \<in> {CHR '' '', CHR 0x09, lf, backslash} then octal3 c else [c]) s)"

definition plain_word :: "string \<Rightarrow> bool" where
  "plain_word w = (w \<noteq> [] \<and> (\<forall>c \<in> set w. \<not> is_space c))"

definition kernel_line :: "string list \<Rightarrow> mount_entry \<Rightarrow> string list \<Rightarrow> string" where
  "kernel_line ids e opt =
     join '' '' (ids @ [kernel_escape (me_mountpoint e), me_options e] @ opt @ [''-'', me_fstype e,
       kernel_escape (me_source e), ''rw''])"

lemma words_word:
  assumes "plain_word w"
  shows "words (w @ CHR '' '' # t) = w # words t" and "words w = [w]"
proof -
  obtain c cs where w: "w = c # cs" "\<not> is_space c" using assms by (cases w) (auto simp: plain_word_def)
  have sp: "is_space CHR '' ''" by (simp add: is_space_def code_def)
  have all: "\<forall>d \<in> set w. \<not> is_space d" using assms by (simp add: plain_word_def)
  have "takeWhile (\<lambda>d. \<not> is_space d) (w @ CHR '' '' # t) = w"
    "dropWhile (\<lambda>d. \<not> is_space d) (w @ CHR '' '' # t) = CHR '' '' # t"
    using all sp by (simp_all add: takeWhile_append2 dropWhile_append2)
  then show "words (w @ CHR '' '' # t) = w # words t"
    using w sp by (simp add: words.simps)
  have "takeWhile (\<lambda>d. \<not> is_space d) w = w" "dropWhile (\<lambda>d. \<not> is_space d) w = []"
    using all by (simp_all add: takeWhile_eq_all_conv)
  then show "words w = [w]" using w by (simp add: words.simps del: dropWhile_eq_Nil_conv)
qed

lemma words_join: "\<forall>w \<in> set ws. plain_word w \<Longrightarrow> words (join '' '' ws) = ws"
proof (induction ws)
  case (Cons w ws)
  then show ?case by (cases "ws = []") (simp_all add: words_word join_Cons)
qed simp

lemma octal_digits: "64 * (n div 64) + 8 * (n div 8 mod 8) + n mod 8 = (n::nat)"
proof -
  have "n div 64 = n div 8 div 8" by (simp add: div_mult2_eq [symmetric])
  moreover have "8 * (n div 8 div 8) + n div 8 mod 8 = n div 8" by (rule mult_div_mod_eq)
  moreover have "8 * (n div 8) + n mod 8 = n" by (rule mult_div_mod_eq)
  ultimately show ?thesis by linarith
qed

lemma octal3_unescape: "unescape_octal (octal3 c @ t) = c # unescape_octal t"
proof -
  have "code c < 256" by simp
  then have d: "code c div 64 < 4" by (simp add: div_less_iff_less_mult)
  have sum: "64 * (code c div 64) + 8 * (code c div 8 mod 8) + code c mod 8 = code c"
    by (rule octal_digits)
  have m: "code c div 8 mod 8 \<le> 7" "code c mod 8 \<le> 7" by (simp_all add: less_Suc_eq_le [symmetric])
  have "char_of (code c) = c" by (simp add: code_def)
  with d m sum show ?thesis by (simp add: octal3_def octal_char_def)
qed

lemma unescape_octal_other: "b \<noteq> backslash \<Longrightarrow> unescape_octal (b # s) = b # unescape_octal s"
  by (cases s rule: unescape_octal.cases) auto

lemma unescape_kernel_escape: "unescape_octal (kernel_escape s) = s"
proof (induction s)
  case Nil
  then show ?case by (simp add: kernel_escape_def)
next
  case (Cons c s)
  show ?case
  proof (cases "c \<in> {CHR '' '', CHR 0x09, lf, backslash}")
    case True
    then have "kernel_escape (c # s) = octal3 c @ kernel_escape s" by (simp add: kernel_escape_def)
    then show ?thesis using Cons.IH by (simp add: octal3_unescape)
  next
    case False
    then have "kernel_escape (c # s) = c # kernel_escape s" "c \<noteq> backslash"
      by (simp_all add: kernel_escape_def)
    then show ?thesis using Cons.IH by (simp add: unescape_octal_other)
  qed
qed

lemma index_from_opt:
  "w \<notin> set opt \<Longrightarrow> index_from (length pre) w (pre @ opt @ w # ys) = Some (length pre + length opt)"
proof (induction pre)
  case Nil
  then show ?case by (induction opt) auto
qed simp

definition clean_entry :: "string list \<Rightarrow> mount_entry \<Rightarrow> string list \<Rightarrow> bool" where
  "clean_entry ids e opt =
     (length ids = 4 \<and> ''-'' \<notin> set opt
      \<and> (\<forall>w \<in> set (ids @ [kernel_escape (me_mountpoint e), me_options e] @ opt @ [me_fstype e,
            kernel_escape (me_source e)]). plain_word w))"

lemma is_break_space: "is_break c \<Longrightarrow> is_space c"
  by (auto simp: is_break_def is_space_def Let_def)

lemma parse_kernel_line:
  assumes "clean_entry ids e opt"
  shows "parse_entry (kernel_line ids e opt) = Some e"
proof -
  let ?pre = "ids @ [kernel_escape (me_mountpoint e), me_options e]"
  let ?ys = "[me_fstype e, kernel_escape (me_source e), ''rw'']"
  let ?fields = "?pre @ opt @ ''-'' # ?ys"
  have len: "length ids = 4" using assms by (simp add: clean_entry_def)
  have "plain_word ''-''" "plain_word ''rw''" by (simp_all add: plain_word_def is_space_def code_def)
  with assms have "\<forall>w \<in> set ?fields. plain_word w"
    unfolding clean_entry_def by (simp add: ball_Un)
  then have words: "words (kernel_line ids e opt) = ?fields"
    using words_join [of ?fields] by (simp add: kernel_line_def)
  have "length ?pre = 6" using len by simp
  then have sep: "index_from 6 ''-'' ?fields = Some (6 + length opt)"
    using index_from_opt [of "''-''" opt ?pre ?ys] assms by (simp add: clean_entry_def)
  have nth: "?fields ! 4 = kernel_escape (me_mountpoint e)" "?fields ! 5 = me_options e"
    "?fields ! (6 + length opt + 1) = me_fstype e"
    "?fields ! (6 + length opt + 2) = kernel_escape (me_source e)"
    using len by (simp_all add: nth_append)
  have l8: "\<not> length ?fields < 8" and l3: "\<not> length ?fields < 6 + length opt + 3"
    using len by simp_all
  have "parse_entry (kernel_line ids e opt) =
      Some \<lparr>me_mountpoint = unescape_octal (?fields ! 4), me_fstype = ?fields ! (6 + length opt + 1),
        me_source = unescape_octal (?fields ! (6 + length opt + 2)), me_options = ?fields ! 5\<rparr>"
    unfolding parse_entry_def words Let_def sep if_not_P [OF l8] option.case if_not_P [OF l3] by (rule refl)
  then show ?thesis unfolding nth by (simp add: unescape_kernel_escape)
qed

lemma join_no_break:
  assumes "\<forall>w \<in> set ws. plain_word w"
  shows "\<forall>c \<in> set (join '' '' ws). \<not> is_break c"
proof -
  have "set (join '' '' ws) \<subseteq> \<Union> (set ` set ws) \<union> {CHR '' ''}"
    by (induction "'' ''" ws rule: join.induct) auto
  moreover have "\<not> is_break CHR '' ''" by (simp add: is_break_def code_def)
  moreover have "\<forall>c \<in> \<Union> (set ` set ws). \<not> is_break c"
    using assms is_break_space by (auto simp: plain_word_def)
  ultimately show ?thesis by blast
qed

lemma kernel_line_no_break:
  assumes "clean_entry ids e opt"
  shows "\<forall>c \<in> set (kernel_line ids e opt). \<not> is_break c"
  unfolding kernel_line_def using assms
  by (intro join_no_break) (auto simp: clean_entry_def plain_word_def is_space_def code_def)

subsection \<open>Properties\<close>

text \<open>C6: the mount table the kernel prints reads back entry by entry, with the escaped mountpoint and
  source restored, whatever optional fields the lines carry, provided no field has a white-space
  character the kernel does not escape.\<close>

theorem mount_table_reads_back:
  assumes "\<forall>(ids, e, opt) \<in> set ls. clean_entry ids e opt"
  shows "mount_entries (Some (concat (map (\<lambda>(ids, e, opt). kernel_line ids e opt @ [lf]) ls)))
    = Some (map (\<lambda>(ids, e, opt). e) ls)"
proof -
  have "splitlines (concat (map (\<lambda>(ids, e, opt). kernel_line ids e opt @ [lf]) ls))
      = map (\<lambda>(ids, e, opt). kernel_line ids e opt) ls"
    using assms by (induction ls) (auto simp: splitlines_line kernel_line_no_break)
  moreover have "List.map_filter parse_entry (map (\<lambda>(ids, e, opt). kernel_line ids e opt) ls)
      = map (\<lambda>(ids, e, opt). e) ls"
    using assms by (induction ls) (auto simp: parse_kernel_line List.map_filter_simps)
  ultimately show ?thesis by (simp add: mount_entries_def)
qed

definition example_entry :: mount_entry where
  "example_entry = \<lparr>me_mountpoint = ''/media/pi/My Share'', me_fstype = ''cifs'',
     me_source = ''//nas.local/My Share'', me_options = ''rw,relatime''\<rparr>"

theorem mount_table_reads_back_witness:
  "mount_entries (Some (kernel_line [''85'', ''29'', ''0:52'', ''/''] example_entry [''shared:9''] @ [lf]))
     = Some [example_entry]"
proof -
  have "clean_entry [''85'', ''29'', ''0:52'', ''/''] example_entry [''shared:9'']" by code_simp
  then show ?thesis
    using mount_table_reads_back [of "[([''85'', ''29'', ''0:52'', ''/''], example_entry, [''shared:9''])]"]
    by simp
qed

text \<open>A no-break space is white space to \<open>str.split\<close> and nothing the kernel escapes: such a mountpoint
  is not read back, and its mount reads as absent.\<close>

definition nbsp_entry :: mount_entry where
  "nbsp_entry = \<lparr>me_mountpoint = ''/media/pi/My'' @ [CHR 0xA0] @ ''Share'', me_fstype = ''cifs'',
     me_source = ''//nas.local/Media'', me_options = ''rw,relatime''\<rparr>"

lemma nbsp_mount_not_seen:
  "is_mounted (Some (kernel_line [''85'', ''29'', ''0:52'', ''/''] nbsp_entry [] @ [lf]))
     (me_mountpoint nbsp_entry) = Some False"
  by code_simp

text \<open>However asks and answers interleave, at most one thread is ever blocked in a stat of one
  mountpoint.\<close>

theorem one_probe_per_mountpoint:
  assumes "probe_step\<^sup>*\<^sup>* probe_init s"
  shows "distinct (ps_threads s) \<and> set (ps_inflight s) = set (ps_threads s)"
  using probe.inv_reachable [OF refl assms] by (simp add: one_each_def)

theorem one_probe_per_mountpoint_witness:
  "\<exists>s. probe_step\<^sup>*\<^sup>* probe_init s \<and> ps_threads s = [''/mnt/nas''] \<and> distinct (ps_threads s)"
proof -
  let ?s = "snd (probe_start 10 0 ''/mnt/nas'' probe_init)"
  have "probe_start 10 0 ''/mnt/nas'' probe_init = (fst (probe_start 10 0 ''/mnt/nas'' probe_init), ?s)"
    by simp
  then have "probe_step\<^sup>*\<^sup>* probe_init ?s" by (intro r_into_rtranclp probe_step.ask)
  moreover have "ps_threads ?s = [''/mnt/nas'']" by (simp add: probe_start_def probe_init_def)
  ultimately show ?thesis using one_probe_per_mountpoint by blast
qed

end
