(* ===== verification/Units.thy ===== *)
theory Units
  imports Values
begin

text \<open>
  \<^verbatim>\<open>smbpal/mounts/units.py\<close>: the names and the text of the systemd units of a connection, and reading
  the mountpoint and the connection id back out of such a text (\<^verbatim>\<open>_where\<close> of \<^verbatim>\<open>mounts/apply.py\<close>,
  the marker of \<^verbatim>\<open>mounts/inventory.py\<close>).

  A connection here is a validated record: its required keys are present.
\<close>

subsection \<open>Path escaping\<close>

fun collapse :: "string \<Rightarrow> string" where
  "collapse [] = []"
| "collapse (c # cs) = (if c = slash \<and> cs \<noteq> [] \<and> hd cs = slash then collapse cs else c # collapse cs)"

definition collapsed :: "string \<Rightarrow> string" where
  "collapsed path = strip_char slash (collapse path)"

definition utf8 :: "char \<Rightarrow> nat list" where
  "utf8 c = (if code c < 128 then [code c] else [192 + code c div 64, 128 + code c mod 64])"

definition unit_char :: "nat \<Rightarrow> bool" where
  "unit_char b = ((65 \<le> b \<and> b \<le> 90) \<or> (97 \<le> b \<and> b \<le> 122) \<or> (48 \<le> b \<and> b \<le> 57)
     \<or> b = 58 \<or> b = 95 \<or> b = 46)"

definition escape_hex :: "nat \<Rightarrow> string" where
  "escape_hex b = [backslash, CHR ''x'', hex_digit (b div 16), hex_digit (b mod 16)]"

definition escape_byte :: "bool \<Rightarrow> nat \<Rightarrow> string" where
  "escape_byte first b =
     (if b = 47 then ''-''
      else if first \<and> b = 46 then escape_hex 46
      else if unit_char b then [char_of b]
      else escape_hex b)"

fun escape_bytes :: "bool \<Rightarrow> nat list \<Rightarrow> string" where
  "escape_bytes first [] = []"
| "escape_bytes first (b # bs) = escape_byte first b @ escape_bytes False bs"

definition escape_path :: "string \<Rightarrow> string" where
  "escape_path path =
     (let c = collapsed path
      in if c = [] then ''-'' else escape_bytes True (concat (map utf8 c)))"

definition unit_names :: "string \<Rightarrow> string \<times> string" where
  "unit_names mountpoint =
     (let escaped = escape_path mountpoint in (escaped @ ''.mount'', escaped @ ''.automount''))"

subsection \<open>Unit text\<close>

definition shown :: "obj \<Rightarrow> string \<Rightarrow> string" where
  "shown c k = py_str (get c k)"

definition mount_source :: "obj \<Rightarrow> string" where
  "mount_source c = ''//'' @ shown c ''host'' @ [slash] @ shown c ''share''"

definition mount_options :: "obj \<Rightarrow> string option \<Rightarrow> string" where
  "mount_options c credentials_path =
     join '',''
       ([''soft'', ''_netdev'', ''iocharset=utf8'', ''file_mode=0755'', ''dir_mode=0755'']
        @ (case credentials_path of
             Some p \<Rightarrow> if p = [] then [''guest''] else [''credentials='' @ p]
           | None \<Rightarrow> [''guest''])
        @ (if get c ''uid'' = JNull then [] else [''uid='' @ shown c ''uid'', ''forceuid''])
        @ (if get c ''gid'' = JNull then [] else [''gid='' @ shown c ''gid'', ''forcegid'']))"

definition section_sign :: string where "section_sign = [CHR 0xA7]"

definition MARKER :: string where
  "MARKER = ''# Generated by SMBPal for connection ''"

text \<open>A file's text is given as its lines, each ended by a newline.\<close>

definition text_lines :: "string list \<Rightarrow> string" where
  "text_lines ls = concat (map (\<lambda>l. l @ [lf]) ls)"

definition mount_unit_lines :: "obj \<Rightarrow> string option \<Rightarrow> string list" where
  "mount_unit_lines c credentials_path =
     [MARKER @ shown c ''id'' @ ''. Do not edit.'',
      ''[Unit]'',
      ''Description=SMBPal mount of '' @ mount_source c,
      ''# The remote is on the network but the automount means nothing waits for it:'',
      ''# the mount happens on first access, not during boot (M0 '' @ section_sign @ ''4).'',
      ''After=network-online.target'',
      ''Wants=network-online.target'',
      [],
      ''[Mount]'',
      ''What='' @ mount_source c,
      ''Where='' @ shown c ''mountpoint'',
      ''Type=cifs'',
      ''Options='' @ mount_options c credentials_path]"

definition mount_unit :: "obj \<Rightarrow> string option \<Rightarrow> string" where
  "mount_unit c credentials_path = text_lines (mount_unit_lines c credentials_path)"

definition automount_unit_lines :: "obj \<Rightarrow> string list" where
  "automount_unit_lines c =
     [MARKER @ shown c ''id'' @ ''. Do not edit.'',
      ''[Unit]'',
      ''Description=SMBPal automount for '' @ shown c ''mountpoint'',
      [],
      ''[Automount]'',
      ''Where='' @ shown c ''mountpoint'',
      ''# TimeoutIdleSec is deliberately unset. M0 '' @ section_sign @ ''4 watched a background desktop'',
      ''# process re-trigger the automount 80 s after boot without the user touching'',
      ''# anything, so idle unmounting cannot be relied on to happen at all.'',
      [],
      ''[Install]'',
      ''WantedBy=multi-user.target'']"

definition automount_unit :: "obj \<Rightarrow> string" where
  "automount_unit c = text_lines (automount_unit_lines c)"

subsection \<open>Reading a unit back\<close>

text \<open>\<open>re.search("^Where=(.*)$", text, re.MULTILINE)\<close>, whose lines end at newlines only.\<close>

definition where_field :: "string \<Rightarrow> string option" where
  "where_field text =
     (case find (prefix ''Where='') (split_char lf text) of
        None \<Rightarrow> None
      | Some l \<Rightarrow> Some (drop 6 l))"

definition unit_where :: "string \<Rightarrow> string option" where
  "unit_where text = map_option py_strip (where_field text)"

definition before_dot :: "string \<Rightarrow> string" where
  "before_dot s = takeWhile (\<lambda>c. c \<noteq> CHR ''.'') s"

definition unit_identifier :: "string \<Rightarrow> string option" where
  "unit_identifier text = map_option (\<lambda>rest. py_strip (before_dot rest)) (after_first MARKER text)"

subsection \<open>Escaping loses nothing but repeated and outer slashes\<close>

text \<open>The reading that undoes the escaping.\<close>

definition hex_val :: "char \<Rightarrow> nat" where
  "hex_val c = (if code c < 58 then code c - 48 else code c - 87)"

fun unescape :: "string \<Rightarrow> nat list" where
  "unescape [] = []"
| "unescape (c # cs) =
     (if c = CHR ''-'' then 47 # unescape cs
      else if c = backslash then
        (case cs of x # h # l # rest \<Rightarrow> (16 * hex_val h + hex_val l) # unescape rest | _ \<Rightarrow> [])
      else code c # unescape cs)"

lemma hex_val_digit: "n < 16 \<Longrightarrow> hex_val (hex_digit n) = n"
  by (simp add: hex_val_def hex_digit_def)

lemma unescape_hex: "b < 256 \<Longrightarrow> unescape (escape_hex b @ t) = b # unescape t"
  by (simp add: escape_hex_def backslash_def hex_val_digit)

lemma unit_char_not_special: "unit_char b \<Longrightarrow> b < 256 \<and> b \<noteq> 45 \<and> b \<noteq> 92"
  by (auto simp: unit_char_def)

lemma char_of_special:
  fixes b :: nat
  assumes "b < 256"
  shows "char_of b = CHR ''-'' \<longleftrightarrow> b = 45" and "char_of b = backslash \<longleftrightarrow> b = 92"
proof -
  have "char_of b = CHR ''-'' \<longleftrightarrow> code (char_of b) = 45" by (simp add: code_inj [symmetric] code_def)
  with assms show "char_of b = CHR ''-'' \<longleftrightarrow> b = 45" by simp
  have "char_of b = backslash \<longleftrightarrow> code (char_of b) = 92"
    by (simp add: code_inj [symmetric] code_def backslash_def)
  with assms show "char_of b = backslash \<longleftrightarrow> b = 92" by simp
qed

lemma unescape_byte: "b < 256 \<Longrightarrow> unescape (escape_byte first b @ t) = b # unescape t"
  using unit_char_not_special [of b]
  by (auto simp: escape_byte_def unescape_hex char_of_special)

lemma unescape_bytes: "\<forall>b \<in> set bs. b < 256 \<Longrightarrow> unescape (escape_bytes first bs) = bs"
  by (induction bs arbitrary: first) (simp_all add: unescape_byte)

lemma utf8_byte: "b \<in> set (utf8 c) \<Longrightarrow> b < 256"
proof -
  have "code c div 64 < 4" using code_less [of c] by (simp add: div_less_iff_less_mult)
  moreover have "code c mod 64 < 64" by simp
  ultimately show "b \<in> set (utf8 c) \<Longrightarrow> b < 256"
    using code_less [of c] by (auto simp: utf8_def split: if_splits)
qed

lemma utf8_prefix_free: "utf8 c @ bs = utf8 d @ bs' \<Longrightarrow> c = d \<and> bs = bs'"
proof -
  assume eq: "utf8 c @ bs = utf8 d @ bs'"
  have "code c = code d \<and> bs = bs'"
  proof (cases "code c < 128"; cases "code d < 128")
    assume "\<not> code c < 128" "\<not> code d < 128"
    with eq have "code c div 64 = code d div 64" "code c mod 64 = code d mod 64" "bs = bs'"
      by (auto simp: utf8_def)
    then show ?thesis by (metis div_mult_mod_eq)
  qed (use eq in \<open>auto simp: utf8_def\<close>)
  then show ?thesis by (simp add: code_inj)
qed

lemma utf8_inj: "concat (map utf8 s) = concat (map utf8 t) \<longleftrightarrow> s = t"
proof
  show "concat (map utf8 s) = concat (map utf8 t) \<Longrightarrow> s = t"
  proof (induction s arbitrary: t)
    case Nil
    then show ?case by (cases t) (auto simp: utf8_def split: if_splits)
  next
    case (Cons c s)
    then obtain d t' where "t = d # t'" by (cases t) (auto simp: utf8_def split: if_splits)
    with Cons show ?case using utf8_prefix_free [of c "concat (map utf8 s)" d "concat (map utf8 t')"] by auto
  qed
qed simp

lemma unescape_utf8: "unescape (escape_bytes first (concat (map utf8 s))) = concat (map utf8 s)"
  by (rule unescape_bytes) (auto dest: utf8_byte)

lemma escape_bytes_inj:
  "escape_bytes True (concat (map utf8 s)) = escape_bytes True (concat (map utf8 t)) \<longleftrightarrow> s = t"
  using unescape_utf8 utf8_inj by metis

lemma collapsed_not_slash: "collapsed path \<noteq> [slash]"
  using hd_strip_on [of "\<lambda>c. c = slash" "collapse path"]
  by (auto simp: collapsed_def strip_char_def)

lemma escape_not_dash:
  assumes "s \<noteq> [slash]"
  shows "escape_bytes True (concat (map utf8 s)) \<noteq> ''-''"
proof
  assume "escape_bytes True (concat (map utf8 s)) = ''-''"
  then have "concat (map utf8 s) = unescape ''-''" using unescape_utf8 [of True s] by simp
  also have "\<dots> = concat (map utf8 [slash])" by (simp add: utf8_def slash_def code_def)
  finally show False using assms utf8_inj by blast
qed

lemma escape_path_inj: "escape_path p = escape_path q \<longleftrightarrow> collapsed p = collapsed q"
proof -
  have dash: "escape_bytes True (concat (map utf8 (collapsed r))) \<noteq> ''-''" for r
    by (rule escape_not_dash [OF collapsed_not_slash])
  have "escape_path r = ''-'' \<longleftrightarrow> collapsed r = []" for r
    using dash [of r] by (simp add: escape_path_def Let_def)
  moreover have "escape_path p = escape_path q \<longleftrightarrow> collapsed p = collapsed q"
    if "collapsed p \<noteq> []" "collapsed q \<noteq> []"
    using that by (simp add: escape_path_def Let_def escape_bytes_inj)
  ultimately show ?thesis by metis
qed

text \<open>The alphabet of a unit name: nothing systemd would read as a separator or a specifier.\<close>

definition unit_name_char :: "char \<Rightarrow> bool" where
  "unit_name_char c = (unit_char (code c) \<or> c = CHR ''-'' \<or> c = backslash)"

lemma hex_digit_unit: "n < 16 \<Longrightarrow> unit_name_char (hex_digit n)"
  by (auto simp: unit_name_char_def unit_char_def hex_digit_def)

lemma escape_hex_chars: "b < 256 \<Longrightarrow> c \<in> set (escape_hex b) \<Longrightarrow> unit_name_char c"
  using hex_digit_unit [of "b div 16"] hex_digit_unit [of "b mod 16"]
  by (auto simp: escape_hex_def) (simp_all add: unit_name_char_def unit_char_def code_def)

lemma escape_byte_chars: "b < 256 \<Longrightarrow> c \<in> set (escape_byte first b) \<Longrightarrow> unit_name_char c"
  using escape_hex_chars [of b c] escape_hex_chars [of 46 c]
  by (auto simp: escape_byte_def unit_name_char_def split: if_splits)

lemma escape_bytes_chars:
  "\<forall>b \<in> set bs. b < 256 \<Longrightarrow> c \<in> set (escape_bytes first bs) \<Longrightarrow> unit_name_char c"
  by (induction bs arbitrary: first) (auto dest: escape_byte_chars)

lemma escape_path_chars:
  assumes "c \<in> set (escape_path p)"
  shows "unit_name_char c"
proof (cases "collapsed p = []")
  case True
  with assms show ?thesis by (simp add: escape_path_def unit_name_char_def)
next
  case False
  have "\<forall>b \<in> set (concat (map utf8 (collapsed p))). b < 256" by (auto dest: utf8_byte)
  from escape_bytes_chars [OF this, of c True] assms False show ?thesis
    by (simp add: escape_path_def Let_def)
qed

lemma unit_names_inj:
  "unit_names p = unit_names q \<longleftrightarrow> collapsed p = collapsed q"
  "fst (unit_names p) = fst (unit_names q) \<longleftrightarrow> collapsed p = collapsed q"
  "snd (unit_names p) = snd (unit_names q) \<longleftrightarrow> collapsed p = collapsed q"
  by (auto simp: unit_names_def Let_def escape_path_inj)

lemma mount_neq_automount: "fst (unit_names p) \<noteq> snd (unit_names q)"
proof
  assume "fst (unit_names p) = snd (unit_names q)"
  then have "escape_path p @ ''.mount'' = (escape_path q @ ''.auto'') @ ''mount''"
    by (simp add: unit_names_def Let_def)
  then have "rev (escape_path p @ ''.mount'') ! 5 = rev ((escape_path q @ ''.auto'') @ ''mount'') ! 5"
    by simp
  then show False by (simp add: rev_append nth_append)
qed

subsection \<open>The text reads back\<close>

lemma split_text_lines:
  "\<forall>l \<in> set ls. lf \<notin> set l \<Longrightarrow> split_char lf (text_lines ls) = ls @ [[]]"
  by (induction ls) (simp_all add: text_lines_def split_char_append)

definition no_newline :: "obj \<Rightarrow> bool" where
  "no_newline c = (\<forall>k \<in> {''id'', ''host'', ''share'', ''mountpoint'', ''uid'', ''gid''}. lf \<notin> set (shown c k))"

lemma join_set: "set (join sep ws) \<subseteq> \<Union> (set ` set ws) \<union> set sep"
  by (induction sep ws rule: join.induct) auto

lemma lf_literals [simp]: "CHR 0x20 \<noteq> lf" "lf \<noteq> slash" "slash \<noteq> lf"
  by (simp_all add: lf_def slash_def)

lemma mount_options_no_newline:
  assumes "no_newline c" and "\<forall>p. credentials = Some p \<longrightarrow> lf \<notin> set p"
  shows "lf \<notin> set (mount_options c credentials)"
proof -
  let ?parts = "[''soft'', ''_netdev'', ''iocharset=utf8'', ''file_mode=0755'', ''dir_mode=0755'']
        @ (case credentials of
             Some p \<Rightarrow> if p = [] then [''guest''] else [''credentials='' @ p]
           | None \<Rightarrow> [''guest''])
        @ (if get c ''uid'' = JNull then [] else [''uid='' @ shown c ''uid'', ''forceuid''])
        @ (if get c ''gid'' = JNull then [] else [''gid='' @ shown c ''gid'', ''forcegid''])"
  have "\<forall>w \<in> set ?parts. lf \<notin> set w"
    using assms by (auto simp: no_newline_def lf_def split: option.split)
  moreover have "lf \<notin> set '',''" by (simp add: lf_def)
  ultimately show ?thesis unfolding mount_options_def using join_set [of "'',''" ?parts] by blast
qed

lemma mount_unit_split:
  assumes "no_newline c" and "\<forall>p. credentials = Some p \<longrightarrow> lf \<notin> set p"
  shows "split_char lf (mount_unit c credentials) = mount_unit_lines c credentials @ [[]]"
proof -
  have "lf \<notin> set (mount_source c)"
    using assms(1) by (simp add: mount_source_def no_newline_def) (simp add: lf_def)
  with assms(1) mount_options_no_newline [OF assms]
  have "\<forall>l \<in> set (mount_unit_lines c credentials). lf \<notin> set l"
    by (simp add: mount_unit_lines_def no_newline_def) (simp add: lf_def MARKER_def section_sign_def)
  then show ?thesis unfolding mount_unit_def by (rule split_text_lines)
qed

lemma automount_unit_split:
  assumes "no_newline c"
  shows "split_char lf (automount_unit c) = automount_unit_lines c @ [[]]"
proof -
  have "\<forall>l \<in> set (automount_unit_lines c). lf \<notin> set l"
    using assms by (simp add: automount_unit_lines_def no_newline_def)
      (simp add: lf_def MARKER_def section_sign_def)
  then show ?thesis unfolding automount_unit_def by (rule split_text_lines)
qed

lemma mount_unit_where:
  assumes "no_newline c" and "\<forall>p. credentials = Some p \<longrightarrow> lf \<notin> set p"
  shows "where_field (mount_unit c credentials) = Some (shown c ''mountpoint'')"
  unfolding where_field_def mount_unit_split [OF assms]
  by (simp add: mount_unit_lines_def MARKER_def)

lemma automount_unit_where:
  assumes "no_newline c"
  shows "where_field (automount_unit c) = Some (shown c ''mountpoint'')"
  unfolding where_field_def automount_unit_split [OF assms]
  by (simp add: automount_unit_lines_def MARKER_def)

lemma after_first_prefix: "n \<noteq> [] \<Longrightarrow> after_first n (n @ t) = Some t"
  by (cases n) simp_all

lemma marked_text:
  assumes "text = (MARKER @ i @ ''. Do not edit.'') @ rest" and "CHR ''.'' \<notin> set i"
  shows "contains MARKER text" and "unit_identifier text = Some (py_strip i)"
proof -
  show "contains MARKER text" unfolding contains_iff assms(1) by (metis append.assoc append_Nil)
  have "after_first MARKER text = Some ((i @ ''. Do not edit.'') @ rest)"
    unfolding assms(1) append.assoc by (rule after_first_prefix) (simp add: MARKER_def)
  moreover have "before_dot ((i @ ''. Do not edit.'') @ rest) = i"
    using assms(2) unfolding before_dot_def by (induction i) auto
  ultimately show "unit_identifier text = Some (py_strip i)" by (simp add: unit_identifier_def)
qed

lemma mount_unit_marked:
  assumes "CHR ''.'' \<notin> set (shown c ''id'')"
  shows "contains MARKER (mount_unit c credentials)"
    and "unit_identifier (mount_unit c credentials) = Some (py_strip (shown c ''id''))"
proof -
  obtain rest where "mount_unit c credentials = (MARKER @ shown c ''id'' @ ''. Do not edit.'') @ rest"
    by (simp add: mount_unit_def mount_unit_lines_def text_lines_def)
  then show "contains MARKER (mount_unit c credentials)"
    "unit_identifier (mount_unit c credentials) = Some (py_strip (shown c ''id''))"
    using marked_text assms by blast+
qed

lemma automount_unit_marked:
  assumes "CHR ''.'' \<notin> set (shown c ''id'')"
  shows "contains MARKER (automount_unit c)"
    and "unit_identifier (automount_unit c) = Some (py_strip (shown c ''id''))"
proof -
  obtain rest where "automount_unit c = (MARKER @ shown c ''id'' @ ''. Do not edit.'') @ rest"
    by (simp add: automount_unit_def automount_unit_lines_def text_lines_def)
  then show "contains MARKER (automount_unit c)"
    "unit_identifier (automount_unit c) = Some (py_strip (shown c ''id''))"
    using marked_text assms by blast+
qed

subsection \<open>Properties\<close>

text \<open>Two mountpoints have the same unit names exactly when they are the same path up to repeated
  and outer slashes, so no two different mountpoints ever share a unit.\<close>

theorem unit_names_injective:
  "unit_names p = unit_names q \<longleftrightarrow> collapsed p = collapsed q"
  by (rule unit_names_inj(1))

text \<open>C5: whatever the record holds, a mount unit is exactly its thirteen lines: no value of a field
  without a newline becomes a directive of its own, and the mountpoint and the connection id are read
  back from the text as they were written.\<close>

theorem mount_unit_reads_back:
  assumes "no_newline c" and "\<forall>p. credentials = Some p \<longrightarrow> lf \<notin> set p"
    and "CHR ''.'' \<notin> set (shown c ''id'')"
  shows "split_char lf (mount_unit c credentials) = mount_unit_lines c credentials @ [[]]
    \<and> unit_where (mount_unit c credentials) = Some (py_strip (shown c ''mountpoint''))
    \<and> unit_identifier (mount_unit c credentials) = Some (py_strip (shown c ''id''))
    \<and> contains MARKER (mount_unit c credentials)"
  using mount_unit_split [OF assms(1,2)] mount_unit_where [OF assms(1,2)] mount_unit_marked [OF assms(3)]
  by (simp add: unit_where_def)

definition example_record :: obj where
  "example_record = [(''id'', JStr ''nas''), (''host'', JStr ''nas.local''), (''share'', JStr ''Media''),
     (''mountpoint'', JStr ''/mnt/nas''), (''uid'', JInt 1000), (''gid'', JInt 1000)]"

theorem mount_unit_reads_back_witness:
  "unit_where (mount_unit example_record (Some ''/etc/smbpal/credentials/nas'')) = Some ''/mnt/nas''
   \<and> unit_identifier (mount_unit example_record (Some ''/etc/smbpal/credentials/nas'')) = Some ''nas''"
proof -
  have "no_newline example_record" by code_simp
  moreover have "\<forall>p. Some ''/etc/smbpal/credentials/nas'' = Some p \<longrightarrow> lf \<notin> set p"
    by (simp add: lf_def)
  moreover have "CHR ''.'' \<notin> set (shown example_record ''id'')" by code_simp
  moreover have "py_strip (shown example_record ''mountpoint'') = ''/mnt/nas''"
    "py_strip (shown example_record ''id'') = ''nas''" by code_simp+
  ultimately show ?thesis using mount_unit_reads_back by metis
qed

end
