(* ===== verification/Occupancy.thy ===== *)
theory Occupancy
  imports Operations Units Probe
begin

text \<open>
  Who holds a mountpoint (\<open>foreign_mount\<close>, \<open>occupied_mountpoints\<close> and \<open>_untouched\<close> of
  \<^verbatim>\<open>smbpal/mounts/apply.py\<close>) and what the machine has that the configuration does not describe
  (\<^verbatim>\<open>smbpal/mounts/inventory.py\<close>).

  The unit directory is an association list from file names to the text \<open>read_text\<close> returns, \<open>None\<close>
  for a file that cannot be read; the mount table is the text of \<open>/proc/self/mountinfo\<close>, \<open>None\<close> when
  there is none. Connection records are those of a validated document: their ids, hosts, shares and
  mountpoints are strings.
\<close>

definition records :: "obj \<Rightarrow> string \<Rightarrow> obj list" where
  "records doc key = map as_obj (items doc key)"

subsection \<open>Mounts that are not ours\<close>

definition share_sources :: "obj \<Rightarrow> string list" where
  "share_sources c =
     py_lower (mount_source c) #
     (if truthy (get c ''fallback_host'')
      then [py_lower (''//'' @ text_of c ''fallback_host'' @ ''/'' @ text_of c ''share'')] else [])"

definition foreign_mount :: "mount_entry option \<Rightarrow> obj \<Rightarrow> mount_entry option" where
  "foreign_mount entry c =
     (case entry of
        None \<Rightarrow> None
      | Some e \<Rightarrow>
          if me_fstype e \<noteq> CIFS then Some e
          else if py_lower (me_source e) \<in> set (share_sources c) then None else Some e)"

definition foreign_occupant :: "string option \<Rightarrow> obj \<Rightarrow> mount_entry option" where
  "foreign_occupant mountinfo c = foreign_mount (occupant mountinfo (text_of c ''mountpoint'')) c"

definition or_nil :: "'a list option \<Rightarrow> 'a list" where
  "or_nil xs = (case xs of None \<Rightarrow> [] | Some ys \<Rightarrow> ys)"

definition occupied_mountpoints :: "string option \<Rightarrow> string list" where
  "occupied_mountpoints mountinfo =
     map (\<lambda>e. normpath (me_mountpoint e)) (filter (\<lambda>e. me_fstype e \<noteq> AUTOFS) (or_nil (mount_entries mountinfo)))"

definition doc_mountpoints :: "obj \<Rightarrow> string list" where
  "doc_mountpoints doc =
     map (\<lambda>c. normpath (text_of c ''mountpoint''))
       (filter (\<lambda>c. truthy (get c ''mountpoint'')) (records doc ''connections''))"

definition untouched :: "obj \<Rightarrow> obj option \<Rightarrow> string list option" where
  "untouched config previous = map_option (\<lambda>p. doc_mountpoints config @ doc_mountpoints p) previous"

subsection \<open>The survey\<close>

datatype finding_kind = Orphaned | Unmanaged

record finding =
  fi_kind :: finding_kind
  fi_mountpoint :: string
  fi_source :: string
  fi_mounted :: bool
  fi_connection_id :: "string option"
  fi_unit :: "string option"

text \<open>\<open>PurePath.suffix\<close>: from the last dot, when something stands on both sides of it.\<close>

definition path_suffix :: "string \<Rightarrow> string" where
  "path_suffix name =
     (let ext = rev (takeWhile (\<lambda>c. c \<noteq> CHR ''.'') (rev name))
      in if ext = [] \<or> length name \<le> length ext + 1 then [] else CHR ''.'' # ext)"

type_synonym unit_files = "(string \<times> string option) list"

definition is_unit_name :: "string \<Rightarrow> bool" where
  "is_unit_name name = (path_suffix name \<in> {''.mount'', ''.automount''})"

definition marked_unit :: "string \<times> string option \<Rightarrow> (string \<times> string \<times> string) option" where
  "marked_unit f =
     (case f of (name, body) \<Rightarrow>
        if \<not> is_unit_name name then None
        else case body of
          None \<Rightarrow> None
        | Some text \<Rightarrow>
            (case (unit_identifier text, unit_where text) of
               (Some i, Some w) \<Rightarrow> Some (name, normpath w, i)
             | _ \<Rightarrow> None))"

definition marked_units :: "unit_files option \<Rightarrow> (string \<times> string \<times> string) list" where
  "marked_units dir =
     (case dir of None \<Rightarrow> [] | Some files \<Rightarrow> List.map_filter marked_unit (sort_key fst files))"

definition cifs_mounts :: "string option \<Rightarrow> (string \<times> mount_entry) list" where
  "cifs_mounts mountinfo =
     fold (\<lambda>e m. AList.update (normpath (me_mountpoint e)) e m)
       (filter (\<lambda>e. me_fstype e = CIFS) (or_nil (mount_entries mountinfo))) []"

fun survey_units ::
  "string list \<Rightarrow> (string \<times> mount_entry) list \<Rightarrow> string list \<Rightarrow> (string \<times> string \<times> string) list
     \<Rightarrow> finding list \<times> string list" where
  "survey_units configured mounted claimed [] = ([], claimed)"
| "survey_units configured mounted claimed ((u, m, i) # us) =
     (if m \<in> set configured \<or> m \<in> set claimed then survey_units configured mounted claimed us
      else case survey_units configured mounted (m # claimed) us of
        (fs, claimed') \<Rightarrow>
          (\<lparr>fi_kind = Orphaned, fi_mountpoint = m,
             fi_source = (case map_of mounted m of None \<Rightarrow> [] | Some e \<Rightarrow> me_source e),
             fi_mounted = (map_of mounted m \<noteq> None),
             fi_connection_id = (if i = [] then None else Some i), fi_unit = Some u\<rparr> # fs, claimed'))"

definition survey :: "obj \<Rightarrow> unit_files option \<Rightarrow> string option \<Rightarrow> finding list" where
  "survey config dir mountinfo =
     (let configured = doc_mountpoints config;
          mounted = cifs_mounts mountinfo
      in case survey_units configured mounted [] (marked_units dir) of
        (fs, claimed) \<Rightarrow>
          fs @ map (\<lambda>(m, e). \<lparr>fi_kind = Unmanaged, fi_mountpoint = m, fi_source = me_source e,
                     fi_mounted = True, fi_connection_id = None, fi_unit = None\<rparr>)
                 (filter (\<lambda>(m, e). m \<notin> set configured \<and> m \<notin> set claimed) (sort_key fst mounted)))"

datatype finding_message = Orphan_message string bool | Unmanaged_message

definition finding_text :: "finding \<Rightarrow> finding_message" where
  "finding_text f =
     (case fi_kind f of
        Orphaned \<Rightarrow> Orphan_message (case fi_connection_id f of None \<Rightarrow> ''None'' | Some i \<Rightarrow> repr_str i) (fi_mounted f)
      | Unmanaged \<Rightarrow> Unmanaged_message)"

subsection \<open>What the survey accounts for\<close>

definition orphan :: "(string \<times> mount_entry) list \<Rightarrow> string \<times> string \<times> string \<Rightarrow> finding" where
  "orphan mounted = (\<lambda>(u, m, i).
     \<lparr>fi_kind = Orphaned, fi_mountpoint = m,
       fi_source = (case map_of mounted m of None \<Rightarrow> [] | Some e \<Rightarrow> me_source e),
       fi_mounted = (map_of mounted m \<noteq> None),
       fi_connection_id = (if i = [] then None else Some i), fi_unit = Some u\<rparr>)"

lemma survey_units_skip:
  "m \<in> set configured \<or> m \<in> set claimed \<Longrightarrow>
   survey_units configured mounted claimed ((u, m, i) # us) = survey_units configured mounted claimed us"
  by simp

lemma survey_units_take:
  "\<not> (m \<in> set configured \<or> m \<in> set claimed) \<Longrightarrow>
   survey_units configured mounted claimed us0 = r \<Longrightarrow> us0 = (u, m, i) # us \<Longrightarrow>
   r = (orphan mounted (u, m, i) # fst (survey_units configured mounted (m # claimed) us),
        snd (survey_units configured mounted (m # claimed) us))"
  by (auto simp: orphan_def split: prod.split)

lemma survey_units_shape:
  "survey_units configured mounted claimed us = (fs, claimed') \<Longrightarrow>
   set claimed' = set claimed \<union> fi_mountpoint ` set fs
   \<and> fi_mountpoint ` set fs = (fst \<circ> snd) ` set us - set configured - set claimed
   \<and> distinct (map fi_mountpoint fs) \<and> set fs \<subseteq> orphan mounted ` set us"
proof (induction us arbitrary: claimed fs claimed')
  case (Cons t us)
  obtain u m i where t: "t = (u, m, i)" by (cases t)
  show ?case
  proof (cases "m \<in> set configured \<or> m \<in> set claimed")
    case True
    with Cons.prems have "survey_units configured mounted claimed us = (fs, claimed')"
      by (simp only: t survey_units_skip)
    from Cons.IH [OF this] True show ?thesis by (auto simp: t)
  next
    case False
    obtain gs cl where rest: "survey_units configured mounted (m # claimed) us = (gs, cl)"
      by fastforce
    from survey_units_take [OF False Cons.prems] have fs: "fs = orphan mounted t # gs" "claimed' = cl"
      by (simp_all add: t rest)
    have "fi_mountpoint (orphan mounted t) = m" by (simp add: t orphan_def)
    with Cons.IH [OF rest] False show ?thesis unfolding fs by (auto simp: t)
  qed
qed simp

lemma survey_units_orphans:
  assumes "survey_units configured mounted claimed us = (fs, claimed')" and "f \<in> set fs"
  shows "fi_kind f = Orphaned" and "fi_mounted f \<longleftrightarrow> fi_mountpoint f \<in> fst ` set mounted"
proof -
  obtain t where "f = orphan mounted t" using survey_units_shape [OF assms(1)] assms(2) by blast
  then show "fi_kind f = Orphaned" and "fi_mounted f \<longleftrightarrow> fi_mountpoint f \<in> fst ` set mounted"
    by (auto simp: orphan_def map_of_eq_None_iff split: prod.split)
qed

lemma cifs_fold_keys:
  "fst ` set (fold (\<lambda>e m. AList.update (normpath (me_mountpoint e)) e m) es m)
     = fst ` set m \<union> (\<lambda>e. normpath (me_mountpoint e)) ` set es"
  by (induction es arbitrary: m) (auto simp: keys_update)

lemma cifs_fold_distinct:
  "distinct (map fst m) \<Longrightarrow> distinct (map fst (fold (\<lambda>e m. AList.update (normpath (me_mountpoint e)) e m) es m))"
  by (induction es arbitrary: m) (simp_all add: distinct_update)

definition cifs_points :: "string option \<Rightarrow> string set" where
  "cifs_points mountinfo =
     {normpath (me_mountpoint e) | e. e \<in> set (or_nil (mount_entries mountinfo)) \<and> me_fstype e = CIFS}"

lemma cifs_mounts_keys: "fst ` set (cifs_mounts mountinfo) = cifs_points mountinfo"
  by (auto simp: cifs_mounts_def cifs_fold_keys cifs_points_def)

lemma cifs_mounts_distinct: "distinct (map fst (cifs_mounts mountinfo))"
  by (simp add: cifs_mounts_def cifs_fold_distinct)

definition marked_points :: "unit_files option \<Rightarrow> string set" where
  "marked_points dir = (fst \<circ> snd) ` set (marked_units dir)"

lemma distinct_map_sort_key: "distinct (map fst xs) \<Longrightarrow> distinct (map fst (sort_key fst xs))"
  by (metis distinct_map distinct_sort set_sort)

definition unmanaged :: "string \<times> mount_entry \<Rightarrow> finding" where
  "unmanaged = (\<lambda>(m, e). \<lparr>fi_kind = Unmanaged, fi_mountpoint = m, fi_source = me_source e,
     fi_mounted = True, fi_connection_id = None, fi_unit = None\<rparr>)"

lemma unmanaged_sel [simp]:
  "fi_kind (unmanaged p) = Unmanaged" "fi_mountpoint (unmanaged p) = fst p" "fi_mounted (unmanaged p)"
  by (simp_all add: unmanaged_def split: prod.split)

lemma survey_parts:
  assumes "survey_units (doc_mountpoints config) (cifs_mounts mountinfo) [] (marked_units dir) = (fs, claimed)"
  shows "survey config dir mountinfo = fs @ map unmanaged
      (filter (\<lambda>(m, e). m \<notin> set (doc_mountpoints config) \<and> m \<notin> set claimed)
        (sort_key fst (cifs_mounts mountinfo)))"
  using assms by (simp add: survey_def Let_def unmanaged_def)

subsection \<open>Properties\<close>

text \<open>C10: the survey reports every mountpoint that one of our marked units or a cifs mount names and
  the configuration does not, once each and nothing else; a mountpoint is reported as an orphan
  exactly when a marked unit names it, and as mounted exactly when the mount table has it.\<close>

theorem survey_accounts_for_the_machine:
  "distinct (map fi_mountpoint (survey config dir mountinfo))
   \<and> set (map fi_mountpoint (survey config dir mountinfo))
       = (marked_points dir \<union> cifs_points mountinfo) - set (doc_mountpoints config)
   \<and> set (map fi_mountpoint (filter (\<lambda>f. fi_kind f = Orphaned) (survey config dir mountinfo)))
       = marked_points dir - set (doc_mountpoints config)
   \<and> set (map fi_mountpoint (filter fi_mounted (survey config dir mountinfo)))
       = cifs_points mountinfo - set (doc_mountpoints config)"
proof -
  let ?known = "doc_mountpoints config" and ?mounted = "cifs_mounts mountinfo"
  obtain fs claimed where run: "survey_units ?known ?mounted [] (marked_units dir) = (fs, claimed)"
    by fastforce
  let ?rest = "filter (\<lambda>(m, e). m \<notin> set ?known \<and> m \<notin> set claimed) (sort_key fst ?mounted)"
  have fs: "set claimed = fi_mountpoint ` set fs" "distinct (map fi_mountpoint fs)"
    "fi_mountpoint ` set fs = marked_points dir - set ?known"
    using survey_units_shape [OF run] by (simp_all add: marked_points_def)
  have kind: "filter (\<lambda>f. fi_kind f = Orphaned) fs = fs"
    using survey_units_orphans(1) [OF run] by (simp add: filter_id_conv)
  have up: "fi_mountpoint ` set (filter fi_mounted fs) = fi_mountpoint ` set fs \<inter> cifs_points mountinfo"
    using survey_units_orphans(2) [OF run] by (auto simp: cifs_mounts_keys)
  have rest: "fst ` set ?rest = cifs_points mountinfo - set ?known - set claimed"
    by (force simp: cifs_mounts_keys [symmetric])
  have "distinct (map fst (sort_key fst ?mounted))"
    by (rule distinct_map_sort_key [OF cifs_mounts_distinct])
  then have drest: "distinct (map fst ?rest)" by (rule distinct_map_filter)
  have none: "filter (\<lambda>f. fi_kind f = Orphaned) (map unmanaged ?rest) = []"
    "filter fi_mounted (map unmanaged ?rest) = map unmanaged ?rest"
    by (simp_all add: filter_empty_conv filter_id_conv)
  have points: "map fi_mountpoint (map unmanaged ?rest) = map fst ?rest" by simp
  have set_rest: "set (map fi_mountpoint (map unmanaged ?rest)) = cifs_points mountinfo - set ?known - set claimed"
    unfolding points set_map by (rule rest)
  have "distinct (map fi_mountpoint (fs @ map unmanaged ?rest))"
    unfolding map_append distinct_append set_rest unfolding points set_map using fs drest by blast
  moreover have "set (map fi_mountpoint (fs @ map unmanaged ?rest))
      = (marked_points dir \<union> cifs_points mountinfo) - set ?known"
    unfolding map_append set_append set_rest unfolding set_map fs by blast
  moreover have "set (map fi_mountpoint (filter fi_mounted (fs @ map unmanaged ?rest)))
      = cifs_points mountinfo - set ?known"
    unfolding filter_append none map_append set_append set_rest unfolding set_map up fs by blast
  ultimately show ?thesis
    unfolding survey_parts [OF run] filter_append none kind using fs by simp
qed

end
