(* ===== verification/Systemd.thy ===== *)
theory Systemd
  imports Machine
begin

text \<open>
  \<^verbatim>\<open>smbpal/system/run.py\<close> and \<^verbatim>\<open>smbpal/mounts/systemd.py\<close>: external commands and the \<open>systemctl\<close> calls
  made through them. What a spawned command answers is not under \<open>src/\<close>: it is the \<open>exec\<close> argument
  of every operation, which runs a command line in a world and returns the result and the next
  world. The message of an error is kept, its \<open>detail\<close> is not.
\<close>

subsection \<open>Running a command\<close>

record command_result =
  cr_returncode :: int
  cr_stdout :: string
  cr_stderr :: string

definition cr_ok :: "command_result \<Rightarrow> bool" where
  "cr_ok r = (cr_returncode r = 0)"

text \<open>How \<open>subprocess.run\<close> comes back: with a status and the two streams, or with one of the three
  exceptions \<open>run\<close> translates.\<close>

datatype spawned = Completed int "string option" "string option" | Not_installed | Timed_out | Os_error

definition or_empty :: "string option \<Rightarrow> string" where
  "or_empty s = (case s of None \<Rightarrow> [] | Some t \<Rightarrow> t)"

definition run_command :: "(string list \<Rightarrow> spawned) \<Rightarrow> nat \<Rightarrow> string list \<Rightarrow> command_result res" where
  "run_command spawn timeout argv =
     (case spawn argv of
        Completed status out err \<Rightarrow>
          Inr \<lparr>cr_returncode = status, cr_stdout = or_empty out, cr_stderr = or_empty err\<rparr>
      | Not_installed \<Rightarrow> Inl (CommandFailed (hd argv @ '' is not installed''))
      | Timed_out \<Rightarrow> Inl (CommandFailed (hd argv @ '' did not finish within '' @ nat_str timeout @ ''s''))
      | Os_error \<Rightarrow> Inl (CommandFailed (''cannot run '' @ hd argv)))"

definition check_result :: "string list \<Rightarrow> command_result \<Rightarrow> command_result res" where
  "check_result argv r = (if cr_ok r then Inr r else Inl (CommandFailed (hd argv @ '' failed'')))"

type_synonym 'w exec = "string list \<Rightarrow> 'w \<Rightarrow> command_result res \<times> 'w"

subsection \<open>The systemctl calls\<close>

definition SYSTEMCTL :: string where "SYSTEMCTL = ''systemctl''"

definition require_ok :: "string \<Rightarrow> command_result res \<times> 'w \<Rightarrow> unit res \<times> 'w" where
  "require_ok msg rw =
     (case rw of (r, w) \<Rightarrow>
        (and_then r (\<lambda>c. if cr_ok c then Inr () else Inl (SystemdError msg)), w))"

definition ignore_result :: "command_result res \<times> 'w \<Rightarrow> unit res \<times> 'w" where
  "ignore_result rw = (case rw of (r, w) \<Rightarrow> (and_then r (\<lambda>_. Inr ()), w))"

definition daemon_reload :: "'w exec \<Rightarrow> 'w \<Rightarrow> unit res \<times> 'w" where
  "daemon_reload ex w =
     require_ok ''systemd would not reload its unit files'' (ex [SYSTEMCTL, ''daemon-reload''] w)"

definition enable :: "'w exec \<Rightarrow> bool \<Rightarrow> string \<Rightarrow> 'w \<Rightarrow> unit res \<times> 'w" where
  "enable ex now unit w =
     require_ok (''could not enable '' @ unit)
       (ex ([SYSTEMCTL, ''enable''] @ (if now then [''--now''] else []) @ [unit]) w)"

text \<open>A unit that could not be disabled is only logged.\<close>

definition disable :: "'w exec \<Rightarrow> bool \<Rightarrow> string \<Rightarrow> 'w \<Rightarrow> unit res \<times> 'w" where
  "disable ex now unit w =
     ignore_result (ex ([SYSTEMCTL, ''disable''] @ (if now then [''--now''] else []) @ [unit]) w)"

definition stop :: "'w exec \<Rightarrow> string \<Rightarrow> 'w \<Rightarrow> unit res \<times> 'w" where
  "stop ex unit w = ignore_result (ex [SYSTEMCTL, ''stop'', unit] w)"

definition reset_failed :: "'w exec \<Rightarrow> string \<Rightarrow> 'w \<Rightarrow> unit res \<times> 'w" where
  "reset_failed ex unit w = ignore_result (ex [SYSTEMCTL, ''reset-failed'', unit] w)"

definition start_argv :: "bool \<Rightarrow> string \<Rightarrow> string list" where
  "start_argv block unit = [SYSTEMCTL, ''start''] @ (if block then [] else [''--no-block'']) @ [unit]"

definition start :: "'w exec \<Rightarrow> bool \<Rightarrow> string \<Rightarrow> 'w \<Rightarrow> unit res \<times> 'w" where
  "start ex block unit w = require_ok (''could not start '' @ unit) (ex (start_argv block unit) w)"

definition shown_properties :: "string list" where
  "shown_properties = [''ActiveState'', ''SubState'', ''Result'', ''StatusErrno'', ''ExecMainStatus'']"

text \<open>\<open>line.partition("=")\<close>, for a line with an equals sign.\<close>

definition partition_eq :: "string \<Rightarrow> string \<times> string" where
  "partition_eq line = (takeWhile (\<lambda>c. c \<noteq> CHR ''='') line, tl (dropWhile (\<lambda>c. c \<noteq> CHR ''='') line))"

definition show_values :: "string \<Rightarrow> unit_info" where
  "show_values out =
     fold (\<lambda>line values. if CHR ''='' \<in> set line
                         then AList.update (fst (partition_eq line)) (snd (partition_eq line)) values
                         else values)
       (splitlines out) []"

definition show_argv :: "string \<Rightarrow> string list" where
  "show_argv unit = [SYSTEMCTL, ''show'', unit, ''--property='' @ join '','' shown_properties]"

definition show_unit :: "'w exec \<Rightarrow> string \<Rightarrow> 'w \<Rightarrow> unit_info res \<times> 'w" where
  "show_unit ex unit w =
     (case ex (show_argv unit) w of (r, w') \<Rightarrow> (and_then r (\<lambda>c. Inr (show_values (cr_stdout c))), w'))"

definition is_active :: "'w exec \<Rightarrow> string \<Rightarrow> 'w \<Rightarrow> bool res \<times> 'w" where
  "is_active ex unit w =
     (case ex [SYSTEMCTL, ''is-active'', unit] w of
        (r, w') \<Rightarrow> (and_then r (\<lambda>c. Inr (py_strip (cr_stdout c) = ''active'')), w'))"

subsection \<open>What is read back\<close>

lemma partition_eq_line: "CHR ''='' \<notin> set k \<Longrightarrow> partition_eq (k @ CHR ''='' # v) = (k, v)"
  by (induction k) (auto simp: partition_eq_def)

text \<open>What \<open>systemctl show\<close> prints, one property a line.\<close>

definition show_output :: "unit_info \<Rightarrow> string" where
  "show_output u = concat (map (\<lambda>(k, v). k @ CHR ''='' # v @ [lf]) u)"

definition showable :: "unit_info \<Rightarrow> bool" where
  "showable u = (distinct (map fst u)
     \<and> (\<forall>(k, v) \<in> set u. CHR ''='' \<notin> set k \<and> (\<forall>c \<in> set k \<union> set v. \<not> is_break c)))"

lemma update_append: "k \<notin> fst ` set m \<Longrightarrow> AList.update k v m = m @ [(k, v)]"
  by (induction m) auto

lemma show_fold:
  assumes "distinct (map fst (m @ u))" and "\<forall>(k, v) \<in> set u. CHR ''='' \<notin> set k"
  shows "fold (\<lambda>line values. if CHR ''='' \<in> set line
                         then AList.update (fst (partition_eq line)) (snd (partition_eq line)) values
                         else values) (map (\<lambda>(k, v). k @ CHR ''='' # v) u) m = m @ u"
  using assms
proof (induction u arbitrary: m)
  case (Cons kv u)
  obtain k v where kv: "kv = (k, v)" by (cases kv)
  have k: "k \<notin> fst ` set m" "CHR ''='' \<notin> set k" using Cons.prems by (auto simp: kv)
  have "distinct (map fst ((m @ [(k, v)]) @ u))" using Cons.prems(1) by (simp add: kv)
  with Cons.IH [of "m @ [(k, v)]"] Cons.prems(2) k show ?case
    by (simp add: kv partition_eq_line update_append)
qed simp

lemma splitlines_show: "\<forall>(k, v) \<in> set u. \<forall>c \<in> set k \<union> set v. \<not> is_break c \<Longrightarrow>
  splitlines (show_output u) = map (\<lambda>(k, v). k @ CHR ''='' # v) u"
proof (induction u)
  case Nil
  then show ?case by (simp add: show_output_def splitlines_def splitlines_keep.simps)
next
  case (Cons kv u)
  obtain k v where kv: "kv = (k, v)" by (cases kv)
  have "\<not> is_break CHR ''=''" by (simp add: is_break_def code_def)
  then have "\<forall>c \<in> set (k @ CHR ''='' # v). \<not> is_break c" using Cons.prems by (auto simp: kv)
  from splitlines_line [OF this, of "show_output u"] Cons show ?case
    by (simp add: kv show_output_def)
qed

lemma show_values_output: "showable u \<Longrightarrow> show_values (show_output u) = u"
  unfolding show_values_def showable_def
  using show_fold [of "[]" u] splitlines_show [of u] by fastforce

end
