(* ===== verification/Monitor.thy ===== *)
theory Monitor
  imports Occupancy Systemd
begin

text \<open>
  \<^verbatim>\<open>smbpal/state/monitor.py\<close>: one poll of every connection, the priming of an armed idle mount, what
  priming remembers, and the events pushed to clients. The dictionaries of \<open>StateMonitor\<close> are the
  fields of \<open>monitor\<close>; everything the monitor does to the outside is appended to a trace of
  \<open>effect\<close>s, and everything it asks of the outside (commands, the mount table, a TCP connection) is
  a function of the trace so far, so that a command may change what is seen after it. The lock is
  held for single dictionary accesses only and one thread polls, so a poll is one function; the
  wake-up protocol of the thread is the step relation at the end.
\<close>

subsection \<open>State and effects\<close>

type_synonym aim = "string \<times> string \<times> string"

datatype reason =
    Was_mounted
  | Already_mounted
  | State_is conn_state
  | Auto_connect_never
  | Nothing_answers string
  | Mount_refused cause_text
  | Never_mounted nat string
  | Start_failed string py_error

datatype hint = Fallback_hint string string

record payload =
  pl_state :: wire_state
  pl_previous :: "conn_state option"
  pl_mountpoint :: "json option"
  pl_hint :: "hint option"

datatype effect =
    Ran "string list"
  | Primed string string
  | Declining string reason bool
  | State_changed payload
  | Connection_removed string

type_synonym trace = "effect list"

record monitor =
  mo_states :: "(string \<times> connection_state) list"
  mo_primed :: "(string \<times> aim) list"
  mo_declined :: "(string \<times> reason) list"
  mo_attempted :: "(string \<times> (aim \<times> nat)) list"
  mo_because :: "(string \<times> reason) list"
  mo_prime :: bool

definition monitor_init :: "bool \<Rightarrow> monitor" where
  "monitor_init prime =
     \<lparr>mo_states = [], mo_primed = [], mo_declined = [], mo_attempted = [], mo_because = [],
      mo_prime = prime\<rparr>"

text \<open>The world a poll runs in.\<close>

record env =
  env_answer :: "trace \<Rightarrow> string list \<Rightarrow> command_result res"
  env_mountinfo :: "trace \<Rightarrow> string option"
  env_debug_data :: "string option"
  env_reachable :: "trace \<Rightarrow> string \<Rightarrow> bool option"

definition monitor_exec :: "env \<Rightarrow> trace exec" where
  "monitor_exec env argv tr = (env_answer env tr argv, tr @ [Ran argv])"

definition conn_id :: "obj \<Rightarrow> string" where
  "conn_id c = text_of c ''id''"

definition mount_target :: "obj \<Rightarrow> aim" where
  "mount_target c = (text_of c ''host'', text_of c ''share'', text_of c ''mountpoint'')"

definition mount_name :: "obj \<Rightarrow> string" where
  "mount_name c = fst (unit_names (text_of c ''mountpoint''))"

definition PRIME_ATTEMPTS :: nat where "PRIME_ATTEMPTS = 3"

definition forget :: "string \<Rightarrow> monitor \<Rightarrow> monitor" where
  "forget i m =
     m\<lparr>mo_primed := AList.delete i (mo_primed m), mo_declined := AList.delete i (mo_declined m),
       mo_attempted := AList.delete i (mo_attempted m), mo_because := AList.delete i (mo_because m)\<rparr>"

definition latch :: "string \<Rightarrow> aim \<Rightarrow> reason \<Rightarrow> monitor \<Rightarrow> monitor" where
  "latch i t because m =
     m\<lparr>mo_primed := AList.update i t (mo_primed m), mo_attempted := AList.delete i (mo_attempted m),
       mo_because := AList.update i because (mo_because m),
       mo_declined := AList.delete i (mo_declined m)\<rparr>"

definition declining :: "string \<Rightarrow> reason \<Rightarrow> bool \<Rightarrow> monitor \<times> trace \<Rightarrow> monitor \<times> trace" where
  "declining i why warn s =
     (case s of (m, tr) \<Rightarrow>
        if map_of (mo_declined m) i = Some why then (m, tr)
        else (m\<lparr>mo_declined := AList.update i why (mo_declined m)\<rparr>, tr @ [Declining i why warn]))"

definition journal_argv :: "string \<Rightarrow> string list" where
  "journal_argv unit = [''journalctl'', ''-u'', unit, ''-n'', ''50'', ''--no-pager'', ''-o'', ''cat'']"

definition journal_cause_of :: "env \<Rightarrow> string \<Rightarrow> trace \<Rightarrow> cause option \<times> trace" where
  "journal_cause_of env unit tr =
     (case monitor_exec env (journal_argv unit) tr of
        (Inl _, tr') \<Rightarrow> (None, tr')
      | (Inr r, tr') \<Rightarrow> (translate_journal (cr_stdout r), tr'))"

subsection \<open>The state of one connection\<close>

definition occupied_text :: "mount_entry \<Rightarrow> string" where
  "occupied_text e = me_source e @ '' ('' @ me_fstype e @ '')''"

definition state_of :: "env \<Rightarrow> (string \<times> bool) list option \<Rightarrow> obj \<Rightarrow> trace \<Rightarrow> connection_state \<times> trace" where
  "state_of env servers c tr =
     (let mp = text_of c ''mountpoint'';
          intruder = foreign_occupant (env_mountinfo env tr) c;
          mounted = is_mounted (env_mountinfo env tr) mp;
          armed = is_armed (env_mountinfo env tr) mp
      in case show_unit (monitor_exec env) (mount_name c) tr of
        (answer, tr1) \<Rightarrow>
          (let unit = (case answer of Inl _ \<Rightarrow> None | Inr u \<Rightarrow> Some u);
               failed = (case unit of None \<Rightarrow> False | Some u \<Rightarrow> unit_failed u)
           in case (if failed \<and> mounted \<noteq> Some True then journal_cause_of env (mount_name c) tr1 else (None, tr1)) of
             (cause, tr2) \<Rightarrow>
               (derive c
                  \<lparr>ob_mounted = mounted, ob_unit = unit, ob_cause = cause, ob_armed = armed,
                   ob_read_only = (if mounted = Some True then is_read_only (env_mountinfo env tr2) mp else None),
                   ob_occupied_by = map_option occupied_text intruder,
                   ob_server_answering = (if mounted = Some True
                     then server_is_answering (text_of c ''host'') servers else None)\<rparr>,
                tr2)))"

subsection \<open>Priming\<close>

definition queued :: "obj \<Rightarrow> monitor \<Rightarrow> nat" where
  "queued c m =
     (case map_of (mo_attempted m) (conn_id c) of
        None \<Rightarrow> 0
      | Some (t, n) \<Rightarrow> if t = mount_target c then n else 0)"

definition auto_connect_of :: "obj \<Rightarrow> json" where
  "auto_connect_of c =
     (if truthy (get c ''auto_connect'') then get c ''auto_connect'' else JStr ''on_this_network'')"

definition queue_start :: "env \<Rightarrow> obj \<Rightarrow> monitor \<times> trace \<Rightarrow> monitor \<times> trace" where
  "queue_start env c s =
     (case s of (m, tr) \<Rightarrow>
       (case start (monitor_exec env) False (mount_name c) tr of
          (Inl e, tr') \<Rightarrow> declining (conn_id c) (Start_failed (mount_name c) e) True (m, tr')
        | (Inr _, tr') \<Rightarrow>
            (m\<lparr>mo_attempted := AList.update (conn_id c) (mount_target c, queued c m + 1) (mo_attempted m),
               mo_declined := AList.delete (conn_id c) (mo_declined m)\<rparr>,
             tr' @ [Primed (conn_id c) (mount_name c)])))"

definition latch_declining :: "obj \<Rightarrow> reason \<Rightarrow> monitor \<times> trace \<Rightarrow> monitor \<times> trace" where
  "latch_declining c because s =
     (case s of (m, tr) \<Rightarrow>
        declining (conn_id c) because True (latch (conn_id c) (mount_target c) because m, tr))"

text \<open>The last part of \<open>_maybe_prime\<close>: what an earlier start came to, and the start.\<close>

definition prime_again :: "env \<Rightarrow> obj \<Rightarrow> monitor \<times> trace \<Rightarrow> monitor \<times> trace" where
  "prime_again env c s =
     (case s of (m, tr) \<Rightarrow>
        if queued c m = 0 then queue_start env c (m, tr)
        else case journal_cause_of env (mount_name c) tr of
          (cause, tr') \<Rightarrow>
            (case cause of
               Some why \<Rightarrow>
                 if \<not> cause_retryable why
                 then latch_declining c (Mount_refused (cause_message why)) (m, tr')
                 else if queued c m \<ge> PRIME_ATTEMPTS
                 then latch_declining c (Never_mounted (queued c m) (mount_name c)) (m, tr')
                 else queue_start env c (m, tr')
             | None \<Rightarrow>
                 if queued c m \<ge> PRIME_ATTEMPTS
                 then latch_declining c (Never_mounted (queued c m) (mount_name c)) (m, tr')
                 else queue_start env c (m, tr')))"

definition prime_connected :: "obj \<Rightarrow> monitor \<times> trace \<Rightarrow> monitor \<times> trace" where
  "prime_connected c s =
     (case s of (m, tr) \<Rightarrow>
       (let just_primed = (case map_of (mo_attempted m) (conn_id c) of
                             None \<Rightarrow> False | Some (t, _) \<Rightarrow> t = mount_target c);
            m' = latch (conn_id c) (mount_target c) Was_mounted m
        in if just_primed then (m', tr) else declining (conn_id c) Already_mounted False (m', tr)))"

definition maybe_prime :: "env \<Rightarrow> obj \<Rightarrow> connection_state \<Rightarrow> monitor \<times> trace \<Rightarrow> monitor \<times> trace" where
  "maybe_prime env c st s =
     (case s of (m, tr) \<Rightarrow>
        let i = conn_id c;
            host = text_of c ''host''
        in if cs_state st = Connected then prime_connected c (m, tr)
        else if map_of (mo_primed m) i = Some (mount_target c)
        then (if cs_state st = Idle
              then declining i (case map_of (mo_because m) i of None \<Rightarrow> Was_mounted | Some b \<Rightarrow> b) False (m, tr)
              else (m, tr))
        else if cs_state st \<noteq> Idle then declining i (State_is (cs_state st)) False (m, tr)
        else if auto_connect_of c = JStr ''never'' then declining i Auto_connect_never False (m, tr)
        else if auto_connect_of c = JStr ''on_this_network'' \<and> env_reachable env tr host \<noteq> Some True
        then declining i (Nothing_answers host) False (m, tr)
        else prime_again env c (m, tr))"

subsection \<open>A poll\<close>

definition differs :: "connection_state \<Rightarrow> connection_state \<Rightarrow> bool" where
  "differs p c = ((cs_state p, cs_message p) \<noteq> (cs_state c, cs_message c))"

type_synonym change = "connection_state option \<times> connection_state"

fun poll_connections ::
  "env \<Rightarrow> (string \<times> bool) list option \<Rightarrow> obj list \<Rightarrow> monitor \<times> trace
     \<Rightarrow> connection_state list \<times> change list \<times> monitor \<times> trace" where
  "poll_connections env servers [] s = ([], [], s)"
| "poll_connections env servers (c # cs) (m, tr) =
     (case state_of env servers c tr of
        (st, tr1) \<Rightarrow>
          (let s2 = (if mo_prime m then maybe_prime env c st (m, tr1) else (m, tr1));
               previous = map_of (mo_states (fst s2)) (cs_id st);
               here = (case previous of
                         None \<Rightarrow> [(None, st)]
                       | Some p \<Rightarrow> if differs p st then [(Some p, st)] else [])
           in case poll_connections env servers cs s2 of
             (sts, changes, s3) \<Rightarrow> (st # sts, here @ changes, s3)))"

definition connection_lookup :: "obj \<Rightarrow> string \<Rightarrow> obj option" where
  "connection_lookup config i = find (\<lambda>c. get c ''id'' = JStr i) (records config ''connections'')"

definition fallback_hint :: "obj \<Rightarrow> connection_state \<Rightarrow> hint option" where
  "fallback_hint c st =
     (if \<not> truthy (get c ''fallback_host'') \<or> cs_state st \<noteq> Unresolved then None
      else Some (Fallback_hint (text_of c ''fallback_host'') (conn_id c)))"

definition emitted :: "obj \<Rightarrow> change \<Rightarrow> effect" where
  "emitted config ch =
     (case ch of (previous, st) \<Rightarrow>
        State_changed
          \<lparr>pl_state = state_to_wire st, pl_previous = map_option cs_state previous,
           pl_mountpoint = map_option (\<lambda>c. get c ''mountpoint'') (connection_lookup config (cs_id st)),
           pl_hint = (case connection_lookup config (cs_id st) of
              None \<Rightarrow> None | Some c \<Rightarrow> fallback_hint c st)\<rparr>)"

fun drop_gone :: "string list \<Rightarrow> monitor \<times> trace \<Rightarrow> monitor \<times> trace" where
  "drop_gone [] s = s"
| "drop_gone (i # gone) (m, tr) = drop_gone gone (forget i m, tr @ [Connection_removed i])"

definition states_dict :: "connection_state list \<Rightarrow> (string \<times> connection_state) list" where
  "states_dict sts = fold (\<lambda>st d. AList.update (cs_id st) st d) sts []"

definition gone_ids :: "(string \<times> connection_state) list \<Rightarrow> (string \<times> connection_state) list \<Rightarrow> string list" where
  "gone_ids old new = sort (remdups (filter (\<lambda>i. i \<notin> set (map fst new)) (map fst old)))"

definition poll :: "env \<Rightarrow> obj res \<Rightarrow> monitor \<times> trace \<Rightarrow> connection_state list res \<times> monitor \<times> trace" where
  "poll env loaded s =
     (case loaded of
        Inl e \<Rightarrow> (Inl e, s)
      | Inr config \<Rightarrow>
          (case poll_connections env (cifs_server_states (env_debug_data env))
                  (records config ''connections'') s of
             (sts, changes, (m, tr)) \<Rightarrow>
               (let current = states_dict sts;
                    gone = gone_ids (mo_states m) current;
                    m' = m\<lparr>mo_states := current\<rparr>
                in (Inr (map snd current), drop_gone gone (m', tr @ map (emitted config) changes)))))"

definition snapshot :: "monitor \<Rightarrow> connection_state list" where
  "snapshot m = map snd (mo_states m)"

definition state_for :: "monitor \<Rightarrow> string \<Rightarrow> connection_state option" where
  "state_for m i = map_of (mo_states m) i"

end
