(* ===== verification/Priming.thy ===== *)
theory Priming
  imports Monitor
begin

text \<open>
  What the monitor keeps: the number of starts it queues for a connection is bounded, a refusal ends
  them, and a client that follows the events has the monitor's states.
\<close>

subsection \<open>What an operation leaves alone\<close>

definition primes :: "string \<Rightarrow> effect \<Rightarrow> bool" where
  "primes i e = (case e of Primed j _ \<Rightarrow> j = i | _ \<Rightarrow> False)"

definition primed_count :: "string \<Rightarrow> trace \<Rightarrow> nat" where
  "primed_count i tr = length (filter (primes i) tr)"

lemma primes_simps [simp]:
  "\<not> primes i (Ran argv)" "\<not> primes i (Declining j why w)" "\<not> primes i (Connection_removed j)"
  "\<not> primes i (State_changed p)" "primes i (Primed j u) \<longleftrightarrow> j = i"
  by (simp_all add: primes_def)

lemma primed_count_simps [simp]:
  "primed_count i [] = 0"
  "primed_count i (tr @ tr') = primed_count i tr + primed_count i tr'"
  "primed_count i (e # tr) = (if primes i e then 1 else 0) + primed_count i tr"
  by (simp_all add: primed_count_def)

text \<open>What decides whether connection \<open>i\<close> is started again.\<close>

definition memory :: "string \<Rightarrow> monitor \<times> trace \<Rightarrow> aim option \<times> (aim \<times> nat) option \<times> nat" where
  "memory i s = (map_of (mo_primed (fst s)) i, map_of (mo_attempted (fst s)) i, primed_count i (snd s))"

lemma memory_forget [simp]: "j \<noteq> i \<Longrightarrow> memory i (forget j m, tr) = memory i (m, tr)"
  by (simp add: memory_def forget_def)

lemma memory_latch [simp]: "j \<noteq> i \<Longrightarrow> memory i (latch j t b m, tr) = memory i (m, tr)"
  by (simp add: memory_def latch_def)

lemma memory_declining [simp]: "memory i (declining j why w s) = memory i s"
  by (cases s) (simp add: memory_def declining_def)

lemma journal_trace:
  "snd (journal_cause_of env u tr) = tr @ [Ran (journal_argv u)]"
  by (simp add: journal_cause_of_def monitor_exec_def split: sum.split)

lemma start_trace: "snd (start (monitor_exec env) b u tr) = tr @ [Ran (start_argv b u)]"
  by (simp add: start_def require_ok_def monitor_exec_def)

lemma show_trace: "snd (show_unit (monitor_exec env) u tr) = tr @ [Ran (show_argv u)]"
  by (simp add: show_unit_def monitor_exec_def)

lemma state_of_trace:
  "\<exists>argvs. snd (state_of env servers c tr) = tr @ map Ran argvs"
proof -
  obtain answer where show_eq: "show_unit (monitor_exec env) (mount_name c) tr
      = (answer, tr @ map Ran [show_argv (mount_name c)])"
    using show_trace [of env "mount_name c" tr]
    by (cases "show_unit (monitor_exec env) (mount_name c) tr") simp
  obtain cause where journal_eq: "journal_cause_of env (mount_name c) (tr @ map Ran [show_argv (mount_name c)])
      = (cause, tr @ map Ran [show_argv (mount_name c), journal_argv (mount_name c)])"
    using journal_trace [of env "mount_name c" "tr @ map Ran [show_argv (mount_name c)]"]
    by (cases "journal_cause_of env (mount_name c) (tr @ map Ran [show_argv (mount_name c)])") simp
  show ?thesis
    unfolding state_of_def Let_def show_eq prod.case journal_eq
    by (rule exI [of _ "if (case (case answer of Inl _ \<Rightarrow> None | Inr u \<Rightarrow> Some u) of None \<Rightarrow> False | Some u \<Rightarrow> unit_failed u)
        \<and> is_mounted (env_mountinfo env tr) (text_of c ''mountpoint'') \<noteq> Some True
      then [show_argv (mount_name c), journal_argv (mount_name c)] else [show_argv (mount_name c)]"])
      simp
qed

lemma primed_count_ran [simp]: "primed_count i (map Ran argvs) = 0"
  by (induction argvs) simp_all

lemma memory_state_of: "memory i (m, snd (state_of env servers c tr)) = memory i (m, tr)"
  using state_of_trace [of env servers c tr] by (auto simp: memory_def)

lemma memory_queue_start_other:
  "conn_id c \<noteq> i \<Longrightarrow> memory i (queue_start env c (m, tr)) = memory i (m, tr)"
  using start_trace [of env False "mount_name c" tr]
  by (cases "start (monitor_exec env) False (mount_name c) tr")
    (auto simp: queue_start_def memory_def declining_def split: sum.split)

lemma memory_prime_again_other:
  assumes "conn_id c \<noteq> i"
  shows "memory i (prime_again env c (m, tr)) = memory i (m, tr)"
proof -
  obtain cause tr' where j: "journal_cause_of env (mount_name c) tr = (cause, tr')" by fastforce
  have "tr' = tr @ [Ran (journal_argv (mount_name c))]"
    using journal_trace [of env "mount_name c" tr] j by simp
  then have "memory i (m, tr') = memory i (m, tr)" by (simp add: memory_def)
  then show ?thesis using assms j
    by (auto simp: prime_again_def memory_queue_start_other latch_declining_def split: option.split)
qed

lemma memory_maybe_prime_other:
  "conn_id c \<noteq> i \<Longrightarrow> memory i (maybe_prime env c st (m, tr)) = memory i (m, tr)"
  by (simp add: maybe_prime_def Let_def prime_connected_def memory_prime_again_other)

lemma memory_drop_gone: "i \<notin> set js \<Longrightarrow> memory i (drop_gone js s) = memory i s"
proof (induction js s rule: drop_gone.induct)
  case (2 j js m tr)
  then show ?case by (simp add: memory_def forget_def)
qed simp

subsection \<open>A law of one connection's priming\<close>

definition named_connections :: "obj \<Rightarrow> bool" where
  "named_connections config =
     (distinct (map conn_id (records config ''connections''))
      \<and> (\<forall>c \<in> set (records config ''connections''). get c ''id'' = JStr (conn_id c)))"

text \<open>The runs in which connection \<open>c\<close> stays configured as it is: polls of any such document in any
  world, a document that does not load, and other connections being forgotten.\<close>

inductive monitor_step :: "obj \<Rightarrow> monitor \<times> trace \<Rightarrow> monitor \<times> trace \<Rightarrow> bool" for c where
  polled: "c \<in> set (records config ''connections'') \<Longrightarrow> named_connections config \<Longrightarrow>
     snd (poll env (Inr config) s) = s' \<Longrightarrow> monitor_step c s s'"
| unloadable: "snd (poll env (Inl e) s) = s' \<Longrightarrow> monitor_step c s s'"
| forgot: "i \<noteq> conn_id c \<Longrightarrow> monitor_step c (m, tr) (forget i m, tr)"

lemma state_of_id: "cs_id (fst (state_of env servers c tr)) = py_str (get c ''id'')"
  unfolding state_of_def Let_def by (simp split: prod.split sum.split)

definition after_prime :: "env \<Rightarrow> (string \<times> bool) list option \<Rightarrow> obj \<Rightarrow> monitor \<times> trace \<Rightarrow> monitor \<times> trace" where
  "after_prime env servers c s =
     (if mo_prime (fst s)
      then maybe_prime env c (fst (state_of env servers c (snd s))) (fst s, snd (state_of env servers c (snd s)))
      else (fst s, snd (state_of env servers c (snd s))))"

definition change_of :: "monitor \<Rightarrow> connection_state \<Rightarrow> change list" where
  "change_of m st =
     (case map_of (mo_states m) (cs_id st) of
        None \<Rightarrow> [(None, st)]
      | Some p \<Rightarrow> if differs p st then [(Some p, st)] else [])"

lemma poll_cons:
  "poll_connections env servers (c # cs) s =
     (let r = poll_connections env servers cs (after_prime env servers c s);
          st = fst (state_of env servers c (snd s))
      in (st # fst r, change_of (fst (after_prime env servers c s)) st @ fst (snd r), snd (snd r)))"
  by (cases s) (simp add: Let_def case_prod_beta after_prime_def change_of_def)

lemma poll_nil: "poll_connections env servers [] s = ([], [], s)"
  by (cases s) simp

lemmas poll_simps = poll_nil poll_cons Let_def fst_conv snd_conv

lemma poll_ids:
  "map cs_id (fst (poll_connections env servers cs s)) = map (\<lambda>c. py_str (get c ''id'')) cs"
  by (induction cs arbitrary: s) (simp_all only: poll_simps list.map state_of_id)

lemma states_fold_keys:
  "fst ` set (fold (\<lambda>st d. AList.update (cs_id st) st d) sts d) = fst ` set d \<union> cs_id ` set sts"
  by (induction sts arbitrary: d) (auto simp: keys_update)

lemma states_dict_keys: "fst ` set (states_dict sts) = cs_id ` set sts"
  by (simp add: states_dict_def states_fold_keys)

lemma named_ids:
  "named_connections config \<Longrightarrow> map (\<lambda>c. py_str (get c ''id'')) (records config ''connections'')
     = map conn_id (records config ''connections'')"
  by (simp add: named_connections_def)

lemma not_gone:
  assumes "c \<in> set (records config ''connections'')" and "named_connections config"
  shows "conn_id c \<notin> set (gone_ids old (states_dict (fst (poll_connections env servers (records config ''connections'') s))))"
proof -
  let ?sts = "fst (poll_connections env servers (records config ''connections'') s)"
  have "map cs_id ?sts = map conn_id (records config ''connections'')"
    by (simp add: poll_ids named_ids [OF assms(2)])
  then have "cs_id ` set ?sts = conn_id ` set (records config ''connections'')"
    by (metis list.set_map)
  then show ?thesis using assms(1) by (simp add: gone_ids_def states_dict_keys)
qed

lemma primed_count_emitted [simp]: "primed_count i (map (emitted config) changes) = 0"
  by (induction changes) (simp_all add: emitted_def case_prod_beta)

lemma poll_outcome:
  "snd (poll env (Inr config) s) =
    (let r = poll_connections env (cifs_server_states (env_debug_data env)) (records config ''connections'') s;
         m = fst (snd (snd r)); tr = snd (snd (snd r)); current = states_dict (fst r)
     in drop_gone (gone_ids (mo_states m) current)
          (m\<lparr>mo_states := current\<rparr>, tr @ map (emitted config) (fst (snd r))))"
  by (simp add: poll_def Let_def case_prod_beta)

locale priming_law =
  fixes c :: obj
    and Q :: "aim option \<times> (aim \<times> nat) option \<times> nat \<Rightarrow> bool"
  assumes law: "Q (memory (conn_id c) (m, tr)) \<Longrightarrow> Q (memory (conn_id c) (maybe_prime env c st (m, tr)))"
begin

lemma connections_law:
  assumes "\<forall>c' \<in> set cs. conn_id c' = conn_id c \<longrightarrow> c' = c" and "Q (memory (conn_id c) s)"
  shows "Q (memory (conn_id c) (snd (snd (poll_connections env servers cs s))))"
  using assms
proof (induction cs arbitrary: s)
  case (Cons d ds)
  let ?r = "state_of env servers d (snd s)"
  have "Q (memory (conn_id c) (fst s, snd ?r))"
    using memory_state_of [of "conn_id c" "fst s" env servers d "snd s"] Cons.prems(2) by simp
  then have "Q (memory (conn_id c) (after_prime env servers d s))"
    using law Cons.prems(1) unfolding after_prime_def
    by (cases "conn_id d = conn_id c") (simp_all add: memory_maybe_prime_other)
  with Cons.IH Cons.prems(1) show ?case by (simp add: poll_cons Let_def)
qed (simp add: poll_nil)

lemma step_law:
  assumes "monitor_step c s s'" and "Q (memory (conn_id c) s)"
  shows "Q (memory (conn_id c) s')"
  using assms
proof (induction rule: monitor_step.induct)
  case (polled config env s s')
  let ?cs = "records config ''connections''"
  have "\<forall>c' \<in> set ?cs. conn_id c' = conn_id c \<longrightarrow> c' = c"
    using polled(1,2) by (auto simp: named_connections_def distinct_map dest: inj_onD)
  from connections_law [OF this polled(4)]
  have "Q (memory (conn_id c) (snd (snd (poll_connections env (cifs_server_states (env_debug_data env)) ?cs s))))" .
  then show ?case
    unfolding polled(3) [symmetric] poll_outcome Let_def
    by (subst memory_drop_gone [OF not_gone [OF polled(1,2)]]) (simp add: memory_def)
next
  case (unloadable env e s s')
  then show ?case by (simp add: poll_def)
qed simp

end

sublocale priming_law \<subseteq> step_system "\<lambda>s. Q (memory (conn_id c) s)" "monitor_step c"
  "\<lambda>s. Q (memory (conn_id c) s)"
  by unfold_locales (assumption, rule step_law)

subsection \<open>The number of starts\<close>

text \<open>A start is counted in \<open>attempted\<close> until the latch is set, and there are never more than three.\<close>

definition starts_left :: "aim \<Rightarrow> aim option \<times> (aim \<times> nat) option \<times> nat \<Rightarrow> bool" where
  "starts_left t = (\<lambda>(primed, attempted, n).
     n \<le> PRIME_ATTEMPTS
     \<and> (primed = Some t \<or> n = (case attempted of None \<Rightarrow> 0 | Some (t', k) \<Rightarrow> if t' = t then k else 0)))"

definition latched_with :: "aim \<Rightarrow> nat \<Rightarrow> aim option \<times> (aim \<times> nat) option \<times> nat \<Rightarrow> bool" where
  "latched_with t k = (\<lambda>(primed, attempted, n). primed = Some t \<and> n = k)"

lemma memory_journal:
  "journal_cause_of env u tr = (cause, tr') \<Longrightarrow> memory i (m, tr') = memory i (m, tr)"
  using journal_trace [of env u tr] by (simp add: memory_def)

lemma memory_latch_own:
  "memory (conn_id c) (latch (conn_id c) t b m, tr) = (Some t, None, primed_count (conn_id c) tr)"
  by (simp add: memory_def latch_def)

lemma memory_queue_start:
  "memory (conn_id c) (queue_start env c (m, tr)) = memory (conn_id c) (m, tr)
   \<or> memory (conn_id c) (queue_start env c (m, tr)) =
      (map_of (mo_primed m) (conn_id c), Some (mount_target c, queued c m + 1), primed_count (conn_id c) tr + 1)"
  using start_trace [of env False "mount_name c" tr]
  by (cases "start (monitor_exec env) False (mount_name c) tr")
    (auto simp: queue_start_def memory_def declining_def split: sum.split)

lemma memory_latch_declining:
  "memory (conn_id c) (latch_declining c b (m, tr)) = (Some (mount_target c), None, primed_count (conn_id c) tr)"
  by (simp add: latch_declining_def memory_latch_own)

lemma memory_parts:
  "memory i (m, tr) = (map_of (mo_primed m) i, map_of (mo_attempted m) i, primed_count i tr)"
  by (simp add: memory_def)

lemma starts_left_count: "starts_left t (memory i (m, tr)) \<Longrightarrow> primed_count i tr \<le> PRIME_ATTEMPTS"
  by (simp add: starts_left_def memory_parts)

lemma starts_left_latched: "n \<le> PRIME_ATTEMPTS \<Longrightarrow> starts_left t (Some t, a, n)"
  by (simp add: starts_left_def)

lemma queue_start_budget:
  assumes "starts_left (mount_target c) (memory (conn_id c) (m, tr))"
    and "map_of (mo_primed m) (conn_id c) \<noteq> Some (mount_target c)" and "queued c m < PRIME_ATTEMPTS"
  shows "starts_left (mount_target c) (memory (conn_id c) (queue_start env c (m, tr)))"
proof -
  have "primed_count (conn_id c) tr = queued c m"
    using assms(1,2) by (simp add: starts_left_def memory_parts queued_def)
  then have "starts_left (mount_target c) (map_of (mo_primed m) (conn_id c),
      Some (mount_target c, queued c m + 1), primed_count (conn_id c) tr + 1)"
    using assms(3) by (simp add: starts_left_def)
  then show ?thesis using memory_queue_start [of c env m tr] assms(1) by metis
qed

lemma prime_again_cases:
  assumes "journal_cause_of env (mount_name c) tr = (cause, tr')"
  shows "prime_again env c (m, tr) = queue_start env c (m, tr) \<and> queued c m = 0
   \<or> prime_again env c (m, tr) = queue_start env c (m, tr') \<and> queued c m < PRIME_ATTEMPTS
   \<or> (\<exists>b. prime_again env c (m, tr) = latch_declining c b (m, tr'))"
  using assms by (auto simp: prime_again_def split: option.split)

lemma prime_again_budget:
  assumes "starts_left (mount_target c) (memory (conn_id c) (m, tr))"
    and "map_of (mo_primed m) (conn_id c) \<noteq> Some (mount_target c)"
  shows "starts_left (mount_target c) (memory (conn_id c) (prime_again env c (m, tr)))"
proof -
  obtain cause tr' where j: "journal_cause_of env (mount_name c) tr = (cause, tr')" by fastforce
  have left: "starts_left (mount_target c) (memory (conn_id c) (m, tr'))"
    using assms(1) by (simp add: memory_journal [OF j])
  have "0 < PRIME_ATTEMPTS" by (simp add: PRIME_ATTEMPTS_def)
  with prime_again_cases [OF j, of m] show ?thesis
    using queue_start_budget [OF assms] queue_start_budget [OF left assms(2)]
      memory_latch_declining [of c _ m tr'] starts_left_latched [OF starts_left_count [OF left]]
    by (metis)
qed

lemma memory_prime_connected:
  "memory (conn_id c) (prime_connected c (m, tr)) = (Some (mount_target c), None, primed_count (conn_id c) tr)"
  by (simp add: prime_connected_def Let_def memory_latch_own)

lemma memory_maybe_prime:
  "memory (conn_id c) (maybe_prime env c st (m, tr))
     = (Some (mount_target c), None, primed_count (conn_id c) tr)
   \<or> memory (conn_id c) (maybe_prime env c st (m, tr)) = memory (conn_id c) (m, tr)
   \<or> maybe_prime env c st (m, tr) = prime_again env c (m, tr)
     \<and> map_of (mo_primed m) (conn_id c) \<noteq> Some (mount_target c)"
  by (simp add: maybe_prime_def Let_def memory_prime_connected)

interpretation budget: priming_law c "starts_left (mount_target c)" for c
proof
  fix m tr env st
  assume left: "starts_left (mount_target c) (memory (conn_id c) (m, tr))"
  from memory_maybe_prime [of c env st m tr]
  show "starts_left (mount_target c) (memory (conn_id c) (maybe_prime env c st (m, tr)))"
    using left starts_left_latched [OF starts_left_count [OF left]] prime_again_budget [OF left] by metis
qed

interpretation spent: priming_law c "latched_with (mount_target c) k" for c k
proof
  fix m tr env st
  assume latched: "latched_with (mount_target c) k (memory (conn_id c) (m, tr))"
  then have "map_of (mo_primed m) (conn_id c) = Some (mount_target c)" "primed_count (conn_id c) tr = k"
    by (simp_all add: latched_with_def memory_parts)
  with memory_maybe_prime [of c env st m tr] latched
  show "latched_with (mount_target c) k (memory (conn_id c) (maybe_prime env c st (m, tr)))"
    by (auto simp: latched_with_def)
qed

subsection \<open>A poll of one armed, idle connection\<close>

definition example_connection_doc :: obj where
  "example_connection_doc = [(''type'', JStr ''os''), (''id'', JStr ''nas''), (''host'', JStr ''nas.local''),
     (''share'', JStr ''Media''), (''mountpoint'', JStr ''/mnt/nas'')]"

definition example_config :: obj where
  "example_config = [(''version'', JInt 1), (''connections'', JList [JObj example_connection_doc])]"

definition example_journal :: string where
  "example_journal = ''mount error(13): Permission denied'' @ [lf]"

definition example_env :: env where
  "example_env =
     \<lparr>env_answer = (\<lambda>tr argv. Inr \<lparr>cr_returncode = 0,
        cr_stdout = (if hd argv = ''journalctl'' then example_journal
                     else if argv ! 1 = ''show'' then ''ActiveState=inactive'' @ [lf] @ ''Result=success'' @ [lf]
                     else []), cr_stderr = []\<rparr>),
      env_mountinfo = (\<lambda>_. Some (''33 29 0:30 / /mnt/nas rw,relatime shared:16 - autofs systemd-1 rw'' @ [lf])),
      env_debug_data = None,
      env_reachable = (\<lambda>_ host. Some True)\<rparr>"

definition example_poll :: "monitor \<times> trace" where
  "example_poll = snd (poll example_env (Inr example_config) (monitor_init True, []))"

lemma example_config_named: "named_connections example_config"
  by code_simp

lemma example_poll_facts:
  "case example_poll of (m, tr) \<Rightarrow>
     queued example_connection_doc m = 1 \<and> primed_count ''nas'' tr = 1 \<and> mo_states m \<noteq> []
     \<and> map_option cause_retryable
           (fst (journal_cause_of example_env (mount_name example_connection_doc) tr)) = Some False"
  by code_simp

lemma example_id: "conn_id example_connection_doc = ''nas''"
  by (simp add: conn_id_def text_of_def example_connection_doc_def)

lemma example_step: "monitor_step example_connection_doc (monitor_init True, []) example_poll"
  unfolding example_poll_def
  by (rule monitor_step.polled [OF _ example_config_named refl])
    (simp add: example_config_def records_def items_def)

subsection \<open>Properties\<close>

text \<open>C7: however long the daemon runs and whatever the machine does, at most three starts are queued for
  a connection that stays configured as it is.\<close>

theorem at_most_three_starts:
  assumes "(monitor_step c)\<^sup>*\<^sup>* (monitor_init prime, []) (m, tr)"
  shows "primed_count (conn_id c) tr \<le> PRIME_ATTEMPTS"
proof -
  have "starts_left (mount_target c) (memory (conn_id c) (monitor_init prime, []))"
    by (simp add: starts_left_def memory_parts monitor_init_def)
  from budget.inv_reachable [OF this assms] show ?thesis by (rule starts_left_count)
qed

theorem at_most_three_starts_witness:
  "primed_count ''nas'' (snd example_poll) = 1 \<and> primed_count ''nas'' (snd example_poll) \<le> PRIME_ATTEMPTS"
proof -
  have "(monitor_step example_connection_doc)\<^sup>*\<^sup>* (monitor_init True, []) (fst example_poll, snd example_poll)"
    using example_step by (auto intro: r_into_rtranclp)
  from at_most_three_starts [OF this] have "primed_count ''nas'' (snd example_poll) \<le> PRIME_ATTEMPTS"
    unfolding example_id .
  moreover have "primed_count ''nas'' (snd example_poll) = 1"
    using example_poll_facts by (simp add: case_prod_beta)
  ultimately show ?thesis by blast
qed

text \<open>Once a queued start was refused, that is the journal gives a cause that is not retryable, the
  poll that finds it so queues none, and neither does any later one.\<close>

theorem refusal_ends_starts:
  assumes "0 < queued c m" and "fst (journal_cause_of env (mount_name c) tr) = Some why" and "\<not> cause_retryable why"
    and "cs_state st = Idle" and "auto_connect_of c = JStr ''on_this_network'' \<longrightarrow> env_reachable env tr (text_of c ''host'') = Some True"
    and "auto_connect_of c \<noteq> JStr ''never''"
    and "(monitor_step c)\<^sup>*\<^sup>* (maybe_prime env c st (m, tr)) (m', tr')"
  shows "primed_count (conn_id c) tr' = primed_count (conn_id c) tr"
proof -
  let ?s = "maybe_prime env c st (m, tr)"
  have "latched_with (mount_target c) (primed_count (conn_id c) tr) (memory (conn_id c) ?s)"
  proof (cases "map_of (mo_primed m) (conn_id c) = Some (mount_target c)")
    case True
    then show ?thesis using assms(4)
      by (simp add: maybe_prime_def Let_def latched_with_def memory_parts)
  next
    case False
    obtain tr1 where j: "journal_cause_of env (mount_name c) tr = (Some why, tr1)"
      using assms(2) by (cases "journal_cause_of env (mount_name c) tr") simp
    have "?s = prime_again env c (m, tr)" using assms(4,5,6) False by (auto simp: maybe_prime_def Let_def)
    also have "\<dots> = latch_declining c (Mount_refused (cause_message why)) (m, tr1)"
      using assms(1,3) j by (simp add: prime_again_def)
    finally show ?thesis
      using memory_journal [OF j, of "conn_id c" m] by (simp add: latched_with_def memory_latch_declining memory_parts)
  qed
  from spent.inv_reachable [OF this assms(7)] show ?thesis by (simp add: latched_with_def memory_parts)
qed

definition idle_state :: connection_state where
  "idle_state = plain_state ''nas'' Idle Ready"

theorem refusal_ends_starts_witness:
  "primed_count ''nas'' (snd (maybe_prime example_env example_connection_doc idle_state example_poll)) = 1"
proof -
  let ?c = example_connection_doc and ?m = "fst example_poll" and ?tr = "snd example_poll"
  let ?s = "maybe_prime example_env ?c idle_state (?m, ?tr)"
  have auto: "auto_connect_of ?c = JStr ''on_this_network''"
    by (simp add: auto_connect_of_def example_connection_doc_def get_def)
  have m: "queued ?c ?m = 1" "primed_count ''nas'' ?tr = 1" and
    j: "map_option cause_retryable (fst (journal_cause_of example_env (mount_name ?c) ?tr)) = Some False"
    using example_poll_facts by (simp_all add: case_prod_beta)
  from j obtain why where why: "fst (journal_cause_of example_env (mount_name ?c) ?tr) = Some why" "\<not> cause_retryable why"
    by auto
  have "primed_count (conn_id ?c) (snd ?s) = primed_count (conn_id ?c) ?tr"
    by (rule refusal_ends_starts [of ?c ?m example_env ?tr why idle_state "fst ?s" "snd ?s"])
      (use why in \<open>simp_all add: m auto idle_state_def plain_state_def example_env_def\<close>)
  then show ?thesis by (simp add: example_id m)
qed

text \<open>The reason a connection is not primed is meant to be logged once. For a connection that is already
  mounted the latch clears what was last logged, so the line is written at every poll.\<close>

lemma mounted_is_logged_every_poll:
  assumes "cs_state st = Connected" and "map_of (mo_attempted m) (conn_id c) = None"
  shows "\<exists>m'. maybe_prime env c st (m, tr) = (m', tr @ [Declining (conn_id c) Already_mounted False])
     \<and> map_of (mo_attempted m') (conn_id c) = None"
  using assms by (simp add: maybe_prime_def Let_def prime_connected_def declining_def latch_def)

end
