(* ===== verification/Pushed.thy ===== *)
theory Pushed
  imports Priming
begin

text \<open>
  The events of the monitor against its states: a client that starts with nothing and applies every
  \<open>state.changed\<close> and \<open>connection.removed\<close> has, for every connection, the state and the message the
  monitor has. Also the thread's wake-up protocol (\<open>_loop\<close>, \<open>nudge\<close>, \<open>stop\<close>).
\<close>

subsection \<open>The client's view\<close>

type_synonym view = "string \<Rightarrow> (conn_state \<times> state_text) option"

definition see :: "effect \<Rightarrow> view \<Rightarrow> view" where
  "see e v =
     (case e of
        State_changed p \<Rightarrow> v(ws_id (pl_state p) \<mapsto> (ws_state (pl_state p), ws_message (pl_state p)))
      | Connection_removed i \<Rightarrow> v(i := None)
      | _ \<Rightarrow> v)"

definition client_view :: "trace \<Rightarrow> view" where
  "client_view tr = fold see tr (\<lambda>_. None)"

definition shown_state :: "connection_state \<Rightarrow> conn_state \<times> state_text" where
  "shown_state st = (cs_state st, cs_message st)"

definition monitor_view :: "(string \<times> connection_state) list \<Rightarrow> view" where
  "monitor_view d i = map_option shown_state (map_of d i)"

lemma see_simps [simp]:
  "see (Ran argv) v = v" "see (Primed j u) v = v" "see (Declining j why w) v = v"
  "see (Connection_removed j) v = v(j := None)"
  by (simp_all add: see_def)

lemma client_view_append [simp]:
  "client_view (tr @ tr') = fold see tr' (client_view tr)"
  by (simp add: client_view_def)

text \<open>What clients and the next poll see of the monitor, which priming does not touch.\<close>

definition outside :: "monitor \<times> trace \<Rightarrow> (string \<times> connection_state) list \<times> view" where
  "outside s = (mo_states (fst s), client_view (snd s))"

lemma fold_see_ran [simp]: "fold see (map Ran argvs) v = v"
  by (induction argvs arbitrary: v) simp_all

lemma outside_declining [simp]: "outside (declining i why w s) = outside s"
  by (cases s) (simp add: outside_def declining_def)

lemma outside_latch [simp]: "outside (latch i t b m, tr) = outside (m, tr)"
  by (simp add: outside_def latch_def)

lemma outside_journal: "journal_cause_of env u tr = (cause, tr') \<Longrightarrow> outside (m, tr') = outside (m, tr)"
  using journal_trace [of env u tr] by (simp add: outside_def)

lemma outside_queue_start [simp]: "outside (queue_start env c (m, tr)) = outside (m, tr)"
  using start_trace [of env False "mount_name c" tr]
  by (cases "start (monitor_exec env) False (mount_name c) tr")
    (auto simp: queue_start_def outside_def declining_def split: sum.split)

lemma outside_prime_again [simp]: "outside (prime_again env c (m, tr)) = outside (m, tr)"
proof -
  obtain cause tr' where j: "journal_cause_of env (mount_name c) tr = (cause, tr')" by fastforce
  show ?thesis using prime_again_cases [OF j, of m] outside_journal [OF j, of m]
    by (auto simp: latch_declining_def)
qed

lemma outside_maybe_prime [simp]: "outside (maybe_prime env c st (m, tr)) = outside (m, tr)"
  by (simp add: maybe_prime_def Let_def prime_connected_def)

lemma outside_after_prime: "outside (after_prime env servers c s) = outside s"
proof -
  have "outside (fst s, snd (state_of env servers c (snd s))) = outside s"
    using state_of_trace [of env servers c "snd s"] by (auto simp: outside_def)
  then show ?thesis by (simp add: after_prime_def)
qed

definition changes_of :: "(string \<times> connection_state) list \<Rightarrow> connection_state list \<Rightarrow> change list" where
  "changes_of old sts = concat (map (\<lambda>st. case map_of old (cs_id st) of
       None \<Rightarrow> [(None, st)] | Some p \<Rightarrow> if differs p st then [(Some p, st)] else []) sts)"

lemma poll_outside:
  "outside (snd (snd (poll_connections env servers cs s))) = outside s
   \<and> fst (snd (poll_connections env servers cs s)) = changes_of (mo_states (fst s)) (fst (poll_connections env servers cs s))"
proof (induction cs arbitrary: s)
  case (Cons c cs)
  have "mo_states (fst (after_prime env servers c s)) = mo_states (fst s)"
    using outside_after_prime [of env servers c s] by (simp add: outside_def)
  with Cons [of "after_prime env servers c s"] show ?case
    by (simp add: poll_cons Let_def outside_after_prime changes_of_def change_of_def)
qed (simp add: poll_nil changes_of_def)

lemma see_emitted: "see (emitted config (p, st)) v = v(cs_id st \<mapsto> shown_state st)"
  by (simp add: see_def emitted_def state_to_wire_def shown_state_def)

lemma fold_see_changes:
  assumes "distinct (map cs_id sts)" and "\<forall>st \<in> set sts. v (cs_id st) = monitor_view old (cs_id st)"
  shows "fold see (map (emitted config) (changes_of old sts)) v
    = v ++ map_of (map (\<lambda>st. (cs_id st, shown_state st)) sts)"
  using assms
proof (induction sts arbitrary: v)
  case (Cons st sts)
  let ?here = "case map_of old (cs_id st) of
       None \<Rightarrow> [(None, st)] | Some p \<Rightarrow> if differs p st then [(Some p, st)] else []"
  let ?v = "v(cs_id st \<mapsto> shown_state st)"
  have "fold see (map (emitted config) ?here) v = ?v"
    using Cons.prems(2)
    by (auto simp: see_emitted monitor_view_def differs_def shown_state_def fun_upd_idem_iff split: option.split)
  moreover have "\<forall>st' \<in> set sts. ?v (cs_id st') = monitor_view old (cs_id st')"
    using Cons.prems by (auto, metis image_eqI)
  moreover have "changes_of old (st # sts) = ?here @ changes_of old sts" by (simp add: changes_of_def)
  ultimately have "fold see (map (emitted config) (changes_of old (st # sts))) v
      = ?v ++ map_of (map (\<lambda>st. (cs_id st, shown_state st)) sts)"
    using Cons.IH [of ?v] Cons.prems(1) by (simp del: fun_upd_apply)
  moreover have "cs_id st \<notin> dom (map_of (map (\<lambda>st. (cs_id st, shown_state st)) sts))"
    using Cons.prems(1) by (simp add: dom_map_of_conv_image_fst image_image)
  ultimately show ?case
    by (simp only: list.map map_of.simps fst_conv snd_conv map_add_upd map_add_upd_left not_False_eq_True)
qed (simp add: changes_of_def)

lemma states_fold_append:
  "distinct (map cs_id sts) \<Longrightarrow> cs_id ` set sts \<inter> fst ` set d = {} \<Longrightarrow>
   fold (\<lambda>st d. AList.update (cs_id st) st d) sts d = d @ map (\<lambda>st. (cs_id st, st)) sts"
  by (induction sts arbitrary: d) (auto simp: update_append)

lemma states_dict_distinct:
  "distinct (map cs_id sts) \<Longrightarrow> states_dict sts = map (\<lambda>st. (cs_id st, st)) sts"
  by (simp add: states_dict_def states_fold_append)

lemma drop_gone_outside:
  "outside (drop_gone gone s) = (mo_states (fst s), (\<lambda>i. if i \<in> set gone then None else client_view (snd s) i))"
proof (induction gone s rule: drop_gone.induct)
  case (2 i gone m tr)
  then show ?case by (auto simp: outside_def forget_def)
qed (simp add: outside_def)

lemma monitor_view_map:
  "map_of (map (\<lambda>st. (cs_id st, shown_state st)) sts) i = monitor_view (map (\<lambda>st. (cs_id st, st)) sts) i"
  by (induction sts) (simp_all add: monitor_view_def)

lemma poll_view:
  assumes "named_connections config" and "client_view (snd s) = monitor_view (mo_states (fst s))"
    and "snd (poll env (Inr config) s) = s'"
  shows "client_view (snd s') = monitor_view (mo_states (fst s'))"
proof -
  define r where "r = poll_connections env (cifs_server_states (env_debug_data env)) (records config ''connections'') s"
  let ?sts = "fst r" and ?old = "mo_states (fst s)"
  let ?new = "map (\<lambda>st. (cs_id st, st)) ?sts"
  have ids: "distinct (map cs_id ?sts)"
    using assms(1) unfolding r_def poll_ids named_ids [OF assms(1)] by (simp add: named_connections_def)
  have out: "mo_states (fst (snd (snd r))) = ?old" "client_view (snd (snd (snd r))) = monitor_view ?old"
      "fst (snd r) = changes_of ?old ?sts"
    using poll_outside [of env "cifs_server_states (env_debug_data env)" "records config ''connections''" s] assms(2)
    by (simp_all add: r_def outside_def)
  have "outside s' = (?new, \<lambda>i. if i \<in> set (gone_ids ?old ?new) then None
      else (monitor_view ?old ++ map_of (map (\<lambda>st. (cs_id st, shown_state st)) ?sts)) i)"
    using assms(3) fold_see_changes [OF ids, of "monitor_view ?old" ?old config]
    by (auto simp: poll_outcome Let_def r_def [symmetric] out states_dict_distinct [OF ids] drop_gone_outside
        cong: if_cong)
  moreover have "(if i \<in> set (gone_ids ?old ?new) then None
      else (monitor_view ?old ++ map_of (map (\<lambda>st. (cs_id st, shown_state st)) ?sts)) i) = monitor_view ?new i" for i
  proof -
    have "map_of (map (\<lambda>st. (cs_id st, shown_state st)) ?sts) i = monitor_view ?new i"
      by (rule monitor_view_map)
    moreover have "monitor_view ?new i = None \<longleftrightarrow> i \<notin> cs_id ` set ?sts"
      by (simp add: monitor_view_def map_of_eq_None_iff image_image)
    moreover have "monitor_view ?old i = None \<longleftrightarrow> i \<notin> fst ` set ?old"
      by (simp add: monitor_view_def map_of_eq_None_iff)
    moreover have "i \<in> set (gone_ids ?old ?new) \<longleftrightarrow> i \<in> fst ` set ?old \<and> i \<notin> cs_id ` set ?sts"
      by (auto simp: gone_ids_def image_image)
    ultimately show ?thesis by (auto simp: map_add_def split: option.split)
  qed
  ultimately show ?thesis by (simp add: outside_def)
qed

inductive any_step :: "monitor \<times> trace \<Rightarrow> monitor \<times> trace \<Rightarrow> bool" where
  poll_ok: "named_connections config \<Longrightarrow> snd (poll env (Inr config) s) = s' \<Longrightarrow> any_step s s'"
| poll_unloadable: "snd (poll env (Inl e) s) = s' \<Longrightarrow> any_step s s'"
| forget_one: "any_step (m, tr) (forget i m, tr)"

interpretation pushed: step_system "\<lambda>s. s = (monitor_init p, [])" any_step
    "\<lambda>s. client_view (snd s) = monitor_view (mo_states (fst s))" for p
proof
  fix s t
  assume "any_step s t" "client_view (snd s) = monitor_view (mo_states (fst s))"
  then show "client_view (snd t) = monitor_view (mo_states (fst t))"
    by (induction rule: any_step.induct) (auto simp: poll_view forget_def, auto simp: poll_def)
qed (simp add: monitor_init_def client_view_def monitor_view_def fun_eq_iff)

subsection \<open>The thread that polls\<close>

text \<open>\<open>_loop\<close> clears the wake flag, polls, and waits until the flag is set or the interval is up;
  \<open>nudge\<close> sets the flag from any thread. \<open>lp_asked\<close> is not in the code: whether a nudge has come
  since the last poll began.\<close>

datatype loop_at = Top | Entered | Cleared | Polling | Waiting | Left

record loop_state =
  lp_at :: loop_at
  lp_wake :: bool
  lp_stop :: bool
  lp_asked :: bool

definition nudge :: "loop_state \<Rightarrow> loop_state" where
  "nudge s = s\<lparr>lp_wake := True, lp_asked := True\<rparr>"

definition stop_loop :: "loop_state \<Rightarrow> loop_state" where
  "stop_loop s = s\<lparr>lp_stop := True, lp_wake := True\<rparr>"

definition loop_step :: "bool \<Rightarrow> loop_state \<Rightarrow> loop_state" where
  "loop_step interval_up s =
     (case lp_at s of
        Top \<Rightarrow> if lp_stop s then s\<lparr>lp_at := Left\<rparr> else s\<lparr>lp_at := Entered\<rparr>
      | Entered \<Rightarrow> s\<lparr>lp_at := Cleared, lp_wake := False\<rparr>
      | Cleared \<Rightarrow> s\<lparr>lp_at := Polling, lp_asked := False\<rparr>
      | Polling \<Rightarrow> s\<lparr>lp_at := Waiting\<rparr>
      | Waiting \<Rightarrow> if lp_wake s \<or> interval_up then s\<lparr>lp_at := Top\<rparr> else s
      | Left \<Rightarrow> s)"

inductive loop_moves :: "loop_state \<Rightarrow> loop_state \<Rightarrow> bool" where
  turn: "loop_moves s (loop_step up s)"
| nudged: "loop_moves s (nudge s)"
| stopped: "loop_moves s (stop_loop s)"

definition loop_init :: loop_state where
  "loop_init = \<lparr>lp_at = Top, lp_wake = False, lp_stop = False, lp_asked = False\<rparr>"

definition heard :: "loop_state \<Rightarrow> bool" where
  "heard s = (lp_asked s \<longrightarrow> lp_wake s \<or> lp_at s = Cleared)"

lemma heard_step: "loop_moves s t \<Longrightarrow> heard s \<Longrightarrow> heard t"
  by (induction rule: loop_moves.induct)
    (auto simp: heard_def loop_step_def nudge_def stop_loop_def split: loop_at.splits)

interpretation wake: step_system "\<lambda>s. s = loop_init" loop_moves heard
  by unfold_locales (simp add: loop_init_def heard_def, rule heard_step)

subsection \<open>Properties\<close>

text \<open>C8: whatever polls, failed loads and forgotten connections there were, a client that applied every
  pushed event has exactly the monitor's state and message of every connection, and nothing about a
  connection the monitor no longer has.\<close>

theorem events_track_states:
  assumes "any_step\<^sup>*\<^sup>* (monitor_init prime, []) (m, tr)"
  shows "client_view tr = monitor_view (mo_states m)"
  using pushed.inv_reachable [OF refl assms] by simp

theorem events_track_states_witness:
  "\<exists>m tr. any_step\<^sup>*\<^sup>* (monitor_init True, []) (m, tr) \<and> mo_states m \<noteq> []
     \<and> client_view tr = monitor_view (mo_states m)"
proof -
  have "any_step\<^sup>*\<^sup>* (monitor_init True, []) (fst example_poll, snd example_poll)"
    using any_step.poll_ok [OF example_config_named refl] by (auto simp: example_poll_def intro: r_into_rtranclp)
  moreover have "mo_states (fst example_poll) \<noteq> []"
    using example_poll_facts by (simp add: case_prod_beta)
  ultimately show ?thesis using events_track_states by blast
qed

text \<open>C9: a nudge is never lost: when the loop waits and a nudge has come since the last poll began, the
  wake flag is set, so the wait ends at once and another poll follows.\<close>

theorem nudge_is_heard:
  assumes "loop_moves\<^sup>*\<^sup>* loop_init s" and "lp_at s = Waiting" and "lp_asked s"
  shows "lp_wake s \<and> lp_at (loop_step False s) = Top"
  using wake.inv_reachable [OF refl assms(1)] assms(2,3) by (simp add: heard_def loop_step_def)

definition nudged_mid_poll :: loop_state where
  "nudged_mid_poll = loop_step False (nudge (loop_step False (loop_step False (loop_step False loop_init))))"

lemma nudged_mid_poll_reachable: "loop_moves\<^sup>*\<^sup>* loop_init nudged_mid_poll"
  unfolding nudged_mid_poll_def
  by (meson loop_moves.intros rtranclp.intros)

theorem nudge_is_heard_witness:
  "lp_at nudged_mid_poll = Waiting \<and> lp_asked nudged_mid_poll \<and> lp_wake nudged_mid_poll"
proof -
  have "lp_at nudged_mid_poll = Waiting" "lp_asked nudged_mid_poll"
    by (simp_all add: nudged_mid_poll_def loop_step_def nudge_def loop_init_def)
  then show ?thesis using nudge_is_heard [OF nudged_mid_poll_reachable] by blast
qed

text \<open>A stop that comes between the loop's test of \<open>_stop\<close> and its clearing of \<open>_wake\<close> is not heard:
  the loop polls once more and waits out the whole interval.\<close>

lemma stop_can_wait_an_interval:
  "\<exists>s. loop_moves\<^sup>*\<^sup>* loop_init s \<and> lp_at s = Waiting \<and> lp_stop s \<and> loop_step False s = s"
proof -
  let ?s = "loop_step False (loop_step False (loop_step False (stop_loop (loop_step False loop_init))))"
  have "loop_moves\<^sup>*\<^sup>* loop_init ?s" by (meson loop_moves.intros rtranclp.intros)
  moreover have "lp_at ?s = Waiting" "lp_stop ?s" "loop_step False ?s = ?s"
    by (simp_all add: loop_step_def stop_loop_def loop_init_def)
  ultimately show ?thesis by blast
qed

end
