(* ===== verification/Volumes.thy ===== *)
theory Volumes
  imports Units Machine
begin

text \<open>
  What identifies a share on macOS: the URL NetFS is given and the statuses it answers with
  (\<^verbatim>\<open>smbpal/mounts/netfs.py\<close>), the source the kernel's mount table shows and the key both are compared
  by (\<^verbatim>\<open>smbpal/mounts/volumes.py\<close>), and the ledger of the mounts SMBPal made
  (\<^verbatim>\<open>smbpal/agent/ledger.py\<close>). \<open>getfsstat\<close>, the kqueue and CoreFoundation are not modelled; the
  mount table is a list of \<open>smb_mount\<close>s.

  \<open>urllib.parse\<close> is modelled for the URLs \<open>smb_url\<close> builds: those that start with \<open>smb://\<close>. Which
  bracketed hosts \<open>urlsplit\<close> accepts depends on the Python release, and is the argument \<open>ip_ok\<close>.
\<close>

subsection \<open>Percent encoding\<close>

definition upper_hex :: "nat \<Rightarrow> char" where
  "upper_hex n = (if n < 10 then char_of (48 + n) else char_of (55 + n))"

definition hex_value :: "char \<Rightarrow> nat option" where
  "hex_value c =
     (let n = code c
      in if 48 \<le> n \<and> n \<le> 57 then Some (n - 48)
         else if 65 \<le> n \<and> n \<le> 70 then Some (n - 55)
         else if 97 \<le> n \<and> n \<le> 102 then Some (n - 87) else None)"

definition unreserved :: "nat \<Rightarrow> bool" where
  "unreserved b = ((65 \<le> b \<and> b \<le> 90) \<or> (97 \<le> b \<and> b \<le> 122) \<or> (48 \<le> b \<and> b \<le> 57)
     \<or> b = 95 \<or> b = 46 \<or> b = 45 \<or> b = 126)"

definition percent :: char where "percent = CHR 0x25"

definition quote_byte :: "nat \<Rightarrow> string" where
  "quote_byte b =
     (if unreserved b then [char_of b] else [percent, upper_hex (b div 16), upper_hex (b mod 16)])"

definition quote_url :: "string \<Rightarrow> string" where
  "quote_url s = concat (map quote_byte (concat (map utf8 s)))"

text \<open>\<open>unquote\<close>. An escape that does not decode to a code point below 256 becomes \<open>unknown_char\<close>.\<close>

definition unknown_char :: char where "unknown_char = CHR 0x1A"

fun escape_at :: "string \<Rightarrow> nat option" where
  "escape_at (c # a # b # s) =
     (if c = percent
      then (case (hex_value a, hex_value b) of (Some x, Some y) \<Rightarrow> Some (16 * x + y) | _ \<Rightarrow> None)
      else None)"
| "escape_at _ = None"

function unquote :: "string \<Rightarrow> string" where
  "unquote [] = []"
| "unquote (c # s) =
     (case escape_at (c # s) of
        None \<Rightarrow> c # unquote s
      | Some b \<Rightarrow>
          if b < 128 then char_of b # unquote (drop 2 s)
          else (case escape_at (drop 2 s) of
                  None \<Rightarrow> unknown_char # unquote (drop 2 s)
                | Some b2 \<Rightarrow>
                    if (b = 194 \<or> b = 195) \<and> 128 \<le> b2 \<and> b2 < 192
                    then char_of ((b - 192) * 64 + (b2 - 128)) # unquote (drop 5 s)
                    else unknown_char # unquote (drop 2 s)))"
  by pat_completeness auto
termination by (relation "measure length") auto

subsection \<open>URLs, sources and keys\<close>

definition smb_url :: "string \<Rightarrow> string \<Rightarrow> string" where
  "smb_url host share =
     (let h = (if CHR '':'' \<in> set host \<and> \<not> prefix ''['' host then ''['' @ host @ '']'' else host)
      in ''smb://'' @ h @ ''/'' @ quote_url share)"

definition mount_key :: "string \<Rightarrow> string \<Rightarrow> string \<times> string" where
  "mount_key host share =
     (py_lower (strip_on (\<lambda>c. c = CHR ''['' \<or> c = CHR '']'') host), py_lower share)"

definition after_last :: "char \<Rightarrow> string \<Rightarrow> string" where
  "after_last d s = rev (takeWhile (\<lambda>c. c \<noteq> d) (rev s))"

definition before :: "char \<Rightarrow> string \<Rightarrow> string" where
  "before d s = takeWhile (\<lambda>c. c \<noteq> d) s"

definition beyond :: "char \<Rightarrow> string \<Rightarrow> string" where
  "beyond d s = tl (dropWhile (\<lambda>c. c \<noteq> d) s)"

text \<open>\<open>SplitResult.hostname\<close>: \<open>None\<close> for the \<open>ValueError\<close> of an unbalanced or refused bracket.\<close>

definition url_hostname :: "(string \<Rightarrow> bool) \<Rightarrow> string \<Rightarrow> string option" where
  "url_hostname ip_ok netloc =
     (let info = after_last (CHR ''@'') netloc;
          opened = CHR ''['' \<in> set netloc; closed = CHR '']'' \<in> set netloc
      in if opened \<noteq> closed then None
         else if CHR ''['' \<in> set info
         then (let h = before (CHR '']'') (beyond (CHR ''['') info)
               in if ip_ok h then Some h else None)
         else Some (before (CHR '':'') info))"

definition key_for_url :: "(string \<Rightarrow> bool) \<Rightarrow> string \<Rightarrow> (string \<times> string) option" where
  "key_for_url ip_ok url =
     (let clean = filter (\<lambda>c. c \<notin> {CHR 0x09, lf, cr}) url
      in if \<not> prefix ''smb://'' clean then None
         else let rest = drop 6 clean;
                  netloc = takeWhile (\<lambda>c. c \<notin> {slash, CHR ''?'', CHR 0x23}) rest;
                  path = takeWhile (\<lambda>c. c \<notin> {CHR ''?'', CHR 0x23}) (drop (length netloc) rest)
              in map_option (\<lambda>host. mount_key host (unquote (before slash (lstrip_on (\<lambda>c. c = slash) path))))
                   (url_hostname ip_ok netloc))"

definition parse_from_name :: "string \<Rightarrow> (string \<times> string) option" where
  "parse_from_name source =
     (if \<not> prefix ''//'' source then None
      else let rest = drop 2 source;
               authority = before slash rest;
               path = beyond slash rest;
               host = after_last (CHR ''@'') authority;
               share = unquote (before slash path)
           in if slash \<notin> set rest \<or> path = [] then None
              else if host = [] \<or> share = [] then None
              else Some (host, share))"

subsection \<open>What NetFS answers\<close>

datatype netfs_text =
    Refused_by_server
  | Wants_password
  | No_such_share
  | No_answer_in_time
  | Connection_refused
  | Switched_off
  | No_route
  | Network_unreachable
  | Already_mounted_text
  | Macos_status int
  | Error_number int

definition netfs_table :: "(string \<times> (conn_state \<times> netfs_text \<times> bool)) list" where
  "netfs_table =
     [(''EAUTH'', (Auth_failed, Refused_by_server, False)),
      (''ENEEDAUTH'', (Auth_failed, Wants_password, False)),
      (''EACCES'', (Auth_failed, Refused_by_server, False)),
      (''ENOENT'', (Failed, No_such_share, False)),
      (''ETIMEDOUT'', (Unreachable, No_answer_in_time, True)),
      (''ECONNREFUSED'', (Unreachable, Connection_refused, True)),
      (''EHOSTDOWN'', (Unreachable, Switched_off, True)),
      (''EHOSTUNREACH'', (Unreachable, No_route, True)),
      (''ENETUNREACH'', (Unreachable, Network_unreachable, True)),
      (''EEXIST'', (Failed, Already_mounted_text, False))]"

text \<open>The table keyed by the platform's numbers: \<open>errno\<close> gives the number of a name, \<open>None\<close> where the
  platform has none.\<close>

definition status_table :: "(string \<Rightarrow> int option) \<Rightarrow> (int \<times> (conn_state \<times> netfs_text \<times> bool)) list" where
  "status_table errno =
     fold (\<lambda>(name, v) m. case errno name of None \<Rightarrow> m | Some n \<Rightarrow> AList.update n v m) netfs_table []"

definition describe_status :: "(string \<Rightarrow> int option) \<Rightarrow> int \<Rightarrow> conn_state \<times> netfs_text \<times> bool" where
  "describe_status errno status =
     (case map_of (status_table errno) status of
        Some known \<Rightarrow> known
      | None \<Rightarrow>
          if status < 0 then (Failed, Macos_status status, True) else (Failed, Error_number status, True))"

subsection \<open>The mounts SMBPal made\<close>

record smb_mount =
  sm_host :: string
  sm_share :: string
  sm_mountpoint :: string
  sm_owner_uid :: int
  sm_fsid :: "int \<times> int"

definition sm_key :: "smb_mount \<Rightarrow> string \<times> string" where
  "sm_key m = mount_key (sm_host m) (sm_share m)"

type_synonym ledger = "obj list"

definition entry_fsid :: "obj \<Rightarrow> (int \<times> int) option" where
  "entry_fsid e =
     (case get e ''fsid'' of JList [JInt a, JInt b] \<Rightarrow> Some (a, b) | _ \<Rightarrow> None)"

definition ledger_entry :: "smb_mount \<Rightarrow> obj" where
  "ledger_entry m =
     [(''host'', JStr (sm_host m)), (''share'', JStr (sm_share m)),
      (''mountpoint'', JStr (sm_mountpoint m)),
      (''fsid'', JList [JInt (fst (sm_fsid m)), JInt (snd (sm_fsid m))])]"

definition ledger_load :: "json res \<Rightarrow> ledger" where
  "ledger_load content =
     (case content of
        Inr (JList vs) \<Rightarrow>
          List.map_filter (\<lambda>v. case v of JObj e \<Rightarrow> if entry_fsid e \<noteq> None then Some e else None | _ \<Rightarrow> None) vs
      | _ \<Rightarrow> [])"

definition ledger_owns :: "smb_mount \<Rightarrow> ledger \<Rightarrow> bool" where
  "ledger_owns m l = list_ex (\<lambda>e. entry_fsid e = Some (sm_fsid m)) l"

definition ledger_prune :: "smb_mount list \<Rightarrow> ledger \<Rightarrow> ledger" where
  "ledger_prune table l = filter (\<lambda>e. entry_fsid e \<in> Some ` sm_fsid ` set table) l"

definition ledger_record :: "smb_mount list \<Rightarrow> smb_mount \<Rightarrow> ledger \<Rightarrow> ledger" where
  "ledger_record table m l =
     (let l' = ledger_prune table l in if ledger_owns m l' then l' else l' @ [ledger_entry m])"

definition ledger_forget :: "smb_mount \<Rightarrow> ledger \<Rightarrow> ledger" where
  "ledger_forget m l = filter (\<lambda>e. entry_fsid e \<noteq> Some (sm_fsid m)) l"

definition ledger_saved :: "ledger \<Rightarrow> json" where
  "ledger_saved l = JList (map JObj l)"

subsection \<open>Percent encoding reads back\<close>

lemma hex_value_upper: "n < 16 \<Longrightarrow> hex_value (upper_hex n) = Some n"
  by (auto simp: hex_value_def upper_hex_def Let_def)

lemma escape_at_quoted:
  "b < 256 \<Longrightarrow> escape_at ([percent, upper_hex (b div 16), upper_hex (b mod 16)] @ t) = Some b"
  by (simp add: hex_value_upper)

lemma percent_code: "code c = 37 \<longleftrightarrow> c = percent"
proof -
  have "code percent = 37" by (simp add: percent_def code_def)
  then show ?thesis by (metis code_inj)
qed

lemma escape_at_other: "c \<noteq> percent \<Longrightarrow> escape_at (c # s) = None"
  by (cases "c # s" rule: escape_at.cases) auto

lemma unquote_ascii:
  assumes "b < 128"
  shows "unquote (quote_byte b @ t) = char_of b # unquote t"
proof (cases "unreserved b")
  case True
  then have "b \<noteq> 37" by (auto simp: unreserved_def)
  with assms have "char_of b \<noteq> percent" using percent_code [of "char_of b"] by simp
  with True show ?thesis by (simp add: quote_byte_def escape_at_other)
next
  case False
  then show ?thesis using assms escape_at_quoted [of b t] by (simp add: quote_byte_def)
qed

lemma unquote_latin:
  assumes "128 \<le> n" and "n < 256"
  shows "unquote (quote_byte (192 + n div 64) @ quote_byte (128 + n mod 64) @ t) = char_of n # unquote t"
proof -
  let ?a = "192 + n div 64" and ?b = "128 + n mod 64"
  have "2 \<le> n div 64" "n div 64 < 4" using assms by (simp_all add: less_eq_div_iff_mult_less_eq div_less_iff_less_mult)
  then have a: "?a = 194 \<or> ?a = 195" by auto
  have b: "128 \<le> ?b" "?b < 192" by simp_all
  have q: "quote_byte ?a = [percent, upper_hex (?a div 16), upper_hex (?a mod 16)]"
    "quote_byte ?b = [percent, upper_hex (?b div 16), upper_hex (?b mod 16)]"
    using a b by (auto simp: quote_byte_def unreserved_def)
  have ea: "escape_at (quote_byte ?a @ u) = Some ?a" for u
    unfolding q by (rule escape_at_quoted) (use a in auto)
  have eb: "escape_at (quote_byte ?b @ u) = Some ?b" for u
    unfolding q by (rule escape_at_quoted) simp
  obtain x y where sa: "quote_byte ?a = [percent, x, y]" by (simp add: q)
  obtain x' y' where sb: "quote_byte ?b = [percent, x', y']" by (simp add: q)
  have "n = (?a - 192) * 64 + (?b - 128)" by simp
  then show ?thesis
    using ea [of "quote_byte ?b @ t"] eb [of t] a b unfolding sa sb
    by (simp add: drop_Cons')
qed

lemma unquote_char: "unquote (concat (map quote_byte (utf8 c)) @ t) = c # unquote t"
proof (cases "code c < 128")
  case True
  then have "char_of (code c) = c" by (simp add: code_def)
  with True unquote_ascii [OF True, of t] show ?thesis by (simp add: utf8_def)
next
  case False
  then have "char_of (code c) = c" by (simp add: code_def)
  with False unquote_latin [of "code c" t] show ?thesis by (simp add: utf8_def)
qed

lemma unquote_quote: "unquote (quote_url s) = s"
proof (induction s)
  case (Cons c s)
  then show ?case using unquote_char [of c "quote_url s"] by (simp add: quote_url_def)
qed (simp add: quote_url_def)

definition url_safe :: "char \<Rightarrow> bool" where
  "url_safe c = (unreserved (code c) \<or> c = percent)"

lemma upper_hex_safe: "n < 16 \<Longrightarrow> url_safe (upper_hex n)"
  by (cases "n < 10") (simp_all add: url_safe_def upper_hex_def unreserved_def)

lemma quote_byte_safe:
  assumes "b < 256" and "c \<in> set (quote_byte b)"
  shows "url_safe c"
proof (cases "unreserved b")
  case True
  with assms show ?thesis by (simp add: quote_byte_def url_safe_def)
next
  case False
  with assms(2) have "c = percent \<or> c = upper_hex (b div 16) \<or> c = upper_hex (b mod 16)"
    by (simp add: quote_byte_def)
  moreover have "b div 16 < 16" "b mod 16 < 16" using assms(1) by (simp_all add: div_less_iff_less_mult)
  ultimately show ?thesis using upper_hex_safe by (auto simp: url_safe_def [of percent])
qed

lemma quote_url_safe: "c \<in> set (quote_url s) \<Longrightarrow> url_safe c"
  by (auto simp: quote_url_def dest: utf8_byte intro: quote_byte_safe)

lemma safe_not_special:
  "url_safe c \<Longrightarrow> c \<notin> {slash, CHR ''?'', CHR 0x23, CHR 0x09, lf, cr}"
  by (auto simp: url_safe_def percent_def unreserved_def slash_def lf_def cr_def code_def)

lemma takeWhile_all: "\<forall>c \<in> set s. P c \<Longrightarrow> takeWhile P s = s"
  by (simp add: takeWhile_eq_all_conv)

definition plain_host :: "string \<Rightarrow> bool" where
  "plain_host h = (h \<noteq> [] \<and> (\<forall>c \<in> set h. c \<notin> {slash, CHR ''?'', CHR 0x23, CHR ''@'', CHR '':'', CHR ''['', CHR '']'',
     CHR 0x09, lf, cr}))"

lemma takeWhile_other: "d \<notin> set t \<Longrightarrow> takeWhile (\<lambda>c. c \<noteq> d) (t @ d # s) = t"
  "d \<notin> set t \<Longrightarrow> takeWhile (\<lambda>c. c \<noteq> d) t = t"
  by (induction t) auto

lemma after_last_append: "d \<notin> set t \<Longrightarrow> after_last d (s @ d # t) = t"
  using takeWhile_other(1) [of d "rev t" "rev s"] by (simp add: after_last_def)

lemma after_last_none: "d \<notin> set s \<Longrightarrow> after_last d s = s"
  unfolding after_last_def by (subst takeWhile_other(2)) simp_all

lemma before_append: "d \<notin> set s \<Longrightarrow> before d (s @ d # t) = s" "d \<notin> set s \<Longrightarrow> before d s = s"
  by (induction s) (auto simp: before_def)

lemma beyond_append: "d \<notin> set s \<Longrightarrow> beyond d (s @ d # t) = t"
  by (induction s) (auto simp: beyond_def)

lemma key_of_url:
  assumes "plain_host host"
  shows "key_for_url ip_ok (smb_url host share) = Some (mount_key host share)"
proof -
  let ?q = "quote_url share"
  have hq: "\<forall>c \<in> set host. c \<notin> {CHR 0x09, lf, cr} \<and> c \<notin> {slash, CHR ''?'', CHR 0x23}"
    using assms by (simp add: plain_host_def)
  have qq: "\<forall>c \<in> set ?q. c \<notin> {slash, CHR ''?'', CHR 0x23, CHR 0x09, lf, cr}"
    using quote_url_safe safe_not_special by blast
  have url: "smb_url host share = ''smb://'' @ host @ slash # ?q"
    using assms by (auto simp: smb_url_def plain_host_def slash_def)
  have lits: "''smb://'' = filter (\<lambda>c. c \<notin> {CHR 0x09, lf, cr}) ''smb://''" "slash \<notin> {CHR 0x09, lf, cr}"
    by (simp_all add: lf_def cr_def slash_def)
  have clean: "filter (\<lambda>c. c \<notin> {CHR 0x09, lf, cr}) (smb_url host share) = ''smb://'' @ host @ slash # ?q"
    unfolding url using hq qq lits by (simp add: filter_id_conv)
  have netloc: "takeWhile (\<lambda>c. c \<notin> {slash, CHR ''?'', CHR 0x23}) (host @ slash # ?q) = host"
    using hq by (subst takeWhile_append2) auto
  have path: "takeWhile (\<lambda>c. c \<notin> {CHR ''?'', CHR 0x23}) (slash # ?q) = slash # ?q"
    using qq by (intro takeWhile_all) (auto simp: slash_def)
  have share: "before slash (lstrip_on (\<lambda>c. c = slash) (slash # ?q)) = ?q"
  proof -
    have "lstrip_on (\<lambda>c. c = slash) (slash # ?q) = ?q"
      using qq by (cases ?q) (auto simp: lstrip_on_def)
    moreover have "slash \<notin> set ?q" using qq by blast
    ultimately show ?thesis by (simp add: before_append)
  qed
  have name: "url_hostname ip_ok host = Some host"
  proof -
    have "CHR ''@'' \<notin> set host" "CHR ''['' \<notin> set host" "CHR '']'' \<notin> set host" "CHR '':'' \<notin> set host"
      using assms by (auto simp: plain_host_def)
    then show ?thesis by (simp add: url_hostname_def after_last_none before_append)
  qed
  have pre: "prefix ''smb://'' (''smb://'' @ host @ slash # ?q)"
    and rest: "drop 6 (''smb://'' @ host @ slash # ?q) = host @ slash # ?q"
    and past: "drop (length host) (host @ slash # ?q) = slash # ?q"
    by simp_all
  show ?thesis
    unfolding key_for_url_def Let_def clean rest netloc past path share name unquote_quote
    by (simp only: pre not_True_eq_False if_False option.map)
qed

lemma key_of_source:
  assumes "plain_host host" and "share \<noteq> []" and "slash \<notin> set user"
  shows "parse_from_name (''//'' @ user @ CHR ''@'' # host @ slash # quote_url share) = Some (host, share)"
    and "parse_from_name (''//'' @ host @ slash # quote_url share) = Some (host, share)"
proof -
  let ?q = "quote_url share"
  have h: "slash \<notin> set host" "CHR ''@'' \<notin> set host" "host \<noteq> []" using assms(1) by (auto simp: plain_host_def)
  have q: "slash \<notin> set ?q" using quote_url_safe safe_not_special by blast
  have "?q \<noteq> []" using assms(2) unquote_quote [of share] by force
  moreover have u: "slash \<notin> set (user @ CHR ''@'' # host)" using h(1) assms(3) by (simp add: slash_def)
  have "before slash ((user @ CHR ''@'' # host) @ slash # ?q) = user @ CHR ''@'' # host"
    "beyond slash ((user @ CHR ''@'' # host) @ slash # ?q) = ?q"
    using before_append(1) [OF u] beyond_append [OF u] by blast+
  moreover have "before slash (host @ slash # ?q) = host" "beyond slash (host @ slash # ?q) = ?q"
    using h by (auto intro!: before_append beyond_append)
  ultimately show "parse_from_name (''//'' @ user @ CHR ''@'' # host @ slash # ?q) = Some (host, share)"
    and "parse_from_name (''//'' @ host @ slash # ?q) = Some (host, share)"
    using h q assms(2) by (simp_all add: parse_from_name_def Let_def after_last_append after_last_none before_append unquote_quote)
qed

subsection \<open>The ledger claims no other mount\<close>

text \<open>Beside the ledger, the ids of the mounts that were recorded and not forgotten since.\<close>

inductive ledger_step :: "ledger \<times> (int \<times> int) set \<Rightarrow> ledger \<times> (int \<times> int) set \<Rightarrow> bool" where
  recorded: "ledger_step (l, made) (ledger_record table m l, insert (sm_fsid m) made)"
| forgotten: "ledger_step (l, made) (ledger_forget m l, made - {sm_fsid m})"
| reloaded: "ledger_step (l, made) (ledger_load (Inr (ledger_saved l)), made)"
| unreadable: "ledger_step (l, made) (ledger_load (Inl e), made)"

definition ledger_ok :: "ledger \<times> (int \<times> int) set \<Rightarrow> bool" where
  "ledger_ok = (\<lambda>(l, made). distinct (map entry_fsid l) \<and> entry_fsid ` set l \<subseteq> Some ` made)"

lemma entry_fsid_ledger_entry [simp]: "entry_fsid (ledger_entry m) = Some (sm_fsid m)"
  by (simp add: entry_fsid_def ledger_entry_def get_def)

lemma ledger_owns_iff: "ledger_owns m l \<longleftrightarrow> Some (sm_fsid m) \<in> entry_fsid ` set l"
  unfolding ledger_owns_def list_ex_iff by force

lemma ledger_reload: "None \<notin> entry_fsid ` set l \<Longrightarrow> ledger_load (Inr (ledger_saved l)) = l"
proof (induction l)
  case (Cons e l)
  then have "\<exists>a b. entry_fsid e = Some (a, b)" by (cases "entry_fsid e") auto
  with Cons show ?case by (simp add: ledger_load_def ledger_saved_def List.map_filter_simps)
qed (simp add: ledger_load_def ledger_saved_def List.map_filter_simps)

lemma ledger_step_ok: "ledger_step s t \<Longrightarrow> ledger_ok s \<Longrightarrow> ledger_ok t"
proof (induction rule: ledger_step.induct)
  case (recorded l made table m)
  then have "distinct (map entry_fsid (ledger_prune table l))" "entry_fsid ` set (ledger_prune table l) \<subseteq> Some ` made"
    by (auto simp: ledger_ok_def ledger_prune_def distinct_map_filter)
  then show ?case by (auto simp: ledger_ok_def ledger_record_def Let_def ledger_owns_iff)
next
  case (forgotten l made m)
  then show ?case by (auto simp: ledger_ok_def ledger_forget_def distinct_map_filter)
next
  case (reloaded l made)
  then have "None \<notin> entry_fsid ` set l" by (auto simp: ledger_ok_def)
  with reloaded show ?case by (simp add: ledger_reload)
qed (simp add: ledger_load_def ledger_ok_def)

interpretation ledger: step_system "\<lambda>s. s = ([], {})" ledger_step ledger_ok
  by unfold_locales (simp add: ledger_ok_def, rule ledger_step_ok)

lemma ledger_record_owns: "ledger_owns m (ledger_record table m l)"
  by (auto simp: ledger_record_def Let_def ledger_owns_iff)

subsection \<open>Properties\<close>



text \<open>The ledger claims a mount only when SMBPal recorded it and has not forgotten it since, through
  pruning, restarts and files that could not be read; and it claims what was just recorded.\<close>

theorem ledger_claims_only_ours:
  assumes "ledger_step\<^sup>*\<^sup>* ([], {}) (l, made)"
  shows "(\<not> ledger_owns m l \<or> sm_fsid m \<in> made) \<and> ledger_owns m (ledger_record table m l)"
  using ledger.inv_reachable [OF refl assms] ledger_record_owns
  by (auto simp: ledger_ok_def ledger_owns_iff)

definition example_mount :: smb_mount where
  "example_mount = \<lparr>sm_host = ''nas.local'', sm_share = ''Media'', sm_mountpoint = ''/Volumes/Media'',
     sm_owner_uid = 501, sm_fsid = (7, 26)\<rparr>"

theorem ledger_claims_only_ours_witness:
  "ledger_owns example_mount (ledger_record [] example_mount [])
   \<and> \<not> ledger_owns (example_mount\<lparr>sm_fsid := (8, 26)\<rparr>) (ledger_record [] example_mount [])"
proof -
  have "ledger_step\<^sup>*\<^sup>* ([], {}) (ledger_record [] example_mount [], insert (sm_fsid example_mount) {})"
    by (intro r_into_rtranclp ledger_step.recorded)
  from ledger_claims_only_ours [OF this, of "example_mount\<lparr>sm_fsid := (8, 26)\<rparr>" "[]"]
  show ?thesis by (simp add: ledger_record_owns) (simp add: example_mount_def)
qed

end
