(* ===== verification/Reconnect.thy ===== *)
theory Reconnect
  imports Complex_Main Volumes Operations
begin

unbundle bit_operations_syntax

text \<open>
  \<^verbatim>\<open>smbpal/agent/reconnect.py\<close>: the loop that mounts a person's connections again on macOS. A pass
  (\<open>tick\<close>) is given what the outside answers: the clocks, the kernel's flags, the daemon's list, the
  mount table, what a mount attempt comes to and how long it took, and the \<open>released\<close> and
  \<open>connected\<close> calls that arrive while the lock is released for it. Clocks are rationals, minus
  infinity is \<open>None\<close>; \<open>connected\<close> is given the key of its URL (\<^const>\<open>key_for_url\<close>). What a pass does to
  the outside is appended to a trace.
\<close>

subsection \<open>State\<close>

datatype hold = Disconnected_hold | Ejected_hold string | Refused_hold string

datatype status_text =
    Not_checked_yet
  | Disconnected_until
  | Ejected_until
  | Mounted_at string
  | Lost_reconnecting
  | Not_automatic
  | Will_not_retry string
  | Trying_again string

type_synonym status = "conn_state \<times> status_text \<times> bool"

definition DISCONNECTED :: status where "DISCONNECTED = (Idle, Disconnected_until, False)"
definition EJECTED :: status where "EJECTED = (Idle, Ejected_until, False)"

datatype line =
    Line_mounted string
  | Line_lost string
  | Line_held hold
  | Line_never
  | Line_connected string
  | Line_could_not string

record track =
  tr_key :: "string \<times> string"
  tr_mounted_at :: "string option"
  tr_last_at :: "string option"
  tr_held :: "hold option"
  tr_failures :: nat
  tr_next_try :: rat
  tr_said :: "line option"
  tr_status :: status
  tr_held_status :: "status option"
  tr_retry_logged :: "rat option"

definition new_track :: "string \<times> string \<Rightarrow> track" where
  "new_track key =
     \<lparr>tr_key = key, tr_mounted_at = None, tr_last_at = None, tr_held = None, tr_failures = 0,
      tr_next_try = 0, tr_said = None, tr_status = (Unknown, Not_checked_yet, False),
      tr_held_status = None, tr_retry_logged = None\<rparr>"

record row =
  row_id :: string
  row_state :: conn_state
  row_message :: status_text
  row_retryable :: bool
  row_mountpoint :: "string option"

datatype ract = Attempt string | Report "row list"

record reconnector =
  rc_uid :: int
  rc_username :: string
  rc_interval :: rat
  rc_reporting :: bool
  rc_tracks :: "(string \<times> track) list"
  rc_last_list :: "obj list"
  rc_list_problem :: "py_error option"
  rc_trouble_until :: "rat option"
  rc_retry_now_until :: "rat option"
  rc_last_clocks :: "(rat \<times> rat) option"
  rc_reported :: "row list option"

definition FAST_BACKOFF :: rat where "FAST_BACKOFF = 30"
definition MAX_BACKOFF :: rat where "MAX_BACKOFF = 300"
definition SLOW_ATTEMPT :: rat where "SLOW_ATTEMPT = 5"
definition TROUBLE_WINDOW :: rat where "TROUBLE_WINDOW = 600"
definition SLEEP_GAP :: rat where "SLEEP_GAP = 30"
definition RETRY_AFTER_WAKE :: rat where "RETRY_AFTER_WAKE = 30"
definition RETRY_LOG_EVERY :: rat where "RETRY_LOG_EVERY = 60"

definition VQ_TROUBLE :: nat where "VQ_TROUBLE = 0x0001 OR 0x0020 OR 0x0080"
definition NETWORK_CHANGED :: nat where "NETWORK_CHANGED = 2 ^ 24"

datatype outcome =
    Landed string
  | Netfs_error string bool conn_state
  | Other_error string
  | Raises py_error

datatype call = Call_released string | Call_connected "string \<times> string" string

record pass =
  pa_now :: rat
  pa_wall :: rat
  pa_flags :: nat
  pa_list :: "json list res"
  pa_table :: "smb_mount list"
  pa_mount :: "ract list \<Rightarrow> obj \<Rightarrow> outcome \<times> rat"
  pa_during :: "ract list \<Rightarrow> obj \<Rightarrow> call list"

subsection \<open>What the agent's methods tell it\<close>

definition map_tracks :: "(track \<Rightarrow> track) \<Rightarrow> reconnector \<Rightarrow> reconnector" where
  "map_tracks f r = r\<lparr>rc_tracks := map (\<lambda>(i, t). (i, f t)) (rc_tracks r)\<rparr>"

definition released_track :: "string \<Rightarrow> track \<Rightarrow> track" where
  "released_track mp t =
     (if tr_mounted_at t = Some mp \<or> tr_last_at t = Some mp
      then t\<lparr>tr_mounted_at := None, tr_held := Some Disconnected_hold,
             tr_held_status := Some DISCONNECTED\<rparr>
      else t)"

definition released :: "string \<Rightarrow> reconnector \<Rightarrow> reconnector" where
  "released mp r = map_tracks (released_track mp) r"

definition connected_track :: "string \<times> string \<Rightarrow> string \<Rightarrow> track \<Rightarrow> track" where
  "connected_track key mp t =
     (if tr_key t = key
      then t\<lparr>tr_mounted_at := Some mp, tr_last_at := Some mp, tr_held := None, tr_held_status := None,
             tr_failures := 0, tr_next_try := 0\<rparr>
      else t)"

definition connected :: "string \<times> string \<Rightarrow> string \<Rightarrow> reconnector \<Rightarrow> reconnector" where
  "connected key mp r = map_tracks (connected_track key mp) r"

definition call :: "call \<Rightarrow> reconnector \<Rightarrow> reconnector" where
  "call c r = (case c of Call_released mp \<Rightarrow> released mp r | Call_connected key mp \<Rightarrow> connected key mp r)"

definition retry_waiting :: "reconnector \<Rightarrow> reconnector" where
  "retry_waiting r =
     map_tracks (\<lambda>t. if tr_held t = None \<and> tr_mounted_at t = None then t\<lparr>tr_next_try := 0\<rparr> else t) r"

subsection \<open>One connection of a pass\<close>

definition conn_key :: "obj \<Rightarrow> string \<times> string" where
  "conn_key c = mount_key (text_of c ''host'') (text_of c ''share'')"

definition rc_id :: "obj \<Rightarrow> string" where
  "rc_id c = py_str (get c ''id'')"

definition automatic :: "obj \<Rightarrow> bool" where
  "automatic c =
     ((if truthy (get c ''auto_connect'') then get c ''auto_connect'' else JStr ''on_this_network'') \<noteq> JStr ''never'')"

definition see_mounted :: "string \<Rightarrow> track \<Rightarrow> track" where
  "see_mounted mp t =
     t\<lparr>tr_said := (if tr_mounted_at t \<noteq> Some mp then Some (Line_mounted mp) else tr_said t),
       tr_mounted_at := Some mp, tr_last_at := Some mp, tr_held := None, tr_held_status := None,
       tr_failures := 0, tr_next_try := 0, tr_status := (Connected, Mounted_at mp, False)\<rparr>"

definition see_gone :: "bool \<Rightarrow> track \<Rightarrow> track" where
  "see_gone trouble t =
     (case tr_mounted_at t of
        None \<Rightarrow> t
      | Some from \<Rightarrow>
          if trouble
          then t\<lparr>tr_mounted_at := None, tr_said := Some (Line_lost from),
                 tr_status := (Reconnecting, Lost_reconnecting, True)\<rparr>
          else t\<lparr>tr_mounted_at := None, tr_held := Some (Ejected_hold from),
                 tr_held_status := Some EJECTED\<rparr>)"

definition see_disconnected :: "obj \<Rightarrow> track \<Rightarrow> track" where
  "see_disconnected c t =
     (if truthy (get c ''disconnected'')
      then t\<lparr>tr_held := Some Disconnected_hold, tr_held_status := Some DISCONNECTED\<rparr> else t)"

text \<open>The part of \<open>_consider\<close> under the lock: the track afterwards, and whether a mount is attempted.\<close>

definition decide_track :: "obj \<Rightarrow> smb_mount option \<Rightarrow> rat \<Rightarrow> bool \<Rightarrow> track \<Rightarrow> track \<times> bool" where
  "decide_track c mounted now trouble t =
     (case mounted of
        Some m \<Rightarrow> (see_mounted (sm_mountpoint m) t, False)
      | None \<Rightarrow>
          (let t' = see_disconnected c (see_gone trouble t)
           in case tr_held t' of
                Some h \<Rightarrow>
                  (t'\<lparr>tr_said := Some (Line_held h),
                      tr_status := (case tr_held_status t' of None \<Rightarrow> DISCONNECTED | Some s \<Rightarrow> s)\<rparr>, False)
              | None \<Rightarrow>
                  if \<not> automatic c
                  then (t'\<lparr>tr_said := Some Line_never, tr_status := (Disabled, Not_automatic, False)\<rparr>, False)
                  else (t', \<not> now < tr_next_try t')))"

definition track_of :: "obj \<Rightarrow> reconnector \<Rightarrow> track" where
  "track_of c r =
     (case map_of (rc_tracks r) (rc_id c) of
        None \<Rightarrow> new_track (conn_key c)
      | Some t \<Rightarrow> if tr_key t \<noteq> conn_key c then new_track (conn_key c) else t)"

definition put_track :: "string \<Rightarrow> track \<Rightarrow> reconnector \<Rightarrow> reconnector" where
  "put_track i t r = r\<lparr>rc_tracks := AList.update i t (rc_tracks r)\<rparr>"

definition refuse_track :: "string \<Rightarrow> conn_state \<Rightarrow> track \<Rightarrow> track" where
  "refuse_track msg why t =
     (let st = (if why = Auth_failed then Auth_failed else Failed, Will_not_retry msg, False)
      in t\<lparr>tr_held := Some (Refused_hold msg), tr_held_status := Some st, tr_status := st,
           tr_said := Some (Line_held (Refused_hold msg))\<rparr>)"

definition backoff :: "rat \<Rightarrow> nat \<Rightarrow> rat \<Rightarrow> rat" where
  "backoff interval failures took =
     min (interval * 2 ^ failures) (if took \<ge> SLOW_ATTEMPT then MAX_BACKOFF else FAST_BACKOFF)"

definition retry_track :: "string \<Rightarrow> conn_state \<Rightarrow> rat \<Rightarrow> rat \<Rightarrow> rat \<Rightarrow> track \<Rightarrow> track" where
  "retry_track msg why interval took now t =
     t\<lparr>tr_next_try := now + backoff interval (tr_failures t) took,
       tr_status := (if why = Unreachable then Unreachable else Reconnecting, Trying_again msg, True),
       tr_said := Some (Line_could_not msg),
       tr_retry_logged := (case tr_retry_logged t of
          None \<Rightarrow> Some now | Some l \<Rightarrow> if now - l \<ge> RETRY_LOG_EVERY then Some now else Some l)\<rparr>"

text \<open>\<open>_failed\<close>. The product of a float and \<open>2 ** failures\<close> raises once the power is beyond a float.\<close>

definition failed :: "string \<Rightarrow> string \<Rightarrow> bool \<Rightarrow> rat \<Rightarrow> conn_state \<Rightarrow> rat \<Rightarrow> reconnector \<Rightarrow> reconnector \<times> py_error option" where
  "failed i msg retryable now why took r =
     (case map_of (rc_tracks r) i of
        None \<Rightarrow> (r, None)
      | Some t \<Rightarrow>
          if \<not> retryable then (put_track i (refuse_track msg why t) r, None)
          else let t' = t\<lparr>tr_failures := tr_failures t + 1\<rparr>
               in if tr_failures t' \<ge> 1024 then (put_track i t' r, Some OverflowError)
                  else (put_track i (retry_track msg why (rc_interval r) took now t') r, None))"

definition settle :: "obj \<Rightarrow> rat \<Rightarrow> outcome \<times> rat \<Rightarrow> reconnector \<Rightarrow> reconnector \<times> py_error option" where
  "settle c now result r =
     (case result of (out, took) \<Rightarrow>
       (case out of
          Landed where_at \<Rightarrow>
            (case map_of (rc_tracks r) (rc_id c) of
               None \<Rightarrow> (r, None)
             | Some t \<Rightarrow>
                 (put_track (rc_id c)
                    (t\<lparr>tr_mounted_at := Some where_at, tr_last_at := Some where_at, tr_failures := 0,
                       tr_next_try := 0, tr_status := (Connected, Mounted_at where_at, False),
                       tr_said := Some (Line_connected where_at)\<rparr>) r, None))
        | Netfs_error msg retryable why \<Rightarrow> failed (rc_id c) msg retryable now why took r
        | Other_error msg \<Rightarrow> failed (rc_id c) msg True now Failed took r
        | Raises e \<Rightarrow> (r, Some e)))"

type_synonym rstate = "reconnector \<times> ract list"

definition mount_table :: "int \<Rightarrow> smb_mount list \<Rightarrow> ((string \<times> string) \<times> smb_mount) list" where
  "mount_table uid ms = fold (\<lambda>m d. AList.update (sm_key m) m d) (filter (\<lambda>m. sm_owner_uid m = uid) ms) []"

definition consider_one :: "pass \<Rightarrow> bool \<Rightarrow> obj \<Rightarrow> rstate \<Rightarrow> rstate \<times> py_error option" where
  "consider_one p trouble c s =
     (case s of (r, tr) \<Rightarrow>
       (case decide_track c (map_of (mount_table (rc_uid r) (pa_table p)) (conn_key c)) (pa_now p) trouble (track_of c r) of
          (t, go) \<Rightarrow>
            (let r1 = put_track (rc_id c) t r
             in if \<not> go then ((r1, tr), None)
                else let r2 = fold call (pa_during p tr c) r1
                     in case settle c (pa_now p) (pa_mount p tr c) r2 of
                          (r3, e) \<Rightarrow> ((r3, tr @ [Attempt (rc_id c)]), e))))"

fun consider_all :: "pass \<Rightarrow> bool \<Rightarrow> obj list \<Rightarrow> rstate \<Rightarrow> rstate \<times> py_error option" where
  "consider_all p trouble [] s = (s, None)"
| "consider_all p trouble (c # cs) s =
     (case consider_one p trouble c s of
        (s', Some e) \<Rightarrow> (s', Some e)
      | (s', None) \<Rightarrow> consider_all p trouble cs s')"

subsection \<open>A pass\<close>

definition later :: "rat option \<Rightarrow> rat \<Rightarrow> rat option" where
  "later a b = (case a of None \<Rightarrow> Some b | Some x \<Rightarrow> Some (max x b))"

definition not_yet :: "rat \<Rightarrow> rat option \<Rightarrow> bool" where
  "not_yet now until = (case until of None \<Rightarrow> False | Some t \<Rightarrow> now < t)"

definition slept :: "pass \<Rightarrow> reconnector \<Rightarrow> bool" where
  "slept p r =
     (case rc_last_clocks r of
        None \<Rightarrow> False
      | Some (wall, now) \<Rightarrow> (pa_wall p - wall) - (pa_now p - now) > SLEEP_GAP)"

definition notice :: "pass \<Rightarrow> reconnector \<Rightarrow> reconnector" where
  "notice p r =
     (let now = pa_now p;
          asleep = slept p r;
          r1 = r\<lparr>rc_last_clocks := Some (pa_wall p, now)\<rparr>;
          r2 = (if asleep then r1\<lparr>rc_trouble_until := later (rc_trouble_until r1) (now + TROUBLE_WINDOW),
                                  rc_retry_now_until := Some (now + RETRY_AFTER_WAKE)\<rparr> else r1);
          r3 = (if pa_flags p AND VQ_TROUBLE \<noteq> 0
                then r2\<lparr>rc_trouble_until := later (rc_trouble_until r2) (now + TROUBLE_WINDOW)\<rparr> else r2)
      in if pa_flags p AND NETWORK_CHANGED \<noteq> 0 \<or> not_yet now (rc_retry_now_until r3)
         then retry_waiting r3 else r3)"

definition read_connections :: "json list res \<Rightarrow> reconnector \<Rightarrow> obj list \<times> reconnector" where
  "read_connections listed r =
     (case listed of
        Inl e \<Rightarrow> (rc_last_list r, r\<lparr>rc_list_problem := Some e\<rparr>)
      | Inr vs \<Rightarrow>
          (let cs = List.map_filter (\<lambda>v. case v of JObj c \<Rightarrow> Some c | _ \<Rightarrow> None) vs
           in (cs, r\<lparr>rc_list_problem := None, rc_last_list := cs\<rparr>)))"

definition mine_of :: "pass \<Rightarrow> reconnector \<Rightarrow> obj list" where
  "mine_of p r =
     filter (\<lambda>c. get c ''owner'' = JStr (rc_username r)) (fst (read_connections (pa_list p) r))"

definition drop_tracks :: "string set \<Rightarrow> reconnector \<Rightarrow> reconnector" where
  "drop_tracks seen r = r\<lparr>rc_tracks := filter (\<lambda>(i, t). i \<in> seen) (rc_tracks r)\<rparr>"

definition states :: "reconnector \<Rightarrow> row list" where
  "states r =
     map (\<lambda>(i, t). \<lparr>row_id = i, row_state = fst (tr_status t), row_message = fst (snd (tr_status t)),
            row_retryable = snd (snd (tr_status t)), row_mountpoint = tr_mounted_at t\<rparr>)
       (sort_key fst (rc_tracks r))"

definition report :: "rstate \<Rightarrow> rstate" where
  "report s =
     (case s of (r, tr) \<Rightarrow>
        if Some (states r) = rc_reported r \<or> \<not> rc_reporting r then (r, tr)
        else (r\<lparr>rc_reported := Some (states r)\<rparr>, tr @ [Report (states r)]))"

definition tick :: "pass \<Rightarrow> rstate \<Rightarrow> rstate \<times> py_error option" where
  "tick p s =
     (case s of (r, tr) \<Rightarrow>
       (let r1 = notice p r;
            trouble = not_yet (pa_now p) (rc_trouble_until r1);
            mine = mine_of p r1;
            r2 = snd (read_connections (pa_list p) r1)
        in case consider_all p trouble mine (r2, tr) of
             (s', Some e) \<Rightarrow> (s', Some e)
           | ((r3, tr3), None) \<Rightarrow> (report (drop_tracks (rc_id ` set mine) r3, tr3), None)))"

end
