(* ===== verification/Retrying.thy ===== *)
theory Retrying
  imports Reconnect
begin

text \<open>
  What the reconnect loop keeps: a connection that is held is not attempted until somebody connects
  it, the backoff is bounded, and the daemon is told the current states. Also the pass that a long
  outage breaks.
\<close>

subsection \<open>Tracks\<close>

lemma lookup_map_tracks [simp]:
  "map_of (rc_tracks (map_tracks f r)) i = map_option f (map_of (rc_tracks r) i)"
proof -
  have "map_of (map (\<lambda>(i, t). (i, f t)) xs) i = map_option f (map_of xs i)" for xs
    by (induction xs) auto
  then show ?thesis by (simp add: map_tracks_def)
qed

lemma lookup_put [simp]:
  "map_of (rc_tracks (put_track i t r)) j = (if j = i then Some t else map_of (rc_tracks r) j)"
  by (simp add: put_track_def)

text \<open>The parts of the state no connection of a pass changes.\<close>

definition fixed :: "reconnector \<Rightarrow> int \<times> string \<times> rat \<times> bool \<times> obj list \<times> row list option" where
  "fixed r = (rc_uid r, rc_username r, rc_interval r, rc_reporting r, rc_last_list r, rc_reported r)"

lemma fixed_simps [simp]:
  "fixed (map_tracks f r) = fixed r" "fixed (put_track i t r) = fixed r" "fixed (call k r) = fixed r"
  "fixed (drop_tracks seen r) = fixed r"
  by (simp_all add: fixed_def map_tracks_def put_track_def call_def released_def connected_def drop_tracks_def
      split: call.split)

lemma fixed_calls [simp]: "fixed (fold call ks r) = fixed r"
  by (induction ks arbitrary: r) simp_all

lemma fixed_settle: "fixed (fst (settle c now res r)) = fixed r"
  by (auto simp: settle_def failed_def Let_def split: prod.split outcome.split option.split)

lemma fixed_consider: "fixed (fst (fst (consider_one p trouble c s))) = fixed (fst s)"
  by (simp add: consider_one_def fixed_settle Let_def split: prod.split)
    (metis fixed_settle fixed_calls fixed_simps(2) fst_conv)

lemma fixed_all: "fixed (fst (fst (consider_all p trouble cs s))) = fixed (fst s)"
proof (induction cs arbitrary: s)
  case (Cons c cs)
  then show ?case
    using fixed_consider [of p trouble c s] by (auto split: prod.split option.split)
qed simp

lemma fixed_notice: "fixed (notice p r) = fixed r"
  by (simp add: notice_def Let_def retry_waiting_def) (simp add: fixed_def)

lemma mine_of_fixed: "fixed r = fixed r' \<Longrightarrow> mine_of p r = mine_of p r'"
  by (simp add: fixed_def mine_of_def read_connections_def Let_def split: sum.split)

subsection \<open>A held connection\<close>

definition attempts :: "string \<Rightarrow> ract list \<Rightarrow> nat" where
  "attempts i tr = length (filter (\<lambda>e. e = Attempt i) tr)"

lemma attempts_simps [simp]:
  "attempts i (tr @ [Report rows]) = attempts i tr"
  "attempts i (tr @ [Attempt j]) = attempts i tr + (if j = i then 1 else 0)"
  by (simp_all add: attempts_def)

definition held_track :: "obj \<Rightarrow> track option \<Rightarrow> bool" where
  "held_track c t = (case t of None \<Rightarrow> False | Some x \<Rightarrow> tr_key x = conn_key c \<and> tr_held x \<noteq> None)"

definition held_at :: "obj \<Rightarrow> nat \<Rightarrow> rstate \<Rightarrow> bool" where
  "held_at c k s = (held_track c (map_of (rc_tracks (fst s)) (rc_id c)) \<and> attempts (rc_id c) (snd s) = k)"

definition leaves_alone :: "obj \<Rightarrow> call \<Rightarrow> bool" where
  "leaves_alone c k = (case k of Call_released _ \<Rightarrow> True | Call_connected key _ \<Rightarrow> key \<noteq> conn_key c)"

lemma held_call:
  "leaves_alone c k \<Longrightarrow> held_track c (map_of (rc_tracks r) i) \<Longrightarrow> held_track c (map_of (rc_tracks (call k r)) i)"
  by (cases k; cases "map_of (rc_tracks r) i")
    (auto simp: call_def released_def connected_def released_track_def connected_track_def held_track_def leaves_alone_def)

lemma held_calls:
  "\<forall>k \<in> set ks. leaves_alone c k \<Longrightarrow> held_track c (map_of (rc_tracks r) i) \<Longrightarrow>
   held_track c (map_of (rc_tracks (fold call ks r)) i)"
  by (induction ks arbitrary: r) (simp_all add: held_call)

lemma settle_other:
  "rc_id d \<noteq> i \<Longrightarrow> map_of (rc_tracks (fst (settle d now res r))) i = map_of (rc_tracks r) i"
  by (auto simp: settle_def failed_def Let_def split: prod.split outcome.split option.split)

lemma consider_other:
  assumes "rc_id d \<noteq> rc_id c" and "\<forall>tr d. \<forall>k \<in> set (pa_during p tr d). leaves_alone c k" and "held_at c k s"
  shows "held_at c k (fst (consider_one p trouble d s))"
proof -
  obtain r tr where s: "s = (r, tr)" by (cases s)
  obtain t go where dec: "decide_track d (map_of (mount_table (rc_uid r) (pa_table p)) (conn_key d)) (pa_now p) trouble (track_of d r) = (t, go)"
    by fastforce
  let ?r1 = "put_track (rc_id d) t r"
  have "held_track c (map_of (rc_tracks ?r1) (rc_id c))" using assms(1,3) by (simp add: held_at_def s)
  moreover from this have "held_track c (map_of (rc_tracks (fold call (pa_during p tr d) ?r1)) (rc_id c))"
    using assms(2) by (intro held_calls) auto
  ultimately show ?thesis using assms(1,3)
    by (simp add: consider_one_def s dec Let_def held_at_def case_prod_beta settle_other)
qed

lemma see_held: "tr_held t \<noteq> None \<Longrightarrow> tr_held (see_disconnected c (see_gone trouble t)) \<noteq> None"
  "tr_key (see_disconnected c (see_gone trouble t)) = tr_key t"
  by (auto simp: see_disconnected_def see_gone_def split: option.split)

lemma decide_held:
  assumes "tr_held t \<noteq> None"
  shows "\<exists>t'. decide_track c None now trouble t = (t', False) \<and> tr_held t' \<noteq> None \<and> tr_key t' = tr_key t"
  using see_held(1) [OF assms, of c trouble] see_held(2) [of c trouble t]
  by (cases "tr_held (see_disconnected c (see_gone trouble t))") (auto simp: decide_track_def Let_def)

lemma consider_held:
  assumes "map_of (mount_table (rc_uid (fst s)) (pa_table p)) (conn_key c) = None" and "held_at c k s"
  shows "held_at c k (fst (consider_one p trouble c s))"
proof -
  obtain r tr where s: "s = (r, tr)" by (cases s)
  obtain t where t: "map_of (rc_tracks r) (rc_id c) = Some t" "tr_key t = conn_key c" "tr_held t \<noteq> None"
    using assms(2) by (auto simp: held_at_def held_track_def s split: option.splits)
  then have "track_of c r = t" by (simp add: track_of_def)
  with decide_held [OF t(3), of c "pa_now p" trouble] assms t show ?thesis
    by (auto simp: consider_one_def s held_at_def held_track_def)
qed

lemma consider_all_held:
  assumes "\<forall>d \<in> set cs. rc_id d = rc_id c \<longrightarrow> d = c"
    and "map_of (mount_table (rc_uid (fst s)) (pa_table p)) (conn_key c) = None"
    and "\<forall>tr d. \<forall>k \<in> set (pa_during p tr d). leaves_alone c k" and "held_at c k s"
  shows "held_at c k (fst (consider_all p trouble cs s))"
  using assms
proof (induction cs arbitrary: s)
  case (Cons d cs)
  let ?s' = "fst (consider_one p trouble d s)"
  have "held_at c k ?s'"
    using Cons.prems consider_other [of d c p k s trouble] consider_held [of s p c k trouble]
    by (cases "rc_id d = rc_id c") simp_all
  moreover have "rc_uid (fst ?s') = rc_uid (fst s)"
    using fixed_consider [of p trouble d s] by (simp add: fixed_def)
  ultimately show ?case using Cons.IH [of ?s'] Cons.prems
    by (simp split: prod.split option.split) (metis fst_conv)
qed simp

lemma held_retry_waiting: "held_at c k (retry_waiting r, tr) = held_at c k (r, tr)"
  by (cases "map_of (rc_tracks r) (rc_id c)")
    (auto simp: held_at_def held_track_def retry_waiting_def)

lemma held_notice: "held_at c k (notice p r, tr) = held_at c k (r, tr)"
  by (simp add: notice_def Let_def held_retry_waiting) (simp add: held_at_def)

lemma held_read: "held_at c k (snd (read_connections l r), tr) = held_at c k (r, tr)"
  by (simp add: held_at_def read_connections_def Let_def split: sum.split)

lemma lookup_dropped: "i \<in> seen \<Longrightarrow> map_of (rc_tracks (drop_tracks seen r)) i = map_of (rc_tracks r) i"
proof -
  assume "i \<in> seen"
  then have "map_of (filter (\<lambda>(i, t). i \<in> seen) xs) i = map_of xs i" for xs :: "(string \<times> track) list"
    by (induction xs) auto
  then show ?thesis by (simp add: drop_tracks_def)
qed

lemma held_report: "held_at c k (report s) = held_at c k s"
  by (cases s) (simp add: report_def held_at_def)

text \<open>The runs in which nobody connects \<open>c\<close>: it stays listed and unmounted, and no \<open>connected\<close> call
  names its share.\<close>

inductive rstep :: "obj \<Rightarrow> rstate \<Rightarrow> rstate \<Rightarrow> bool" for c where
  ticked: "c \<in> set (mine_of p r) \<Longrightarrow> \<forall>d \<in> set (mine_of p r). rc_id d = rc_id c \<longrightarrow> d = c \<Longrightarrow>
     map_of (mount_table (rc_uid r) (pa_table p)) (conn_key c) = None \<Longrightarrow>
     \<forall>tr d. \<forall>k \<in> set (pa_during p tr d). leaves_alone c k \<Longrightarrow>
     fst (tick p (r, tr)) = s' \<Longrightarrow> rstep c (r, tr) s'"
| called: "leaves_alone c k \<Longrightarrow> rstep c (r, tr) (call k r, tr)"

definition after_all :: "pass \<Rightarrow> reconnector \<Rightarrow> ract list \<Rightarrow> rstate" where
  "after_all p r tr =
     fst (consider_all p (not_yet (pa_now p) (rc_trouble_until (notice p r))) (mine_of p r)
       (snd (read_connections (pa_list p) (notice p r)), tr))"

definition reported_after :: "pass \<Rightarrow> reconnector \<Rightarrow> ract list \<Rightarrow> rstate" where
  "reported_after p r tr =
     report (drop_tracks (rc_id ` set (mine_of p r)) (fst (after_all p r tr)), snd (after_all p r tr))"

lemma tick_shape:
  "fst (tick p (r, tr)) = after_all p r tr \<or> fst (tick p (r, tr)) = reported_after p r tr"
  using mine_of_fixed [OF fixed_notice, of p p r]
  by (auto simp: tick_def Let_def after_all_def reported_after_def split: prod.split option.split)

lemma tick_ok: "snd (tick p (r, tr)) = None \<Longrightarrow> fst (tick p (r, tr)) = reported_after p r tr"
  using mine_of_fixed [OF fixed_notice, of p p r]
  by (auto simp: tick_def Let_def after_all_def reported_after_def split: prod.splits option.splits)

lemma held_step: "rstep c s s' \<Longrightarrow> held_at c k s \<Longrightarrow> held_at c k s'"
proof (induction rule: rstep.induct)
  case (ticked p r tr s')
  let ?s = "(snd (read_connections (pa_list p) (notice p r)), tr)"
  have uid: "rc_uid (fst ?s) = rc_uid r"
    using fixed_notice [of p r] by (simp add: fixed_def read_connections_def Let_def split: sum.split)
  have all: "held_at c k (after_all p r tr)"
    unfolding after_all_def
    using ticked(2-4,6) by (intro consider_all_held) (simp_all only: uid held_read held_notice)
  then have "held_at c k (reported_after p r tr)"
    using ticked(1) unfolding reported_after_def held_report by (simp add: held_at_def lookup_dropped)
  with all tick_shape [of p r tr] ticked(5) show ?case by auto
next
  case (called k' r tr)
  then show ?case by (simp add: held_at_def held_call)
qed

interpretation held: step_system "held_at c k" "rstep c" "held_at c k" for c k
  by unfold_locales (assumption, rule held_step)

subsection \<open>What the daemon was told\<close>

definition last_report :: "ract list \<Rightarrow> row list option" where
  "last_report tr = fold (\<lambda>e l. case e of Report rows \<Rightarrow> Some rows | Attempt _ \<Rightarrow> l) tr None"

lemma last_report_simps [simp]:
  "last_report [] = None" "last_report (tr @ [Attempt i]) = last_report tr"
  "last_report (tr @ [Report rows]) = Some rows"
  by (simp_all add: last_report_def)

definition told :: "rstate \<Rightarrow> bool" where
  "told s = (rc_reported (fst s) = last_report (snd s))"

lemma fixed_reported: "fixed r = fixed r' \<Longrightarrow> rc_reported r = rc_reported r'"
  by (simp add: fixed_def)

lemma told_consider: "told s \<Longrightarrow> told (fst (consider_one p trouble c s))"
  using fixed_reported [OF fixed_consider, of p trouble c s]
  by (cases s) (auto simp: told_def consider_one_def Let_def split: prod.splits)

lemma told_all: "told s \<Longrightarrow> told (fst (consider_all p trouble cs s))"
proof (induction cs arbitrary: s)
  case (Cons c cs)
  from told_consider [OF Cons.prems, of p trouble c] Cons.IH show ?case
    by (auto split: prod.split option.split)
qed simp

lemma told_report: "told s \<Longrightarrow> told (report s)"
  by (cases s) (auto simp: told_def report_def)

lemma told_drop: "told (drop_tracks seen r, tr) = told (r, tr)"
  by (simp add: told_def drop_tracks_def)

lemma told_start: "told (snd (read_connections l (notice p r)), tr) = told (r, tr)"
  using fixed_reported [OF fixed_notice, of p r]
  by (simp add: told_def read_connections_def Let_def split: sum.split)

inductive rmove :: "rstate \<Rightarrow> rstate \<Rightarrow> bool" where
  passed: "fst (tick p s) = s' \<Longrightarrow> rmove s s'"
| called: "rmove (r, tr) (call k r, tr)"

lemma told_after: "told (r, tr) \<Longrightarrow> told (after_all p r tr)"
  unfolding after_all_def by (rule told_all) (simp add: told_start)

lemma told_tick: "told (r, tr) \<Longrightarrow> told (fst (tick p (r, tr)))"
  using tick_shape [of p r tr] told_after [of r tr p]
  by (auto simp: reported_after_def told_drop intro!: told_report)

lemma told_move: "rmove s s' \<Longrightarrow> told s \<Longrightarrow> told s'"
proof (induction rule: rmove.induct)
  case (passed p s s')
  then show ?case using told_tick by (cases s) auto
next
  case (called r tr k)
  then show ?case using fixed_reported [OF fixed_simps(3), of k r] by (simp add: told_def)
qed

definition reconnector_init :: "int \<Rightarrow> string \<Rightarrow> rat \<Rightarrow> reconnector" where
  "reconnector_init uid name interval =
     \<lparr>rc_uid = uid, rc_username = name, rc_interval = interval, rc_reporting = True, rc_tracks = [],
      rc_last_list = [], rc_list_problem = None, rc_trouble_until = None, rc_retry_now_until = None,
      rc_last_clocks = None, rc_reported = None\<rparr>"

interpretation told: step_system "\<lambda>s. s = (reconnector_init uid name interval, [])" rmove
    "\<lambda>s. told s \<and> rc_reporting (fst s)" for uid name interval
proof
  fix s s'
  assume step: "rmove s s'" and inv: "told s \<and> rc_reporting (fst s)"
  have "rc_reporting (fst s') = rc_reporting (fst s)"
    using step
  proof (induction rule: rmove.induct)
    case (passed p s s')
    obtain r tr where s: "s = (r, tr)" by (cases s)
    have "fixed (fst (after_all p r tr)) = fixed (snd (read_connections (pa_list p) (notice p r)))"
      unfolding after_all_def fixed_all by simp
    then have "rc_reporting (fst (after_all p r tr)) = rc_reporting r"
      using fixed_notice [of p r] by (simp add: fixed_def read_connections_def Let_def split: sum.splits)
    moreover have "rc_reporting (fst (report (drop_tracks seen q, tr'))) = rc_reporting q" for seen q tr'
      by (simp add: report_def drop_tracks_def)
    ultimately show ?case
      using tick_shape [of p r tr] passed s by (auto simp: reported_after_def)
  next
    case (called r tr k)
    then show ?case using fixed_simps(3) [of k r] by (simp add: fixed_def)
  qed
  with told_move [OF step] inv show "told s' \<and> rc_reporting (fst s')" by simp
qed (simp add: told_def reconnector_init_def)

lemma report_states: "rc_reporting r \<Longrightarrow> told (r, tr) \<Longrightarrow> last_report (snd (report (r, tr))) = Some (states (fst (report (r, tr))))"
  by (auto simp: report_def told_def states_def)

subsection \<open>Properties\<close>

text \<open>C12: a mount that was refused, with an answer that is not retryable, is not attempted again by any
  later pass, whatever the clocks, the network and the other connections do, until somebody connects
  that share or it is mounted by other means.\<close>

theorem refused_mount_is_not_retried:
  assumes "map_of (rc_tracks r) (rc_id c) = Some t" and "tr_key t = conn_key c"
    and "(rstep c)\<^sup>*\<^sup>* (fst (settle c now (Netfs_error msg False why, took) r), tr) (r', tr')"
  shows "attempts (rc_id c) tr' = attempts (rc_id c) tr"
proof -
  have "held_at c (attempts (rc_id c) tr) (fst (settle c now (Netfs_error msg False why, took) r), tr)"
    using assms(1,2) by (simp add: settle_def failed_def held_at_def held_track_def refuse_track_def Let_def)
  from held.inv_reachable [OF this assms(3)] show ?thesis by (simp add: held_at_def)
qed

definition example_record_doc :: obj where
  "example_record_doc = [(''id'', JStr ''nas''), (''owner'', JStr ''pi''), (''host'', JStr ''nas.local''), (''share'', JStr ''Media'')]"

definition example_pass :: "outcome \<Rightarrow> pass" where
  "example_pass out =
     \<lparr>pa_now = 10, pa_wall = 10, pa_flags = 0, pa_list = Inr [JObj example_record_doc], pa_table = [],
      pa_mount = (\<lambda>_ _. (out, 1)), pa_during = (\<lambda>_ _. [])\<rparr>"

definition example_start :: reconnector where
  "example_start = put_track ''nas'' (new_track (conn_key example_record_doc)) (reconnector_init 501 ''pi'' 5)"

lemma example_rc_id: "rc_id example_record_doc = ''nas''"
  by (simp add: rc_id_def example_record_doc_def get_def)

lemma example_tick:
  assumes "fixed r = fixed (reconnector_init 501 ''pi'' 5)"
  shows "(rstep example_record_doc)\<^sup>*\<^sup>* (r, [])
    (fst (fst (tick (example_pass out) (r, []))), snd (fst (tick (example_pass out) (r, []))))"
proof -
  let ?p = "example_pass out"
  have "mine_of ?p r = [example_record_doc]"
    using assms by (simp add: mine_of_def read_connections_def example_pass_def fixed_def reconnector_init_def
        example_record_doc_def get_def List.map_filter_simps Let_def)
  moreover have "mount_table (rc_uid r) (pa_table ?p) = []" by (simp add: example_pass_def mount_table_def)
  ultimately have "rstep example_record_doc (r, []) (fst (tick ?p (r, [])))"
    by (intro rstep.ticked) (simp_all add: example_pass_def)
  then show ?thesis by (simp add: r_into_rtranclp)
qed

theorem refused_mount_is_not_retried_witness:
  "attempts ''nas'' (snd (fst (tick (example_pass (Landed ''/Volumes/Media''))
     (fst (settle example_record_doc 10 (Netfs_error ''refused'' False Auth_failed, 1) example_start), [])))) = 0"
proof -
  let ?c = example_record_doc and ?p = "example_pass (Landed ''/Volumes/Media'')"
  let ?r = "fst (settle ?c 10 (Netfs_error ''refused'' False Auth_failed, 1) example_start)"
  have t: "map_of (rc_tracks example_start) (rc_id ?c) = Some (new_track (conn_key ?c))"
    by (simp add: example_start_def example_rc_id)
  have "fixed ?r = fixed (reconnector_init 501 ''pi'' 5)"
    by (simp add: fixed_settle) (simp add: example_start_def)
  from example_tick [OF this, of "Landed ''/Volumes/Media''"]
  have run: "(rstep ?c)\<^sup>*\<^sup>* (?r, []) (fst (fst (tick ?p (?r, []))), snd (fst (tick ?p (?r, []))))" .
  have "tr_key (new_track (conn_key ?c)) = conn_key ?c" by (simp add: new_track_def)
  from refused_mount_is_not_retried [OF t this run] show ?thesis
    by (simp add: example_rc_id attempts_def)
qed

text \<open>A share that was disconnected through SMBPal is not attempted again by any later pass until
  somebody connects it, even when its mount had already gone.\<close>

theorem disconnect_is_kept:
  assumes "map_of (rc_tracks r) (rc_id c) = Some t" and "tr_key t = conn_key c"
    and "Some mp \<in> {tr_mounted_at t, tr_last_at t}"
    and "(rstep c)\<^sup>*\<^sup>* (released mp r, tr) (r', tr')"
  shows "attempts (rc_id c) tr' = attempts (rc_id c) tr"
proof -
  have "held_at c (attempts (rc_id c) tr) (released mp r, tr)"
    using assms(1-3) by (auto simp: held_at_def held_track_def released_def released_track_def)
  from held.inv_reachable [OF this assms(4)] show ?thesis by (simp add: held_at_def)
qed

theorem disconnect_is_kept_witness:
  "attempts ''nas'' (snd (fst (tick (example_pass (Landed ''/Volumes/Media''))
     (released ''/Volumes/Media'' (connected (conn_key example_record_doc) ''/Volumes/Media'' example_start), [])))) = 0"
proof -
  let ?c = example_record_doc and ?p = "example_pass (Landed ''/Volumes/Media'')"
  let ?q = "connected (conn_key ?c) ''/Volumes/Media'' example_start"
  let ?r = "released ''/Volumes/Media'' ?q"
  let ?t = "connected_track (conn_key ?c) ''/Volumes/Media'' (new_track (conn_key ?c))"
  have t: "map_of (rc_tracks ?q) (rc_id ?c) = Some ?t"
    by (simp add: connected_def example_start_def example_rc_id)
  have k: "tr_key ?t = conn_key ?c" "Some ''/Volumes/Media'' \<in> {tr_mounted_at ?t, tr_last_at ?t}"
    by (simp_all add: connected_track_def new_track_def)
  have "fixed ?r = fixed (reconnector_init 501 ''pi'' 5)"
    by (simp add: released_def connected_def example_start_def)
  from example_tick [OF this, of "Landed ''/Volumes/Media''"]
  have run: "(rstep ?c)\<^sup>*\<^sup>* (?r, []) (fst (fst (tick ?p (?r, []))), snd (fst (tick ?p (?r, []))))" .
  from disconnect_is_kept [OF t k run] show ?thesis by (simp add: example_rc_id attempts_def)
qed



text \<open>C14: after every pass that ends normally, the last list handed to the daemon is the current state of
  every connection, whatever passes and calls came before.\<close>

theorem daemon_is_told_the_current_states:
  assumes "rmove\<^sup>*\<^sup>* (reconnector_init uid name interval, []) (r, tr)" and "snd (tick p (r, tr)) = None"
  shows "last_report (snd (fst (tick p (r, tr)))) = Some (states (fst (fst (tick p (r, tr)))))"
proof -
  have inv: "told (r, tr)" "rc_reporting r" using told.inv_reachable [OF refl assms(1)] by simp_all
  have "fixed (fst (after_all p r tr)) = fixed (snd (read_connections (pa_list p) (notice p r)))"
    unfolding after_all_def fixed_all by simp
  then have "rc_reporting (fst (after_all p r tr))"
    using fixed_notice [of p r] inv(2) by (simp add: fixed_def read_connections_def Let_def split: sum.splits)
  then have "rc_reporting (drop_tracks seen (fst (after_all p r tr)))" for seen
    by (simp add: drop_tracks_def)
  moreover have "told (drop_tracks seen (fst (after_all p r tr)), snd (after_all p r tr))" for seen
    using told_after [OF inv(1), of p] by (simp add: told_drop)
  ultimately show ?thesis unfolding tick_ok [OF assms(2)] reported_after_def by (rule report_states)
qed

theorem daemon_is_told_the_current_states_witness:
  "last_report (snd (fst (tick (example_pass (Landed ''/Volumes/Media'')) (reconnector_init 501 ''pi'' 5, []))))
     = Some [\<lparr>row_id = ''nas'', row_state = Connected, row_message = Mounted_at ''/Volumes/Media'',
              row_retryable = False, row_mountpoint = Some ''/Volumes/Media''\<rparr>]"
proof -
  let ?p = "example_pass (Landed ''/Volumes/Media'')" and ?r = "reconnector_init 501 ''pi'' 5"
  have mine: "mine_of ?p q = [example_record_doc]" if "rc_username q = ''pi''" for q
    using that by (simp add: mine_of_def read_connections_def example_pass_def example_record_doc_def get_def
        List.map_filter_simps Let_def)
  have N: "notice ?p ?r = ?r\<lparr>rc_last_clocks := Some (10, 10)\<rparr>"
    by (simp add: notice_def slept_def example_pass_def reconnector_init_def not_yet_def Let_def)
  have M: "mine_of ?p (?r\<lparr>rc_last_clocks := Some (10, 10)\<rparr>) = [example_record_doc]"
    by (rule mine) (simp add: reconnector_init_def)
  have S: "rc_id ` set [example_record_doc] = {''nas''}" by (simp add: example_rc_id)
  have start: "tick ?p (?r, []) = (case consider_all ?p False [example_record_doc]
      (snd (read_connections (pa_list ?p) (?r\<lparr>rc_last_clocks := Some (10, 10)\<rparr>)), []) of
        (s', Some e) \<Rightarrow> (s', Some e) | ((r3, tr3), None) \<Rightarrow> (report (drop_tracks {''nas''} r3, tr3), None))"
    unfolding tick_def Let_def prod.case N M S by (simp add: not_yet_def reconnector_init_def)
  have none: "get example_record_doc ''disconnected'' = JNull" "get example_record_doc ''auto_connect'' = JNull"
    by (simp_all add: example_record_doc_def get_def)
  have "track_of example_record_doc q = new_track (conn_key example_record_doc)" if "rc_tracks q = []" for q
    using that by (simp add: track_of_def)
  then have "snd (tick ?p (?r, [])) = None" and "states (fst (fst (tick ?p (?r, [])))) =
      [\<lparr>row_id = ''nas'', row_state = Connected, row_message = Mounted_at ''/Volumes/Media'',
              row_retryable = False, row_mountpoint = Some ''/Volumes/Media''\<rparr>]"
    unfolding start
    by (simp_all add: consider_one_def decide_track_def see_gone_def see_disconnected_def automatic_def new_track_def
        read_connections_def example_pass_def mount_table_def reconnector_init_def Let_def settle_def example_rc_id
        drop_tracks_def report_def states_def put_track_def none)
  with daemon_is_told_the_current_states [OF rtranclp.rtrancl_refl] show ?thesis by metis
qed

subsection \<open>A pass that a long outage breaks\<close>

text \<open>The doubling is computed before the cap is applied, and \<open>2 ** failures\<close> stops fitting a float after
  1,023 failures: at the thirty-second cap that is eight and a half hours of a server being away. From
  then on the attempt raises, its backoff is not set, and the connections after it in the list are not
  looked at.\<close>

lemma long_outage_breaks_the_pass:
  assumes "map_of (rc_tracks r) (rc_id c) = Some t" and "tr_key t = conn_key c" and "tr_failures t \<ge> 1023"
    and "tr_mounted_at t = None" and "tr_held t = None" and "tr_next_try t \<le> pa_now p"
    and "\<not> truthy (get c ''disconnected'')" and "automatic c"
    and "map_of (mount_table (rc_uid r) (pa_table p)) (conn_key c) = None"
    and "pa_mount p tr c = (Netfs_error msg True why, took)" and "pa_during p tr c = []"
  shows "\<exists>r' t'. consider_all p trouble (c # cs) (r, tr) = ((r', tr @ [Attempt (rc_id c)]), Some OverflowError)
    \<and> map_of (rc_tracks r') (rc_id c) = Some t' \<and> tr_failures t' \<ge> 1023 \<and> tr_next_try t' = tr_next_try t"
proof -
  have "track_of c r = t" using assms(1,2) by (simp add: track_of_def)
  moreover have "decide_track c None (pa_now p) trouble t = (t, True)"
    using assms(4-8) by (simp add: decide_track_def see_gone_def see_disconnected_def Let_def)
  ultimately show ?thesis using assms(3,9-11)
    by (simp add: consider_one_def Let_def settle_def failed_def)
qed

end
