(* ===== verification/Files.thy ===== *)
theory Files
  imports Systemd Paths Operations
begin

text \<open>
  The machine under the daemon, as far as the modelled code touches it: files and directories by
  their components, the kernel's mount table, and whatever else external commands act on (\<open>ext\<close>). Each
  operating system call can fail in any state: which ones do is the \<open>faults\<close> argument, so that a theorem over
  all of it covers every failing run. \<^verbatim>\<open>smbpal/system/atomic.py\<close> is the way every file is written.

  A path is absolute, without \<open>..\<close> (the schema refuses it) and without symbolic links; file contents are
  the text their UTF-8 bytes decode to; the process is root with umask 022.
\<close>

subsection \<open>Files and directories\<close>

type_synonym path = "string list"

definition components :: "string \<Rightarrow> path" where
  "components p = filter (\<lambda>w. w \<noteq> [] \<and> w \<noteq> ''.'') (split_char slash p)"

datatype node = Directory (owner: int) (group: int) (mode: int) | Regular (content: string) (mode: int)

record 'x host =
  files :: "(path \<times> node) list"
  mountinfo :: "string option"
  ext :: 'x

datatype os_error =
    ENOENT | EEXIST | EPERM | EACCES | ENOTDIR | EISDIR | ENOTEMPTY | EBADF | ELOOP | ENOSPC | EROFS
  | ENODEV | ENOTCONN | EHOSTDOWN | ETIMEDOUT | ESTALE | EIO | EREMOTEIO | EBUSY

type_synonym 'a os = "os_error + 'a"

datatype os_call =
    Stat path | Read path | Make_dir path | Make_temp path | Write path | Sync path | Chmod path | Chown path
  | Replace path | Unlink path | Remove_dir path | List_dir path

type_synonym 'x faults = "os_call \<Rightarrow> 'x host \<Rightarrow> os_error option"

definition look :: "'x host \<Rightarrow> path \<Rightarrow> node option" where
  "look h p = map_of (files h) p"

definition put :: "path \<Rightarrow> node \<Rightarrow> 'x host \<Rightarrow> 'x host" where
  "put p n h = h\<lparr>files := AList.update p n (files h)\<rparr>"

definition discard :: "path \<Rightarrow> 'x host \<Rightarrow> 'x host" where
  "discard p h = h\<lparr>files := AList.delete p (files h)\<rparr>"

lemma look_put [simp]: "look (put p n h) q = (if q = p then Some n else look h q)"
  by (simp add: look_def put_def)

lemma look_discard [simp]: "look (discard p h) q = (if q = p then None else look h q)"
  by (simp add: look_def discard_def)

lemma put_rest [simp]: "mountinfo (put p n h) = mountinfo h" "ext (put p n h) = ext h"
  and discard_rest [simp]: "mountinfo (discard p h) = mountinfo h" "ext (discard p h) = ext h"
  by (simp_all add: put_def discard_def)

subsection \<open>Calls that read\<close>

definition stat_at :: "'x faults \<Rightarrow> path \<Rightarrow> 'x host \<Rightarrow> node os" where
  "stat_at flt p h =
     (case flt (Stat p) h of
        Some e \<Rightarrow> Inl e
      | None \<Rightarrow> (case look h p of None \<Rightarrow> Inl ENOENT | Some n \<Rightarrow> Inr n))"

text \<open>\<open>Path.exists\<close> and \<open>Path.is_dir\<close> swallow four errors and raise the others.\<close>

definition swallowed :: "os_error \<Rightarrow> bool" where
  "swallowed e = (e \<in> {ENOENT, ENOTDIR, EBADF, ELOOP})"

definition exists_at :: "'x faults \<Rightarrow> path \<Rightarrow> 'x host \<Rightarrow> bool os" where
  "exists_at flt p h =
     (case stat_at flt p h of Inr _ \<Rightarrow> Inr True | Inl e \<Rightarrow> if swallowed e then Inr False else Inl e)"

definition is_directory :: "node \<Rightarrow> bool" where
  "is_directory n = (case n of Directory _ _ _ \<Rightarrow> True | Regular _ _ \<Rightarrow> False)"

definition is_dir_at :: "'x faults \<Rightarrow> path \<Rightarrow> 'x host \<Rightarrow> bool os" where
  "is_dir_at flt p h =
     (case stat_at flt p h of Inr n \<Rightarrow> Inr (is_directory n) | Inl e \<Rightarrow> if swallowed e then Inr False else Inl e)"

text \<open>Reading in text mode: every CR LF and every CR becomes a newline.\<close>

fun newlines_from :: "bool \<Rightarrow> string \<Rightarrow> string" where
  "newlines_from after_cr [] = []"
| "newlines_from after_cr (c # cs) =
     (if c = lf \<and> after_cr then newlines_from False cs
      else (if c = cr then lf else c) # newlines_from (c = cr) cs)"

definition universal :: "string \<Rightarrow> string" where
  "universal s = newlines_from False s"

lemma universal_id: "cr \<notin> set s \<Longrightarrow> universal s = s"
  unfolding universal_def by (induction s) auto

definition read_text :: "'x faults \<Rightarrow> path \<Rightarrow> 'x host \<Rightarrow> string os" where
  "read_text flt p h =
     (case flt (Read p) h of
        Some e \<Rightarrow> Inl e
      | None \<Rightarrow> (case look h p of
                  None \<Rightarrow> Inl ENOENT
                | Some (Directory _ _ _) \<Rightarrow> Inl EISDIR
                | Some (Regular s _) \<Rightarrow> Inr (universal s)))"

text \<open>The names in a directory, each once.\<close>

definition names_in :: "path \<Rightarrow> 'x host \<Rightarrow> string list" where
  "names_in d h = remdups (map last (filter (\<lambda>p. p \<noteq> [] \<and> butlast p = d) (map fst (files h))))"

lemma names_in_iff: "n \<in> set (names_in d h) \<longleftrightarrow> look h (d @ [n]) \<noteq> None"
proof -
  have "n \<in> set (names_in d h) \<longleftrightarrow> (\<exists>p \<in> fst ` set (files h). p \<noteq> [] \<and> butlast p = d \<and> last p = n)"
    by (auto simp: names_in_def)
  also have "\<dots> \<longleftrightarrow> d @ [n] \<in> fst ` set (files h)"
    by (metis append_butlast_last_id butlast_snoc last_snoc snoc_eq_iff_butlast)
  also have "\<dots> \<longleftrightarrow> look h (d @ [n]) \<noteq> None" by (simp add: look_def map_of_eq_None_iff)
  finally show ?thesis .
qed

subsection \<open>Calls that change the machine\<close>

definition attempt :: "'x faults \<Rightarrow> os_call \<Rightarrow> ('x host \<Rightarrow> unit os \<times> 'x host) \<Rightarrow> 'x host \<Rightarrow> unit os \<times> 'x host" where
  "attempt flt call act h = (case flt call h of Some e \<Rightarrow> (Inl e, h) | None \<Rightarrow> act h)"

definition unlink :: "'x faults \<Rightarrow> path \<Rightarrow> 'x host \<Rightarrow> unit os \<times> 'x host" where
  "unlink flt p = attempt flt (Unlink p) (\<lambda>h.
     case look h p of
       None \<Rightarrow> (Inl ENOENT, h)
     | Some (Directory _ _ _) \<Rightarrow> (Inl EISDIR, h)
     | Some (Regular _ _) \<Rightarrow> (Inr (), discard p h))"

definition unlink_missing_ok :: "'x faults \<Rightarrow> path \<Rightarrow> 'x host \<Rightarrow> unit os \<times> 'x host" where
  "unlink_missing_ok flt p h = (case unlink flt p h of (Inl ENOENT, h') \<Rightarrow> (Inr (), h') | r \<Rightarrow> r)"

definition chmod :: "'x faults \<Rightarrow> path \<Rightarrow> int \<Rightarrow> 'x host \<Rightarrow> unit os \<times> 'x host" where
  "chmod flt p m = attempt flt (Chmod p) (\<lambda>h.
     case look h p of
       None \<Rightarrow> (Inl ENOENT, h)
     | Some (Directory u g _) \<Rightarrow> (Inr (), put p (Directory u g m) h)
     | Some (Regular s _) \<Rightarrow> (Inr (), put p (Regular s m) h))"

definition chown :: "'x faults \<Rightarrow> path \<Rightarrow> int \<Rightarrow> int \<Rightarrow> 'x host \<Rightarrow> unit os \<times> 'x host" where
  "chown flt p u g = attempt flt (Chown p) (\<lambda>h.
     case look h p of
       None \<Rightarrow> (Inl ENOENT, h)
     | Some (Directory _ _ m) \<Rightarrow> (Inr (), put p (Directory u g m) h)
     | Some (Regular s m) \<Rightarrow> (Inr (), h))"

text \<open>\<open>rmdir\<close> refuses a directory that has an entry and one that something is mounted on.\<close>

definition rmdir :: "'x faults \<Rightarrow> path \<Rightarrow> bool \<Rightarrow> 'x host \<Rightarrow> unit os \<times> 'x host" where
  "rmdir flt p mounted = attempt flt (Remove_dir p) (\<lambda>h.
     case look h p of
       None \<Rightarrow> (Inl ENOENT, h)
     | Some (Regular _ _) \<Rightarrow> (Inl ENOTDIR, h)
     | Some (Directory _ _ _) \<Rightarrow>
         if mounted then (Inl EBUSY, h)
         else if names_in p h \<noteq> [] then (Inl ENOTEMPTY, h)
         else (Inr (), discard p h))"

text \<open>\<open>mkdir(parents=True, exist_ok=True)\<close>: the directories from the root down, each made if it is not there;
  the last one with the mode asked for.\<close>

fun make_dirs :: "'x faults \<Rightarrow> (path \<times> int) list \<Rightarrow> 'x host \<Rightarrow> unit os \<times> 'x host" where
  "make_dirs flt [] h = (Inr (), h)"
| "make_dirs flt ((d, m) # ds) h =
     (case look h d of
        Some (Directory _ _ _) \<Rightarrow> make_dirs flt ds h
      | Some (Regular _ _) \<Rightarrow> (Inl ENOTDIR, h)
      | None \<Rightarrow>
          (case flt (Make_dir d) h of
             Some e \<Rightarrow> (Inl e, h)
           | None \<Rightarrow> make_dirs flt ds (put d (Directory 0 0 m) h)))"

definition ancestors :: "path \<Rightarrow> path list" where
  "ancestors p = map (\<lambda>n. take n p) [1..<length p]"

definition dir_chain :: "path \<Rightarrow> int \<Rightarrow> (path \<times> int) list" where
  "dir_chain d m = map (\<lambda>a. (a, 493)) (ancestors d) @ (if d = [] then [] else [(d, m)])"

subsection \<open>Writing a file\<close>

definition TEMP_MODE :: int where "TEMP_MODE = 384"

text \<open>\<open>mkstemp\<close>: a name beside the file that is not taken.\<close>

definition temp_path :: "path \<Rightarrow> 'x host \<Rightarrow> path" where
  "temp_path p h =
     (let stem = ''.'' @ last p @ ''-''
      in butlast p @ [numbered stem (free_suffix stem (names_in (butlast p) h) 0)])"

fun run_calls ::
    "'x faults \<Rightarrow> (os_call \<times> ('x host \<Rightarrow> 'x host os)) list \<Rightarrow> 'x host \<Rightarrow> os_error option \<times> 'x host list" where
  "run_calls flt [] h = (None, [])"
| "run_calls flt ((call, act) # cs) h =
     (case flt call h of
        Some e \<Rightarrow> (Some e, [])
      | None \<Rightarrow>
          (case act h of
             Inl e \<Rightarrow> (Some e, [])
           | Inr h' \<Rightarrow> (case run_calls flt cs h' of (r, hs) \<Rightarrow> (r, h' # hs))))"

text \<open>\<open>os.replace\<close> refuses to put a file where a directory is.\<close>

definition rename_over :: "path \<Rightarrow> path \<Rightarrow> string \<Rightarrow> int \<Rightarrow> 'x host \<Rightarrow> 'x host os" where
  "rename_over tmp p txt m h =
     (case look h p of
        Some (Directory _ _ _) \<Rightarrow> Inl EISDIR
      | _ \<Rightarrow> Inr (put p (Regular txt m) (discard tmp h)))"

definition fill_calls :: "path \<Rightarrow> path \<Rightarrow> string \<Rightarrow> int \<Rightarrow> (os_call \<times> ('x host \<Rightarrow> 'x host os)) list" where
  "fill_calls tmp p txt m =
     [(Write tmp, \<lambda>h. Inr (put tmp (Regular txt TEMP_MODE) h)), (Sync tmp, Inr),
      (Chmod tmp, \<lambda>h. Inr (put tmp (Regular txt m) h)), (Replace p, rename_over tmp p txt m)]"

text \<open>Everything a reader could meet on the way: the states after each call, in order, and the error the
  caller gets. The call that syncs the directory changes nothing a reader sees and its errors are ignored.\<close>

definition replace_trail ::
    "'x faults \<Rightarrow> path \<Rightarrow> string \<Rightarrow> int \<Rightarrow> 'x host \<Rightarrow> os_error option \<times> 'x host list" where
  "replace_trail flt p txt m h =
     (let tmp = temp_path p h in
      case flt (Make_temp tmp) h of
        Some e \<Rightarrow> (Some e, [h])
      | None \<Rightarrow>
          (let h1 = put tmp (Regular [] TEMP_MODE) h in
           case run_calls flt (fill_calls tmp p txt m) h1 of
             (None, hs) \<Rightarrow> (None, h # h1 # hs)
           | (Some e, hs) \<Rightarrow>
               (case unlink_missing_ok flt tmp (last (h1 # hs)) of
                  (Inl e', h') \<Rightarrow> (Some e', h # h1 # hs @ [h'])
                | (Inr _, h') \<Rightarrow> (Some e, h # h1 # hs @ [h']))))"

definition write_trail ::
    "'x faults \<Rightarrow> path \<Rightarrow> string \<Rightarrow> int \<Rightarrow> int \<Rightarrow> 'x host \<Rightarrow> os_error option \<times> 'x host list" where
  "write_trail flt p txt m dir_mode h =
     (case make_dirs flt (dir_chain (butlast p) dir_mode) h of
        (Inl e, h') \<Rightarrow> (Some e, [h'])
      | (Inr _, h') \<Rightarrow> replace_trail flt p txt m h')"

definition write_text ::
    "'x faults \<Rightarrow> path \<Rightarrow> string \<Rightarrow> int \<Rightarrow> int \<Rightarrow> 'x host \<Rightarrow> unit os \<times> 'x host" where
  "write_text flt p txt m dir_mode h =
     (case write_trail flt p txt m dir_mode h of
        (None, hs) \<Rightarrow> (Inr (), last hs)
      | (Some e, hs) \<Rightarrow> (Inl e, last hs))"

subsection \<open>Operations in sequence\<close>

text \<open>An operation returns a value or raises, and leaves a machine either way; \<open>then_do\<close> goes on only after a
  return. \<open>raising\<close> turns the error of a system call into the exception the caller raises from it.\<close>

abbreviation then_do :: "'a res \<times> 'h \<Rightarrow> ('a \<Rightarrow> 'h \<Rightarrow> 'b res \<times> 'h) \<Rightarrow> 'b res \<times> 'h" where
  "then_do rh f \<equiv> (case rh of (Inl e, h) \<Rightarrow> (Inl e, h) | (Inr x, h) \<Rightarrow> f x h)"

definition raise_as :: "(os_error \<Rightarrow> py_error) \<Rightarrow> 'a os \<Rightarrow> 'a res" where
  "raise_as mk r = (case r of Inl e \<Rightarrow> Inl (mk e) | Inr x \<Rightarrow> Inr x)"

definition raising :: "(os_error \<Rightarrow> py_error) \<Rightarrow> 'a os \<times> 'h \<Rightarrow> 'a res \<times> 'h" where
  "raising mk rh = (raise_as mk (fst rh), snd rh)"

lemma then_do_Inr:
  "then_do rh f = (Inr y, h') \<longleftrightarrow> (\<exists>x h. rh = (Inr x, h) \<and> f x h = (Inr y, h'))"
  by (cases rh; cases "fst rh") auto

lemma then_do_keeps:
  assumes "P (snd x)" and "\<And>v w. x = (Inr v, w) \<Longrightarrow> P w \<Longrightarrow> P (snd (f v w))"
  shows "P (snd (then_do x f))"
proof (cases x)
  case (Pair r w)
  with assms show ?thesis by (cases r) simp_all
qed

lemma then_do_quiet:
  assumes "snd x = w" and "\<And>v. fst x = Inr v \<Longrightarrow> Q (f v w)" and "\<And>e. fst x = Inl e \<Longrightarrow> Q (Inl e, w)"
  shows "Q (then_do x f)"
proof (cases x)
  case (Pair r w')
  with assms show ?thesis by (cases r) simp_all
qed

lemma raise_as_Inr [simp]: "raise_as mk r = Inr x \<longleftrightarrow> r = Inr x"
  by (auto simp: raise_as_def split: sum.splits)

lemma raise_as_simps [simp]: "raise_as mk (Inr x) = Inr x" "raise_as mk (Inl e) = Inl (mk e)"
  by (simp_all add: raise_as_def)

lemma raising_Inr [simp]: "raising mk rh = (Inr x, h) \<longleftrightarrow> rh = (Inr x, h)"
  by (cases rh) (auto simp: raising_def)

text \<open>The system a component works on: which calls fail, what a command does, and the user database.\<close>

record accounts =
  by_name :: "string \<Rightarrow> (int \<times> int) option"
  by_uid :: "int \<Rightarrow> string option"
  all_groups :: "(int \<times> string list) list"

record 'x system =
  faults_of :: "'x faults"
  exec_of :: "'x host exec"
  accounts_of :: accounts

end
