(* ===== verification/Atomic.thy ===== *)
theory Atomic
  imports Files
begin

text \<open>
  What a reader can meet while a file is written (\<^verbatim>\<open>smbpal/system/atomic.py\<close>), whatever call fails and
  wherever the process is stopped: every state the writing goes through is one of the trail.
\<close>

lemma make_dirs_keeps: "make_dirs flt ds h = (r, h') \<Longrightarrow> look h q \<noteq> None \<Longrightarrow> look h' q = look h q"
  by (induction flt ds h rule: make_dirs.induct) (auto split: option.splits node.splits if_splits)

lemma make_dirs_other: "make_dirs flt ds h = (r, h') \<Longrightarrow> q \<notin> fst ` set ds \<Longrightarrow> look h' q = look h q"
  by (induction flt ds h rule: make_dirs.induct) (auto split: option.splits node.splits if_splits)

lemma make_dirs_new:
  "make_dirs flt ds h = (r, h') \<Longrightarrow> look h' q \<noteq> look h q \<Longrightarrow> \<exists>m. look h' q = Some (Directory 0 0 m)"
proof (induction flt ds h rule: make_dirs.induct)
  case (2 flt d m ds h)
  consider "\<exists>u g k. look h d = Some (Directory u g k)" | "\<exists>s k. look h d = Some (Regular s k)" | "look h d = None"
    by (metis node.exhaust not_None_eq)
  then show ?case
  proof cases
    case 3
    show ?thesis
    proof (cases "flt (Make_dir d) h")
      case None
      with 2 3 have run: "make_dirs flt ds (put d (Directory 0 0 m) h) = (r, h')" by simp
      show ?thesis
      proof (cases "q = d")
        case True
        then have "look h' q = Some (Directory 0 0 m)" using make_dirs_keeps [OF run, of d] by simp
        then show ?thesis by blast
      next
        case False
        then show ?thesis using "2.IH"(1) [OF 3 None run] "2.prems"(2) by simp
      qed
    qed (use 2 3 in auto)
  qed (use 2 in auto)
qed simp

lemma make_dirs_rest: "make_dirs flt ds h = (r, h') \<Longrightarrow> mountinfo h' = mountinfo h \<and> ext h' = ext h"
  by (induction flt ds h rule: make_dirs.induct) (auto split: option.splits node.splits if_splits)

lemma chain_shorter: "q \<in> fst ` set (dir_chain d m) \<Longrightarrow> length q \<le> length d"
  by (auto simp: dir_chain_def ancestors_def split: if_splits)

lemma chain_not_self: "p \<noteq> [] \<Longrightarrow> p \<notin> fst ` set (dir_chain (butlast p) m)"
  using chain_shorter [of p "butlast p" m] by (cases p rule: rev_cases) auto

lemma temp_fresh: "look h (temp_path p h) = None"
  using free_suffix_free [of "''.'' @ last p @ ''-''" "names_in (butlast p) h" 0]
  by (simp add: temp_path_def names_in_iff Let_def)

lemma temp_neq: "p \<noteq> [] \<Longrightarrow> temp_path p h \<noteq> p"
proof
  assume "temp_path p h = p"
  then have "length (last (temp_path p h)) = length (last p)" by simp
  then show False by (simp add: temp_path_def numbered_def)
qed

subsection \<open>The states on the way\<close>

definition beside :: "path \<Rightarrow> int \<Rightarrow> 'x host \<Rightarrow> 'x host \<Rightarrow> bool" where
  "beside tmp m h h' = ((\<forall>q. q \<noteq> tmp \<longrightarrow> look h' q = look h q)
     \<and> (look h' tmp = None \<or> (\<exists>s. look h' tmp = Some (Regular s TEMP_MODE) \<or> look h' tmp = Some (Regular s m)))
     \<and> mountinfo h' = mountinfo h \<and> ext h' = ext h)"

lemma run_calls_keep:
  "(\<And>c f x y. (c, f) \<in> set cs \<Longrightarrow> P x \<Longrightarrow> f x = Inr y \<Longrightarrow> P y) \<Longrightarrow> run_calls flt cs h = (r, hs) \<Longrightarrow> P h
   \<Longrightarrow> \<forall>x \<in> set (h # hs). P x"
proof (induction flt cs h arbitrary: hs rule: run_calls.induct)
  case (2 flt call act cs h)
  show ?case
  proof (cases "flt call h")
    case None
    show ?thesis
    proof (cases "act h")
      case (Inr h')
      obtain r' hs' where run: "run_calls flt cs h' = (r', hs')" by fastforce
      with "2.prems"(2) None Inr have eq: "r' = r" "hs = h' # hs'" by auto
      have "P h'" using "2.prems"(1,3) Inr by auto
      with "2.IH" [OF None Inr, of hs'] "2.prems"(1) run eq have "\<forall>x \<in> set (h' # hs'). P x" by auto
      then show ?thesis using eq "2.prems"(3) by auto
    qed (use 2 None in auto)
  qed (use 2 in auto)
qed auto

lemma run_calls_snoc:
  "run_calls flt (cs @ [(c, f)]) h =
     (case run_calls flt cs h of
        (Some e, hs) \<Rightarrow> (Some e, hs)
      | (None, hs) \<Rightarrow> (case flt c (last (h # hs)) of
                       Some e \<Rightarrow> (Some e, hs)
                     | None \<Rightarrow> (case f (last (h # hs)) of Inl e \<Rightarrow> (Some e, hs) | Inr h' \<Rightarrow> (None, hs @ [h']))))"
  by (induction flt cs h rule: run_calls.induct) (auto split: option.splits prod.splits sum.splits)

lemma beside_unlink:
  assumes "beside tmp m h x" and "unlink_missing_ok flt tmp x = (r, x')"
  shows "beside tmp m h x'" and "(\<And>g. flt (Unlink tmp) g = None) \<Longrightarrow> look x' tmp = None"
  using assms
  by (auto simp: beside_def unlink_missing_ok_def unlink_def attempt_def
      split: option.splits node.splits sum.splits os_error.splits prod.splits)

lemma replace_trail_shape:
  assumes "replace_trail flt p txt m h = (r, hs)"
  defines "tmp \<equiv> temp_path p h"
  obtains xs x where "r = None" and "hs = xs @ [put p (Regular txt m) (discard tmp x)]"
      and "\<forall>y \<in> set (x # xs). beside tmp m h y"
    | e where "r = Some e" and "hs \<noteq> []" and "\<forall>y \<in> set hs. beside tmp m h y"
      and "(\<And>g. flt (Unlink tmp) g = None) \<Longrightarrow> look (last hs) tmp = None"
proof (cases "flt (Make_temp tmp) h")
  case (Some e)
  then show ?thesis
    using that(2) [of e] assms temp_fresh [of h p] by (auto simp: replace_trail_def beside_def)
next
  case None
  note ends = that
  let ?h1 = "put tmp (Regular [] TEMP_MODE) h"
  have b0: "beside tmp m h h" and b1: "beside tmp m h ?h1"
    using temp_fresh [of h p] by (auto simp: beside_def tmp_def)
  let ?cs = "[(Write tmp, \<lambda>h. Inr (put tmp (Regular txt TEMP_MODE) h)), (Sync tmp, Inr),
    (Chmod tmp, \<lambda>h. Inr (put tmp (Regular txt m) h))]"
  let ?f = "rename_over tmp p txt m"
  obtain r1 hs1 where run: "run_calls flt ?cs ?h1 = (r1, hs1)" by fastforce
  have keep: "beside tmp m h x \<Longrightarrow> (c, f) \<in> set ?cs \<Longrightarrow> f x = Inr y \<Longrightarrow> beside tmp m h y" for c f and x y :: "'a host"
    by (auto simp: beside_def)
  have bs: "\<forall>x \<in> set (?h1 # hs1). beside tmp m h x"
    using run_calls_keep [where P = "beside tmp m h", OF _ run b1] keep by blast
  have lastb: "beside tmp m h (last (?h1 # hs1))"
  proof -
    have "last (?h1 # hs1) \<in> set (?h1 # hs1)" by (rule last_in_set) simp
    with bs show ?thesis by blast
  qed
  have fill: "run_calls flt (fill_calls tmp p txt m) ?h1 =
      (case (r1, hs1) of (Some e, hs) \<Rightarrow> (Some e, hs)
        | (None, hs) \<Rightarrow> (case flt (Replace p) (last (?h1 # hs)) of
                         Some e \<Rightarrow> (Some e, hs)
                       | None \<Rightarrow> (case ?f (last (?h1 # hs)) of Inl e \<Rightarrow> (Some e, hs) | Inr h' \<Rightarrow> (None, hs @ [h']))))"
    using run_calls_snoc [of flt ?cs "Replace p" ?f ?h1] unfolding run fill_calls_def append.simps .
  have failed: thesis if f: "run_calls flt (fill_calls tmp p txt m) ?h1 = (Some e, hs1)" for e
  proof -
    obtain ru h' where un: "unlink_missing_ok flt tmp (last (?h1 # hs1)) = (ru, h')" by fastforce
    have b': "beside tmp m h h'" by (rule beside_unlink(1) [OF lastb un])
    have "hs = h # ?h1 # hs1 @ [h'] \<and> (\<exists>e. r = Some e)"
      using assms(1) None f un unfolding replace_trail_def tmp_def [symmetric] Let_def
      by (auto split: sum.splits unit.splits)
    then show thesis
      using ends(2) b0 b1 bs b' beside_unlink(2) [OF lastb un] by auto
  qed
  show ?thesis
  proof (cases r1)
    case (Some e)
    then show ?thesis using failed fill by simp
  next
    case r1: None
    show ?thesis
    proof (cases "flt (Replace p) (last (?h1 # hs1))")
      case (Some e)
      then show ?thesis using failed fill r1 by simp
    next
      case rep: None
      show ?thesis
      proof (cases "?f (last (?h1 # hs1))")
        case (Inl e)
        then show ?thesis using failed fill r1 rep by simp
      next
        case (Inr h')
        then have h': "h' = put p (Regular txt m) (discard tmp (last (?h1 # hs1)))"
          by (auto simp: rename_over_def split: option.splits node.splits)
        have "run_calls flt (fill_calls tmp p txt m) ?h1 = (None, hs1 @ [h'])"
          using fill r1 rep Inr by simp
        then have "r = None" "hs = (h # ?h1 # hs1) @ [h']"
          using assms(1) None unfolding replace_trail_def tmp_def [symmetric] Let_def by auto
        with ends(1) [of "h # ?h1 # hs1" "last (?h1 # hs1)"] b0 bs lastb h' show ?thesis by simp
      qed
    qed
  qed
qed

subsection \<open>What comes out\<close>

text \<open>Everything but \<open>p\<close> is as it was, except for directories made on the way to it.\<close>

definition same_but :: "path \<Rightarrow> 'x host \<Rightarrow> 'x host \<Rightarrow> bool" where
  "same_but p h h' = ((\<forall>q. q \<noteq> p \<longrightarrow> look h' q = look h q \<or> look h q = None \<and> (\<exists>m. look h' q = Some (Directory 0 0 m)))
     \<and> mountinfo h' = mountinfo h \<and> ext h' = ext h)"

lemma same_but_dirs:
  "make_dirs flt (dir_chain (butlast p) m) h = (r, h') \<Longrightarrow> same_but p h h'"
  using make_dirs_new [of flt _ h r h'] make_dirs_keeps [of flt _ h r h'] make_dirs_rest [of flt _ h r h']
  unfolding same_but_def by metis

lemma same_but_file: "same_but p h h' \<Longrightarrow> q \<noteq> p \<Longrightarrow> look h' q = Some (Regular s k) \<longleftrightarrow> look h q = Some (Regular s k)"
  unfolding same_but_def by fastforce

lemma same_but_kept: "same_but p h h' \<Longrightarrow> q \<noteq> p \<Longrightarrow> look h q = Some n \<Longrightarrow> look h' q = Some n"
  unfolding same_but_def by fastforce

lemma write_trail_cases:
  assumes "write_trail flt p txt m dm h = (r, hs)" and "p \<noteq> []"
  obtains h1 xs x where "r = None" and "same_but p h h1" and "look h1 p = look h p"
      and "hs = xs @ [put p (Regular txt m) (discard (temp_path p h1) x)]"
      and "\<forall>y \<in> set (x # xs). beside (temp_path p h1) m h1 y"
    | e h1 where "r = Some e" and "hs \<noteq> []" and "same_but p h h1" and "look h1 p = look h p"
      and "\<forall>y \<in> set hs. beside (temp_path p h1) m h1 y"
      and "(\<And>q g. flt (Unlink q) g = None) \<Longrightarrow> look (last hs) (temp_path p h1) = None"
proof -
  obtain rd h1 where dirs: "make_dirs flt (dir_chain (butlast p) dm) h = (rd, h1)" by fastforce
  have sb: "same_but p h h1" by (rule same_but_dirs [OF dirs])
  have p: "look h1 p = look h p" by (rule make_dirs_other [OF dirs chain_not_self [OF assms(2)]])
  show thesis
  proof (cases rd)
    case (Inl e)
    then show ?thesis
      using that(2) [of e h1] assms(1) dirs sb p temp_fresh [of h1 p] by (auto simp: write_trail_def beside_def)
  next
    case (Inr u)
    then have "replace_trail flt p txt m h1 = (r, hs)" using assms(1) dirs by (simp add: write_trail_def)
    then show ?thesis by (rule replace_trail_shape) (use that sb p in blast)+
  qed
qed

lemma done_look:
  assumes "beside (temp_path p h1) m h1 x" and "q \<noteq> p"
  shows "look (put p n (discard (temp_path p h1) x)) q = look h1 q"
  using assms temp_fresh [of h1 p] by (cases "q = temp_path p h1") (simp_all add: beside_def)

lemma write_text_done:
  assumes "write_text flt p txt m dm h = (Inr u, h')" and "p \<noteq> []"
  shows "look h' p = Some (Regular txt m) \<and> same_but p h h'"
proof -
  obtain hs where t: "write_trail flt p txt m dm h = (None, hs)" "h' = last hs"
    using assms(1) by (auto simp: write_text_def split: prod.splits option.splits)
  show ?thesis
  proof (rule write_trail_cases [OF t(1) assms(2)])
    fix h1 xs x
    assume a: "same_but p h h1" "hs = xs @ [put p (Regular txt m) (discard (temp_path p h1) x)]"
      "\<forall>y \<in> set (x # xs). beside (temp_path p h1) m h1 y"
    have b: "beside (temp_path p h1) m h1 x" using a(3) by simp
    have "mountinfo h' = mountinfo h1 \<and> ext h' = ext h1 \<and> (\<forall>q. q \<noteq> p \<longrightarrow> look h' q = look h1 q)"
      using done_look [OF b] b by (simp add: t(2) a(2) beside_def)
    then show ?thesis using a(1) by (simp add: t(2) a(2) same_but_def)
  qed simp
qed

lemma write_text_failed:
  assumes "write_text flt p txt m dm h = (Inl e, h')" and "p \<noteq> []"
  shows "look h' p = look h p"
proof -
  obtain hs where t: "write_trail flt p txt m dm h = (Some e, hs)" "h' = last hs"
    using assms(1) by (auto simp: write_text_def split: prod.splits option.splits)
  show ?thesis
  proof (rule write_trail_cases [OF t(1) assms(2)])
    fix e' h1 assume hs: "hs \<noteq> []" "look h1 p = look h p" "\<forall>y \<in> set hs. beside (temp_path p h1) m h1 y"
    then have "beside (temp_path p h1) m h1 (last hs)" using last_in_set by blast
    then show ?thesis using hs(2) temp_neq [OF assms(2), of h1] t(2) by (auto simp: beside_def)
  qed simp
qed

lemma beside_way:
  assumes "beside (temp_path p h1) m h1 y" and "same_but p h h1" and "look h1 p = look h p" and "p \<noteq> []"
  shows "(look y p = look h p) \<and> (\<forall>q s k. look y q = Some (Regular s k) \<longrightarrow> look h q = Some (Regular s k) \<or> k = TEMP_MODE \<or> k = m)
      \<and> (look y (temp_path p h1) = None \<longrightarrow> (\<forall>q s k. look y q = Some (Regular s k) \<longleftrightarrow> look h q = Some (Regular s k)))"
proof -
  let ?t = "temp_path p h1"
  have reg: "look h1 q = Some (Regular s k) \<longleftrightarrow> look h q = Some (Regular s k)" for q s k
    using same_but_file [OF assms(2)] assms(3) by (cases "q = p") auto
  have tmp: "?t \<noteq> p" "look h1 ?t = None" using temp_neq [OF assms(4)] temp_fresh by auto
  have y: "look y q = look h1 q" if "q \<noteq> ?t" for q using assms(1) that by (simp add: beside_def)
  have t: "k = TEMP_MODE \<or> k = m" if "look y ?t = Some (Regular s k)" for s k
    using assms(1) that by (auto simp: beside_def)
  have "look h q = Some (Regular s k) \<or> k = TEMP_MODE \<or> k = m" if "look y q = Some (Regular s k)" for q s k
    using that y reg t by (cases "q = ?t") auto
  moreover have "look y q = Some (Regular s k) \<longleftrightarrow> look h q = Some (Regular s k)" if "look y ?t = None" for q s k
    using that y [of q] reg [of q s k] tmp(2) by (cases "q = ?t") auto
  ultimately show ?thesis using y [of p] tmp(1) assms(3) by simp
qed

text \<open>Whatever comes of a write, the other files are as they were and the mount table is not touched.\<close>

lemma write_text_spares:
  assumes "write_text flt p txt m dm h = (r, h')" and "p \<noteq> []"
  shows "q \<noteq> p \<Longrightarrow> look h q = Some n \<Longrightarrow> look h' q = Some n" and "mountinfo h' = mountinfo h" and "ext h' = ext h"
proof -
  obtain e hs where t: "write_trail flt p txt m dm h = (e, hs)" "h' = last hs"
    using assms(1) by (auto simp: write_text_def split: prod.splits option.splits)
  have "(q \<noteq> p \<longrightarrow> look h q = Some n \<longrightarrow> look h' q = Some n) \<and> mountinfo h' = mountinfo h \<and> ext h' = ext h"
  proof (rule write_trail_cases [OF t(1) assms(2)])
    fix h1 xs x
    assume a: "same_but p h h1" "hs = xs @ [put p (Regular txt m) (discard (temp_path p h1) x)]"
      "\<forall>y \<in> set (x # xs). beside (temp_path p h1) m h1 y"
    have b: "beside (temp_path p h1) m h1 x" using a(3) by simp
    then show ?thesis using done_look [OF b] a(1) same_but_kept [OF a(1)]
      by (simp add: t(2) a(2) beside_def same_but_def)
  next
    fix e h1
    assume a: "hs \<noteq> []" "same_but p h h1" "\<forall>y \<in> set hs. beside (temp_path p h1) m h1 y"
    then have b: "beside (temp_path p h1) m h1 h'" using last_in_set [OF a(1)] t(2) by blast
    have "look h' q = Some n" if "q \<noteq> p" "look h q = Some n"
    proof -
      have "look h1 q = Some n" by (rule same_but_kept [OF a(2) that])
      moreover from this have "q \<noteq> temp_path p h1" using temp_fresh [of h1 p] by auto
      ultimately show ?thesis using b by (simp add: beside_def)
    qed
    then show ?thesis using b a(2) by (simp add: beside_def same_but_def)
  qed
  then show "q \<noteq> p \<Longrightarrow> look h q = Some n \<Longrightarrow> look h' q = Some n" and "mountinfo h' = mountinfo h" and "ext h' = ext h"
    by blast+
qed

text \<open>A write whose calls all work, to a place that is not a directory under directories that are there, returns.\<close>

lemma make_dirs_there:
  "\<forall>(d, m) \<in> set ds. \<exists>u g k. look h d = Some (Directory u g k) \<Longrightarrow> make_dirs flt ds h = (Inr (), h)"
  by (induction flt ds h rule: make_dirs.induct) (auto split: option.splits node.splits)

lemma write_text_returns:
  assumes "\<And>c x. flt c x = None" and "p \<noteq> []" and "\<forall>u g k. look h p \<noteq> Some (Directory u g k)"
    and "\<forall>d \<in> set (ancestors p). \<exists>u g k. look h d = Some (Directory u g k)"
  shows "\<exists>h'. write_text flt p txt m dm h = (Inr (), h') \<and> look h' p = Some (Regular txt m)
    \<and> (\<forall>q. q \<noteq> p \<longrightarrow> look h' q = look h q)"
proof -
  have "set (map fst (dir_chain (butlast p) dm)) \<subseteq> set (ancestors p)"
  proof
    fix d assume "d \<in> set (map fst (dir_chain (butlast p) dm))"
    then consider "d = butlast p" "butlast p \<noteq> []" | k where "d = take k (butlast p)" "1 \<le> k" "k < length (butlast p)"
      by (auto simp: dir_chain_def ancestors_def split: if_splits)
    then obtain k where "d = take k (butlast p)" "1 \<le> k" "k \<le> length (butlast p)"
    proof cases
      case 1
      then have "1 \<le> length (butlast p)" unfolding Suc_le_eq One_nat_def length_greater_0_conv by blast
      moreover have "d = take (length (butlast p)) (butlast p)" unfolding take_all_iff 1 by (rule take_all [symmetric]) simp
      ultimately show ?thesis using that by blast
    next
      case (2 k)
      then show ?thesis using that [of k] by simp
    qed
    moreover have "length (butlast p) < length p" using assms(2) by simp
    ultimately have "k < length p" "1 \<le> k" "d = take k p" by (simp_all add: take_butlast)
    then have "k \<in> set [1..<length p]" "d = take k p" by simp_all
    then show "d \<in> set (ancestors p)" unfolding ancestors_def set_map by (intro image_eqI)
  qed
  then have "x \<in> set (dir_chain (butlast p) dm) \<Longrightarrow> fst x \<in> set (ancestors p)" for x by auto
  then have "\<forall>x \<in> set (dir_chain (butlast p) dm). case x of (d, m) \<Rightarrow> \<exists>u g k. look h d = Some (Directory u g k)"
    using assms(4) by (simp add: split_beta)
  then have dirs: "make_dirs flt (dir_chain (butlast p) dm) h = (Inr (), h)" by (rule make_dirs_there)
  have neq: "temp_path p h \<noteq> p" by (rule temp_neq [OF assms(2)])
  let ?x = "put (temp_path p h) (Regular txt m) (put (temp_path p h) (Regular txt TEMP_MODE) (put (temp_path p h) (Regular [] TEMP_MODE) h))"
  have "look ?x p = look h p" using neq by simp
  then have "\<not> isl (rename_over (temp_path p h) p txt m ?x)"
    using assms(3) by (auto simp: rename_over_def split: option.splits node.splits)
  then obtain y where "rename_over (temp_path p h) p txt m ?x = Inr y" by (metis sum.collapse(2))
  then have trail: "fst (replace_trail flt p txt m h) = None"
    by (simp add: replace_trail_def fill_calls_def Let_def assms(1))
  then obtain hs where hs: "replace_trail flt p txt m h = (None, hs)" by (metis prod.collapse)
  then have w: "write_text flt p txt m dm h = (Inr (), last hs)" using dirs by (simp add: write_text_def write_trail_def)
  have "look (last hs) q = look h q" if "q \<noteq> p" for q
  proof (rule replace_trail_shape [OF hs])
    fix xs x
    assume a: "hs = xs @ [put p (Regular txt m) (discard (temp_path p h) x)]"
      "\<forall>y \<in> set (x # xs). beside (temp_path p h) m h y"
    then have "beside (temp_path p h) m h x" by simp
    from done_look [OF this that] show ?thesis unfolding a(1) last_snoc .
  qed simp
  then show ?thesis using w write_text_done [OF w assms(2)] by blast
qed

lemma trail_way:
  assumes "write_trail flt p txt m dm h = (r, hs)" and "p \<noteq> []" and "y \<in> set hs"
  shows "look y p = look h p \<or> look y p = Some (Regular txt m)"
    and "look y q = Some (Regular s k) \<Longrightarrow> look h q = Some (Regular s k) \<or> k = TEMP_MODE \<or> k = m"
proof -
  note way = beside_way [OF _ _ _ assms(2)]
  have "(look y p = look h p \<or> look y p = Some (Regular txt m))
    \<and> (look y q = Some (Regular s k) \<longrightarrow> look h q = Some (Regular s k) \<or> k = TEMP_MODE \<or> k = m)"
  proof (rule write_trail_cases [OF assms(1,2)])
    fix h1 xs x
    assume a: "same_but p h h1" "look h1 p = look h p"
      "hs = xs @ [put p (Regular txt m) (discard (temp_path p h1) x)]" "\<forall>y \<in> set (x # xs). beside (temp_path p h1) m h1 y"
    let ?d = "discard (temp_path p h1) x"
    have b: "beside (temp_path p h1) m h1 ?d" using a(4) by (simp add: beside_def)
    show ?thesis
    proof (cases "y \<in> set xs")
      case True
      then have "beside (temp_path p h1) m h1 y" using a(4) by simp
      from way [OF this a(1,2)] show ?thesis by blast
    next
      case False
      then have y: "y = put p (Regular txt m) ?d" using assms(3) by (auto simp: a(3))
      show ?thesis using way [OF b a(1,2)] unfolding y look_put by (cases "q = p") auto
    qed
  next
    fix e h1
    assume a: "same_but p h h1" "look h1 p = look h p" "\<forall>y \<in> set hs. beside (temp_path p h1) m h1 y"
    then have "beside (temp_path p h1) m h1 y" using assms(3) by blast
    from way [OF this a(1,2)] show ?thesis by blast
  qed
  then show "look y p = look h p \<or> look y p = Some (Regular txt m)"
    and "look y q = Some (Regular s k) \<Longrightarrow> look h q = Some (Regular s k) \<or> k = TEMP_MODE \<or> k = m" by blast+
qed

lemma trail_ends:
  assumes "write_trail flt p txt m dm h = (r, hs)" and "p \<noteq> []"
  shows "r = None \<Longrightarrow> look (last hs) p = Some (Regular txt m)
         \<and> (\<forall>q s k. q \<noteq> p \<longrightarrow> (look (last hs) q = Some (Regular s k) \<longleftrightarrow> look h q = Some (Regular s k)))"
    and "r \<noteq> None \<Longrightarrow> (\<forall>q g. flt (Unlink q) g = None) \<Longrightarrow>
         look (last hs) q = Some (Regular s k) \<longleftrightarrow> look h q = Some (Regular s k)"
proof -
  assume "r = None"
  then have "write_text flt p txt m dm h = (Inr (), last hs)" using assms(1) by (simp add: write_text_def)
  from write_text_done [OF this assms(2)] same_but_file
  show "look (last hs) p = Some (Regular txt m)
         \<and> (\<forall>q s k. q \<noteq> p \<longrightarrow> (look (last hs) q = Some (Regular s k) \<longleftrightarrow> look h q = Some (Regular s k)))" by blast
next
  assume r: "r \<noteq> None" and u: "\<forall>q g. flt (Unlink q) g = None"
  show "look (last hs) q = Some (Regular s k) \<longleftrightarrow> look h q = Some (Regular s k)"
  proof (rule write_trail_cases [OF assms])
    fix e h1
    assume a: "hs \<noteq> []" "same_but p h h1" "look h1 p = look h p" "\<forall>y \<in> set hs. beside (temp_path p h1) m h1 y"
      "(\<And>q g. flt (Unlink q) g = None) \<Longrightarrow> look (last hs) (temp_path p h1) = None"
    have "beside (temp_path p h1) m h1 (last hs)" using a(1,4) by simp
    moreover have "look (last hs) (temp_path p h1) = None" by (rule a(5)) (simp add: u)
    ultimately show ?thesis using beside_way [OF _ a(2,3) assms(2)] by blast
  qed (use r in simp)
qed

text \<open>C17: No reader ever sees half a file: in every state a write goes through, whichever call fails and
  wherever it is stopped, the file is the old one or the whole new one. Nothing is ever readable under
  a mode other than the one asked for and the 0600 of the temporary file. A write that returns has put the new
  text there and left no other file behind; one that raises has left every file as it was.\<close>

theorem no_reader_sees_half:
  assumes "write_trail flt p txt m dm h = (r, hs)" and "p \<noteq> []"
  shows "(\<forall>y \<in> set hs. look y p = look h p \<or> look y p = Some (Regular txt m))
    \<and> (\<forall>y \<in> set hs. \<forall>q s k. look y q = Some (Regular s k) \<longrightarrow> look h q = Some (Regular s k) \<or> k = TEMP_MODE \<or> k = m)
    \<and> (r = None \<longrightarrow> look (last hs) p = Some (Regular txt m)
         \<and> (\<forall>q s k. q \<noteq> p \<longrightarrow> (look (last hs) q = Some (Regular s k) \<longleftrightarrow> look h q = Some (Regular s k))))
    \<and> (r \<noteq> None \<and> (\<forall>q g. flt (Unlink q) g = None) \<longrightarrow>
         (\<forall>q s k. look (last hs) q = Some (Regular s k) \<longleftrightarrow> look h q = Some (Regular s k)))"
  using trail_way [OF assms] trail_ends [OF assms] by blast

definition full_disk :: "unit faults" where
  "full_disk call h = (case call of Chmod _ \<Rightarrow> Some ENOSPC | _ \<Rightarrow> None)"

definition before_write :: "unit host" where
  "before_write = \<lparr>files = [([''etc''], Directory 0 0 493), ([''etc'', ''smb.conf''], Regular ''old'' 420)],
     mountinfo = None, ext = ()\<rparr>"

theorem no_reader_sees_half_witness:
  "\<exists>hs. write_trail full_disk [''etc'', ''smb.conf''] ''new'' 420 493 before_write = (Some ENOSPC, hs) \<and> length hs = 5
    \<and> (\<forall>y \<in> set hs. look y [''etc'', ''smb.conf''] = Some (Regular ''old'' 420) \<or> look y [''etc'', ''smb.conf''] = Some (Regular ''new'' 420))
    \<and> (\<forall>q s k. look (last hs) q = Some (Regular s k) \<longleftrightarrow> look before_write q = Some (Regular s k))"
proof -
  obtain r hs where run: "write_trail full_disk [''etc'', ''smb.conf''] ''new'' 420 493 before_write = (r, hs)" by fastforce
  have "(case write_trail full_disk [''etc'', ''smb.conf''] ''new'' 420 493 before_write of (r, hs) \<Rightarrow> r = Some ENOSPC \<and> length hs = 5)"
    "look before_write [''etc'', ''smb.conf''] = Some (Regular ''old'' 420)" by code_simp+
  then have "r = Some ENOSPC" "length hs = 5" "look before_write [''etc'', ''smb.conf''] = Some (Regular ''old'' 420)"
    by (simp_all add: run)
  moreover have "\<forall>q g. full_disk (Unlink q) g = None" by (simp add: full_disk_def)
  ultimately show ?thesis using no_reader_sees_half [OF run] run by auto
qed

end
