(* ===== verification/Ownership.thy ===== *)
theory Ownership
  imports Atomic
begin

text \<open>
  \<^verbatim>\<open>smbpal/shares/ownership.py\<close>: whether the account a share is served as can write the directory, and the two
  operations that change a directory. A mode is its twelve permission bits; the user and group
  databases are the \<open>accounts\<close> argument; a regular file is root's. The sentences are constructors with the values they show.
\<close>

unbundle bit_operations_syntax

record serving =
  si_username :: string
  si_uid :: int
  si_gids :: "int list"

datatype unwritable = Denied_entry string string | Belongs_to string string string int | No_owner_write string string int

record dir_status =
  ds_path :: string
  ds_exists :: bool
  ds_is_dir :: bool
  ds_owner_uid :: "int option"
  ds_owner_gid :: "int option"
  ds_mode :: "int option"
  ds_writable :: "bool option"
  ds_owner_name :: "string option"
  ds_why_not :: "unwritable option"
  ds_fixable :: bool

definition absent_dir :: "string \<Rightarrow> dir_status" where
  "absent_dir p = \<lparr>ds_path = p, ds_exists = False, ds_is_dir = False, ds_owner_uid = None, ds_owner_gid = None,
     ds_mode = None, ds_writable = None, ds_owner_name = None, ds_why_not = None, ds_fixable = True\<rparr>"

definition serving_identity :: "accounts \<Rightarrow> string \<Rightarrow> serving res" where
  "serving_identity acc username =
     (case by_name acc username of
        None \<Rightarrow> Inl (NotFound (''there is no system account called '' @ repr_str username))
      | Some (u, g) \<Rightarrow>
          Inr \<lparr>si_username = username, si_uid = u,
               si_gids = remdups (g # map fst (filter (\<lambda>gr. username \<in> set (snd gr)) (all_groups acc)))\<rparr>)"

definition mode_bits :: "int \<Rightarrow> int" where
  "mode_bits m = m AND 4095"

definition writable_by :: "int \<Rightarrow> int \<Rightarrow> int \<Rightarrow> serving \<Rightarrow> bool" where
  "writable_by u g m who =
     (if si_uid who = 0 then True
      else if u = si_uid who then bit m 7 \<and> bit m 6
      else if g \<in> set (si_gids who) then bit m 4 \<and> bit m 3
      else bit m 1 \<and> bit m 0)"

definition why_not :: "string \<Rightarrow> int \<Rightarrow> int \<Rightarrow> serving \<Rightarrow> string \<Rightarrow> unwritable" where
  "why_not p u m who owner_name =
     (if u \<noteq> si_uid who then Belongs_to p owner_name (si_username who) (mode_bits m)
      else No_owner_write p (si_username who) (mode_bits m))"

text \<open>\<open>access\<close> is the helper's reading of the ACL: \<open>Some ''allow''\<close>, \<open>''deny''\<close>, \<open>''none''\<close>, or nothing said.\<close>

definition describe ::
    "string \<Rightarrow> int \<Rightarrow> int \<Rightarrow> int \<Rightarrow> bool \<Rightarrow> string \<Rightarrow> serving option \<Rightarrow> bool \<Rightarrow> string option \<Rightarrow> dir_status" where
  "describe p u g m is_dir owner_name identity has_acl access =
     (let (writable, why) =
        (case identity of
           None \<Rightarrow> (None, None)
         | Some who \<Rightarrow>
             if access = Some ''allow'' then (Some True, None)
             else if access = Some ''deny'' then (Some False, Some (Denied_entry p (si_username who)))
             else if has_acl \<and> access = None then (None, None)
             else if writable_by u g m who then (Some True, None)
             else (Some False, Some (why_not p u m who owner_name)))
      in \<lparr>ds_path = p, ds_exists = True, ds_is_dir = is_dir, ds_owner_uid = Some u, ds_owner_gid = Some g,
          ds_mode = Some (mode_bits m), ds_writable = writable, ds_owner_name = Some owner_name,
          ds_why_not = why, ds_fixable = (access \<noteq> Some ''deny'')\<rparr>)"

definition node_owner :: "node \<Rightarrow> int \<times> int" where
  "node_owner n = (case n of Directory u g _ \<Rightarrow> (u, g) | Regular _ _ \<Rightarrow> (0, 0))"

definition inspect_directory :: "accounts \<Rightarrow> 'x faults \<Rightarrow> string \<Rightarrow> serving option \<Rightarrow> 'x host \<Rightarrow> dir_status res" where
  "inspect_directory acc flt p identity h =
     (case stat_at flt (components p) h of
        Inl ENOENT \<Rightarrow> Inr (absent_dir p)
      | Inl e \<Rightarrow> Inl (OwnershipError (''cannot inspect '' @ p))
      | Inr n \<Rightarrow>
          (let (u, g) = node_owner n;
               owner_name = (case by_uid acc u of Some name \<Rightarrow> name | None \<Rightarrow> int_str u)
           in Inr (describe p u g (mode n) (is_directory n) owner_name identity False None)))"

datatype read_only_reason = Cannot_write "unwritable option" | Created_on_apply string

definition effective_read_only :: "bool \<Rightarrow> dir_status \<Rightarrow> bool \<times> read_only_reason option" where
  "effective_read_only configured st =
     (if configured then (True, None)
      else if ds_writable st = Some False then (True, Some (Cannot_write (ds_why_not st)))
      else (False, None))"

definition first_gid :: "serving \<Rightarrow> int" where
  "first_gid who = hd (sort (si_gids who))"

definition create_directory :: "accounts \<Rightarrow> 'x faults \<Rightarrow> string \<Rightarrow> serving \<Rightarrow> 'x host \<Rightarrow> dir_status res \<times> 'x host" where
  "create_directory acc flt p who h =
     (let key = components p in
      if look h key \<noteq> None then (Inl (OwnershipError (p @ '' already exists'')), h)
      else case make_dirs flt (dir_chain key 493) h of
        (Inl e, h1) \<Rightarrow> (Inl (OwnershipError ((if e = EEXIST then p @ '' already exists'' else ''cannot create '' @ p))), h1)
      | (Inr _, h1) \<Rightarrow>
          (case chown flt key (si_uid who) (first_gid who) h1 of
             (Inl e, h2) \<Rightarrow> (Inl (OwnershipError ((if e = EEXIST then p @ '' already exists'' else ''cannot create '' @ p))), h2)
           | (Inr _, h2) \<Rightarrow> (inspect_directory acc flt p (Some who) h2, h2)))"

definition change_error :: "string \<Rightarrow> os_error \<Rightarrow> py_error" where
  "change_error p e =
     OwnershipError (if e = EPERM \<or> e = EACCES then ''not permitted to change '' @ p else ''cannot change '' @ p)"

definition take_ownership :: "'x faults \<Rightarrow> string \<Rightarrow> serving \<Rightarrow> dir_status \<Rightarrow> 'x host \<Rightarrow> unit os \<times> 'x host" where
  "take_ownership flt p who st h =
     (if ds_owner_uid st = Some (si_uid who) then (Inr (), h)
      else chown flt (components p) (si_uid who) (first_gid who) h)"

definition widen_owner :: "'x faults \<Rightarrow> string \<Rightarrow> dir_status \<Rightarrow> 'x host \<Rightarrow> unit os \<times> 'x host" where
  "widen_owner flt p st h =
     (let current = (case ds_mode st of None \<Rightarrow> 0 | Some m \<Rightarrow> m); wanted = current OR 448
      in if wanted = current then (Inr (), h) else chmod flt (components p) wanted h)"

definition make_writable :: "accounts \<Rightarrow> 'x faults \<Rightarrow> string \<Rightarrow> serving \<Rightarrow> 'x host \<Rightarrow> dir_status res \<times> 'x host" where
  "make_writable acc flt p who h =
     (case inspect_directory acc flt p (Some who) h of
        Inl e \<Rightarrow> (Inl e, h)
      | Inr st \<Rightarrow>
          if \<not> ds_exists st then (Inl (NotFound (p @ '' does not exist'')), h)
          else if \<not> ds_is_dir st then (Inl (OwnershipError (p @ '' is not a directory'')), h)
          else case take_ownership flt p who st h of
            (Inl e, h1) \<Rightarrow> (Inl (change_error p e), h1)
          | (Inr _, h1) \<Rightarrow>
              (case widen_owner flt p st h1 of
                 (Inl e, h2) \<Rightarrow> (Inl (change_error p e), h2)
               | (Inr _, h2) \<Rightarrow>
                   (case inspect_directory acc flt p (Some who) h2 of
                      Inl e \<Rightarrow> (Inl e, h2)
                    | Inr st' \<Rightarrow>
                        if ds_writable st' = Some False
                        then (Inl (OwnershipError (p @ '' is still not writable by '' @ si_username who)), h2)
                        else (Inr st', h2))))"

subsection \<open>What is changed, and that it is enough\<close>

lemma describe_sel [simp]:
  "ds_exists (describe p u g m d o' i a x) = True" "ds_is_dir (describe p u g m d o' i a x) = d"
  "ds_owner_uid (describe p u g m d o' i a x) = Some u" "ds_mode (describe p u g m d o' i a x) = Some (mode_bits m)"
  by (simp_all add: describe_def Let_def split: prod.splits)

lemma describe_writable:
  "ds_writable (describe p u g m d o' (Some who) False None) = Some (writable_by u g m who)"
  by (simp add: describe_def)

lemma inspect_dir:
  "stat_at flt (components p) h = Inr (Directory u g m) \<Longrightarrow>
   \<exists>o'. inspect_directory acc flt p i h = Inr (describe p u g m True o' i False None)"
  unfolding inspect_directory_def by (simp add: node_owner_def is_directory_def) blast

lemma mode_masks:
  assumes "k < 12"
  shows "bit (4095::int) k" and "bit (448::int) k \<longleftrightarrow> k = 6 \<or> k = 7 \<or> k = 8"
proof -
  have "k \<in> {0, 1, 2, 3, 4, 5, 6, 7, 8, 9, 10, 11}" using assms by (simp add: eval_nat_numeral less_Suc_eq)
  then show "bit (4095::int) k" and "bit (448::int) k \<longleftrightarrow> k = 6 \<or> k = 7 \<or> k = 8"
    unfolding insert_iff empty_iff by (elim disjE; simp add: bit_iff_odd)+
qed

lemma bits_widened:
  "k < 12 \<Longrightarrow> bit (mode_bits m OR 448) k \<longleftrightarrow> bit m k \<or> k = 6 \<or> k = 7 \<or> k = 8"
  "k < 12 \<Longrightarrow> bit (mode_bits m) k \<longleftrightarrow> bit m k"
  by (simp_all add: mode_bits_def bit_and_iff bit_or_iff mode_masks)

lemma stat_look: "stat_at flt p h = Inr n \<Longrightarrow> look h p = Some n"
  by (auto simp: stat_at_def split: option.splits)

lemma inspect_existing:
  assumes "inspect_directory acc flt p i h = Inr st" and "ds_exists st" and "ds_is_dir st"
  obtains u g m o' where "look h (components p) = Some (Directory u g m)" and "st = describe p u g m True o' i False None"
proof -
  obtain n where n: "stat_at flt (components p) h = Inr n" using assms(1,2)
    by (auto simp: inspect_directory_def absent_dir_def split: sum.splits os_error.splits)
  then have "is_directory n" using assms(1,3) by (auto simp: inspect_directory_def split: prod.splits)
  then obtain u g m where "n = Directory u g m" by (cases n) (auto simp: is_directory_def)
  with n have "stat_at flt (components p) h = Inr (Directory u g m)" by simp
  from inspect_dir [OF this, of acc i] stat_look [OF this] that assms(1) show thesis by auto
qed

text \<open>What the two changes do to the directory's node.\<close>

definition taken :: "serving \<Rightarrow> node \<Rightarrow> node" where
  "taken who n = (case n of
     Directory u g m \<Rightarrow>
       Directory (si_uid who) (if u = si_uid who then g else first_gid who)
         (if mode_bits m OR 448 = mode_bits m then m else mode_bits m OR 448)
   | Regular s m \<Rightarrow> Regular s m)"

lemma take_ownership_look:
  assumes "take_ownership flt p who (describe p u g m True o' i False None) h = (r, h1)"
    and "look h (components p) = Some (Directory u g m)"
  shows "\<forall>q. q \<noteq> components p \<longrightarrow> look h1 q = look h q"
    and "r = Inr v \<Longrightarrow> look h1 (components p)
      = Some (Directory (si_uid who) (if u = si_uid who then g else first_gid who) m)"
    and "r = Inl e \<Longrightarrow> h1 = h"
  using assms by (auto simp: take_ownership_def chown_def attempt_def split: if_splits option.splits)

lemma widen_owner_look:
  assumes "widen_owner flt p (describe p u0 g0 m True o' i False None) h = (r, h2)"
    and "look h (components p) = Some (Directory u g m)"
  shows "\<forall>q. q \<noteq> components p \<longrightarrow> look h2 q = look h q"
    and "r = Inr v \<Longrightarrow> look h2 (components p)
      = Some (Directory u g (if mode_bits m OR 448 = mode_bits m then m else mode_bits m OR 448))"
    and "r = Inl e \<Longrightarrow> h2 = h"
  using assms by (auto simp: widen_owner_def chmod_def attempt_def Let_def split: if_splits option.splits)

lemma widened_mode:
  "k < 12 \<Longrightarrow> bit (if mode_bits m OR 448 = mode_bits m then m else mode_bits m OR 448) k
     \<longleftrightarrow> bit m k \<or> k = 6 \<or> k = 7 \<or> k = 8"
  using bits_widened [of k m] by auto

lemma make_writable_done:
  assumes "make_writable acc flt p who h = (Inr st, h')"
  obtains u g m where "look h (components p) = Some (Directory u g m)"
    and "look h' (components p) = Some (taken who (Directory u g m))"
    and "\<forall>q. q \<noteq> components p \<longrightarrow> look h' q = look h q"
proof -
  obtain st0 where st0: "inspect_directory acc flt p (Some who) h = Inr st0" "ds_exists st0" "ds_is_dir st0"
    using assms by (auto simp: make_writable_def split: sum.splits if_splits)
  from inspect_existing [OF this] obtain u g m o' where d: "look h (components p) = Some (Directory u g m)"
    "st0 = describe p u g m True o' (Some who) False None" .
  obtain h1 u1 where t: "take_ownership flt p who st0 h = (Inr u1, h1)"
    using assms st0 by (auto simp: make_writable_def split: sum.splits if_splits prod.splits)
  obtain h2 u2 where w: "widen_owner flt p st0 h1 = (Inr u2, h2)"
    using assms st0 t by (auto simp: make_writable_def split: sum.splits if_splits prod.splits)
  have "h' = h2" using assms st0 t w by (auto simp: make_writable_def split: sum.splits if_splits)
  moreover note t1 = take_ownership_look [OF t [unfolded d(2)] d(1)]
  moreover note widen_owner_look [OF w [unfolded d(2)] t1(2) [OF refl]]
  ultimately show thesis using that d(1) by (simp add: taken_def)
qed

lemma taken_writable: "taken who (Directory u g m) = Directory u' g' m' \<Longrightarrow> writable_by u' g' m' who"
  using widened_mode [of 7 m] widened_mode [of 6 m] by (auto simp: taken_def writable_by_def)

lemma make_writable_status:
  assumes "make_writable acc flt p who h = (Inr st, h')" and seen: "\<And>x. flt (Stat (components p)) x \<noteq> Some ENOENT"
  shows "ds_writable st = Some True" and "ds_exists st"
proof -
  obtain u g m where d: "look h' (components p) = Some (taken who (Directory u g m))"
    using make_writable_done [OF assms(1)] by metis
  have i: "inspect_directory acc flt p (Some who) h' = Inr st" "ds_writable st \<noteq> Some False"
    using assms by (auto simp: make_writable_def split: sum.splits if_splits prod.splits)
  obtain u' g' m' where t: "taken who (Directory u g m) = Directory u' g' m'" by (auto simp: taken_def)
  show "ds_exists st"
    using i(1) d seen by (auto simp: inspect_directory_def stat_at_def t split: sum.splits option.splits os_error.splits prod.splits)
  then have "\<exists>n. stat_at flt (components p) h' = Inr n"
    using i(1) by (auto simp: inspect_directory_def absent_dir_def split: sum.splits os_error.splits)
  then have "stat_at flt (components p) h' = Inr (Directory u' g' m')" using stat_look d t by fastforce
  from inspect_dir [OF this, of acc "Some who"] i(1) taken_writable [OF t]
  show "ds_writable st = Some True" by (auto simp: describe_writable)
qed

lemma make_writable_total:
  assumes "\<And>c x. flt c x = None" and d: "look h (components p) = Some (Directory u g m)"
  shows "\<exists>st h'. make_writable acc flt p who h = (Inr st, h')"
proof -
  let ?k = "components p"
  have stat: "look x ?k = Some n \<Longrightarrow> stat_at flt ?k x = Inr n" for x n using assms(1) by (simp add: stat_at_def)
  from inspect_dir [OF stat [OF d]] obtain o' where
    st0: "inspect_directory acc flt p (Some who) h = Inr (describe p u g m True o' (Some who) False None)" (is "_ = Inr ?st")
    by blast
  obtain r1 h1 where t: "take_ownership flt p who ?st h = (r1, h1)" by fastforce
  then obtain u1 where r1: "r1 = Inr u1"
    using d assms(1) by (auto simp: take_ownership_def chown_def attempt_def split: if_splits)
  note t1 = take_ownership_look [OF t d]
  obtain r2 h2 where w: "widen_owner flt p ?st h1 = (r2, h2)" by fastforce
  then obtain u2 where r2: "r2 = Inr u2"
    using t1(2) [OF r1] assms(1) by (auto simp: widen_owner_def chmod_def attempt_def Let_def split: if_splits)
  note w1 = widen_owner_look(2) [OF w t1(2) [OF r1] r2]
  have "look h2 ?k = Some (taken who (Directory u g m))" using w1 by (simp add: taken_def)
  moreover obtain u' g' m' where tk: "taken who (Directory u g m) = Directory u' g' m'" by (auto simp: taken_def)
  ultimately obtain o2 where
    i2: "inspect_directory acc flt p (Some who) h2 = Inr (describe p u' g' m' True o2 (Some who) False None)"
    using inspect_dir [OF stat] by metis
  then show ?thesis
    using st0 t w r1 r2 taken_writable [OF tk] by (simp add: make_writable_def describe_writable)
qed

lemma make_writable_grants:
  "make_writable acc flt p who h = (Inr st, h') \<Longrightarrow> (\<And>x. flt (Stat (components p)) x \<noteq> Some ENOENT) \<Longrightarrow>
      ds_writable st = Some True
      \<and> (\<exists>u g m g' m'. look h (components p) = Some (Directory u g m)
           \<and> look h' (components p) = Some (Directory (si_uid who) g' m') \<and> writable_by (si_uid who) g' m' who
           \<and> (\<forall>k < 12. bit m' k \<longleftrightarrow> bit m k \<or> k = 6 \<or> k = 7 \<or> k = 8) \<and> (u = si_uid who \<longrightarrow> g' = g))
      \<and> (\<forall>q. q \<noteq> components p \<longrightarrow> look h' q = look h q)"
proof -
  assume m: "make_writable acc flt p who h = (Inr st, h')" and seen: "\<And>x. flt (Stat (components p)) x \<noteq> Some ENOENT"
  from make_writable_done [OF m] obtain u g m where d: "look h (components p) = Some (Directory u g m)"
    "look h' (components p) = Some (taken who (Directory u g m))" "\<forall>q. q \<noteq> components p \<longrightarrow> look h' q = look h q" .
  obtain g' m' where t: "taken who (Directory u g m) = Directory (si_uid who) g' m'" "u = si_uid who \<longrightarrow> g' = g"
    "m' = (if mode_bits m OR 448 = mode_bits m then m else mode_bits m OR 448)" by (auto simp: taken_def)
  have "\<forall>k < 12. bit m' k \<longleftrightarrow> bit m k \<or> k = 6 \<or> k = 7 \<or> k = 8" using widened_mode [of _ m] t(3) by blast
  then show "ds_writable st = Some True
      \<and> (\<exists>u g m g' m'. look h (components p) = Some (Directory u g m)
           \<and> look h' (components p) = Some (Directory (si_uid who) g' m') \<and> writable_by (si_uid who) g' m' who
           \<and> (\<forall>k < 12. bit m' k \<longleftrightarrow> bit m k \<or> k = 6 \<or> k = 7 \<or> k = 8) \<and> (u = si_uid who \<longrightarrow> g' = g))
      \<and> (\<forall>q. q \<noteq> components p \<longrightarrow> look h' q = look h q)"
    using make_writable_status(1) [OF m seen] d t taken_writable [OF t(1)] by auto
qed


definition pi_accounts :: accounts where
  "pi_accounts = \<lparr>by_name = (\<lambda>n. if n = ''pi'' then Some (1000, 1000) else None),
     by_uid = (\<lambda>u. if u = 1000 then Some ''pi'' else if u = 0 then Some ''root'' else None),
     all_groups = [(1000, []), (27, [''pi'']), (4, [''syslog''])]\<rparr>"

definition pi_identity :: serving where
  "pi_identity = \<lparr>si_username = ''pi'', si_uid = 1000, si_gids = [1000, 27]\<rparr>"

definition media_host :: "unit host" where
  "media_host = \<lparr>files = [([''srv''], Directory 0 0 493), ([''srv'', ''media''], Directory 0 0 493)], mountinfo = None, ext = ()\<rparr>"


text \<open>The group of a directory that changes hands becomes the smallest of the account's group numbers,
  here the supplementary group 27 (\<open>sudo\<close>), not the account's own.\<close>

lemma group_is_the_smallest_number:
  "case make_writable pi_accounts (\<lambda>_ _. None) ''/srv/media'' pi_identity media_host of
     (_, h') \<Rightarrow> (case look h' [''srv'', ''media''] of Some (Directory u g m) \<Rightarrow> u = 1000 \<and> g = 27 | _ \<Rightarrow> False)"
proof -
  have i: "components ''/srv/media'' = [''srv'', ''media'']" by code_simp
  have gid: "first_gid pi_identity = 27" "si_uid pi_identity = 1000" by (simp_all add: first_gid_def pi_identity_def)
  have l: "look media_host (components ''/srv/media'') = Some (Directory 0 0 493)"
    unfolding i by (simp add: look_def media_host_def)
  from make_writable_total [OF _ l, of "\<lambda>_ _. None" pi_accounts pi_identity] obtain st h' where
    m: "make_writable pi_accounts (\<lambda>_ _. None) ''/srv/media'' pi_identity media_host = (Inr st, h')" by blast
  from make_writable_done [OF m] obtain u g m0 where
    "look media_host (components ''/srv/media'') = Some (Directory u g m0)"
    "look h' (components ''/srv/media'') = Some (taken pi_identity (Directory u g m0))" .
  then have "look h' (components ''/srv/media'') = Some (taken pi_identity (Directory 0 0 493))" using l by simp
  then have "\<exists>m'. look h' [''srv'', ''media''] = Some (Directory 1000 27 m')"
    unfolding i by (simp add: taken_def gid)
  then show ?thesis by (auto simp: m)
qed

end
