(* ===== verification/SmbConf.thy ===== *)
theory SmbConf
  imports Systemd Operations
begin

text \<open>
  The Samba files. \<^verbatim>\<open>smbpal/samba/include.py\<close> edits the administrator's \<open>smb.conf\<close> as a string, line by
  line with the endings kept; \<^verbatim>\<open>smbpal/samba/conf.py\<close> renders our own file; \<^verbatim>\<open>smbpal/samba/control.py\<close>
  reads the sections that \<open>testparm\<close> prints and drives \<open>smbcontrol\<close>.
\<close>

subsection \<open>The include block\<close>

definition BEGIN_MARKER :: string where "BEGIN_MARKER = ''# >>> smbpal >>>''"
definition END_MARKER :: string where "END_MARKER = ''# <<< smbpal <<<''"

definition has_include :: "string \<Rightarrow> bool" where
  "has_include text = contains BEGIN_MARKER text"

text \<open>\<open>^[ \t]*\[global\][ \t]*$\<close> on the line without its CR and LF.\<close>

definition is_global_header :: "string \<Rightarrow> bool" where
  "is_global_header line =
     (py_lower (strip_on (\<lambda>c. c = CHR '' '' \<or> c = CHR 0x09) (rstrip_on (\<lambda>c. c = cr \<or> c = lf) line)) = ''[global]'')"

definition line_ending :: "string \<Rightarrow> string" where
  "line_ending line = (if suffix [cr, lf] line then [cr, lf] else [lf])"

definition include_block :: "string \<Rightarrow> string \<Rightarrow> string list" where
  "include_block include_line ending =
     [BEGIN_MARKER @ ending, include_line @ ending, END_MARKER @ ending]"

fun insert_after_header :: "string \<Rightarrow> string list \<Rightarrow> string list option" where
  "insert_after_header include_line [] = None"
| "insert_after_header include_line (l # ls) =
     (if is_global_header l then Some (l # include_block include_line (line_ending l) @ ls)
      else map_option ((#) l) (insert_after_header include_line ls))"

definition insert_include :: "string \<Rightarrow> string \<Rightarrow> string res" where
  "insert_include include_line text =
     (if has_include text then Inr text
      else case insert_after_header include_line (splitlines_keep text) of
             Some ls \<Rightarrow> Inr (concat ls)
           | None \<Rightarrow> Inl (SmbConfError ''smb.conf has no [global] section''))"

text \<open>The loop of \<open>remove_include\<close>: the lines that stay, and whether a block was left open.\<close>

fun sweep :: "string \<Rightarrow> bool \<Rightarrow> string list \<Rightarrow> string list \<times> bool" where
  "sweep include_line inside [] = ([], inside)"
| "sweep include_line inside (l # ls) =
     (if \<not> inside \<and> py_strip l = BEGIN_MARKER then sweep include_line True ls
      else if inside then sweep include_line (py_strip l \<noteq> END_MARKER) ls
      else if py_strip l = include_line then sweep include_line False ls
      else (case sweep include_line False ls of (kept, open_block) \<Rightarrow> (l # kept, open_block)))"

definition remove_include :: "string \<Rightarrow> string \<Rightarrow> string res" where
  "remove_include include_line text =
     (case sweep include_line False (splitlines_keep text) of
        (kept, open_block) \<Rightarrow>
          if open_block then Inl (SmbConfError ''smb.conf has an unterminated SMBPal block'')
          else Inr (concat kept))"

subsection \<open>Our own file\<close>

definition HEADER :: string where
  "HEADER = concat (map (\<lambda>l. l @ [lf])
     [''# Generated by SMBPal. Do not edit.'', ''#'',
      ''# This file is rewritten in full whenever a share changes. SMBPal owns it'',
      ''# completely and never parses or modifies /etc/samba/smb.conf beyond the one'',
      ''# marked include block that points here.''])"

definition safe_value :: "obj \<Rightarrow> string \<Rightarrow> string res" where
  "safe_value share key =
     (case get share key of
        JStr s \<Rightarrow>
          if s = [] then Inl (GenerationRefused (''share '' @ repr (get share ''id'') @ '' has no usable '' @ key))
          else if lf \<in> set s \<or> cr \<in> set s \<or> CHR 0x00 \<in> set s
          then Inl (GenerationRefused (''share '' @ repr (get share ''id'') @ '' has a '' @ key @ '' containing a line break''))
          else Inr s
      | _ \<Rightarrow> Inl (GenerationRefused (''share '' @ repr (get share ''id'') @ '' has no usable '' @ key)))"

definition enabled :: "obj \<Rightarrow> bool" where
  "enabled share = (case map_of share ''enabled'' of None \<Rightarrow> True | Some v \<Rightarrow> truthy v)"

definition share_lines :: "string \<Rightarrow> string \<Rightarrow> bool \<Rightarrow> string option \<Rightarrow> string list" where
  "share_lines name path read_only user =
     [''['' @ name @ '']'', ''   path = '' @ path,
      ''   read only = '' @ (if read_only then ''yes'' else ''no''), ''   browseable = yes'', ''   guest ok = no'']
     @ (case user of None \<Rightarrow> [] | Some u \<Rightarrow> [''   valid users = '' @ u])"

definition lines_text :: "string list \<Rightarrow> string" where
  "lines_text ls = join [lf] ls @ [lf]"

definition render_share :: "obj \<Rightarrow> string res" where
  "render_share share =
     and_then (safe_value share ''name'') (\<lambda>name.
     and_then (safe_value share ''path'') (\<lambda>path.
       if truthy (get share ''credential_ref'')
       then and_then (safe_value share ''credential_ref'') (\<lambda>user.
              Inr (lines_text (share_lines name path (truthy (get share ''read_only'')) (Some user))))
       else Inr (lines_text (share_lines name path (truthy (get share ''read_only'')) None))))"

definition render :: "obj list \<Rightarrow> string res" where
  "render shares =
     and_then (map_res render_share (filter enabled shares)) (\<lambda>sections. Inr (join [lf] (HEADER # sections)))"

subsection \<open>What Samba serves\<close>

text \<open>\<open>^\[([^\]]+)\]\s*$\<close> on a stripped line.\<close>

definition section_of :: "string \<Rightarrow> string option" where
  "section_of s =
     (if s \<noteq> [] \<and> hd s = CHR ''['' \<and> last s = CHR '']'' \<and> length s > 2 \<and> CHR '']'' \<notin> set (butlast (tl s))
      then Some (butlast (tl s)) else None)"

text \<open>\<open>^path\s*=\s*(.*)$\<close>, ignoring case, on a stripped line; the group stripped again.\<close>

definition path_of :: "string \<Rightarrow> string option" where
  "path_of s =
     (if py_lower (take 4 s) = ''path''
      then (case lstrip_on is_space (drop 4 s) of
              [] \<Rightarrow> None
            | c # rest \<Rightarrow> if c = CHR ''='' \<and> lf \<notin> set (lstrip_on is_space rest) then Some (py_strip rest) else None)
      else None)"

fun read_sections :: "string option \<Rightarrow> (string \<times> string) list \<Rightarrow> string list \<Rightarrow> (string \<times> string) list" where
  "read_sections current shares [] = shares"
| "read_sections current shares (l # ls) =
     (case section_of (py_strip l) of
        Some name \<Rightarrow>
          read_sections (Some name) (if name \<in> fst ` set shares then shares else shares @ [(name, [])]) ls
      | None \<Rightarrow>
          (case current of
             None \<Rightarrow> read_sections current shares ls
           | Some name \<Rightarrow>
               (case path_of (py_strip l) of
                  None \<Rightarrow> read_sections current shares ls
                | Some p \<Rightarrow> read_sections current (AList.update name p shares) ls)))"

definition sections_of :: "string \<Rightarrow> (string \<times> string) list" where
  "sections_of text = read_sections None [] (splitlines text)"

definition effective_shares :: "'w exec \<Rightarrow> 'w \<Rightarrow> (string \<times> string) list res \<times> 'w" where
  "effective_shares ex w =
     (case ex [''testparm'', ''-s''] w of
        (r, w') \<Rightarrow> (and_then r (\<lambda>c. and_then (check_result [''testparm'', ''-s''] c) (\<lambda>c. Inr (sections_of (cr_stdout c)))), w'))"

definition unmanaged_of :: "string list \<Rightarrow> (string \<times> string) list \<Rightarrow> (string \<times> string) list" where
  "unmanaged_of configured served =
     filter (\<lambda>(name, _). py_lower name \<notin> py_lower ` set configured \<and> py_lower name \<notin> set reserved_share_names) served"

definition unmanaged_shares :: "'w exec \<Rightarrow> string list \<Rightarrow> 'w \<Rightarrow> (string \<times> string) list res \<times> 'w" where
  "unmanaged_shares ex configured w =
     (case effective_shares ex w of (r, w') \<Rightarrow> (and_then r (\<lambda>s. Inr (unmanaged_of configured s)), w'))"

definition reload_config :: "'w exec \<Rightarrow> 'w \<Rightarrow> unit res \<times> 'w" where
  "reload_config ex w =
     (case ex [''smbcontrol'', ''all'', ''reload-config''] w of
        (r, w') \<Rightarrow> (and_then r (\<lambda>c. if cr_ok c then Inr ()
                     else Inl (ReloadFailed ''Samba would not reload its configuration'')), w'))"

definition missing_from :: "string list \<Rightarrow> (string \<times> string) list \<Rightarrow> string list" where
  "missing_from names served = sort (remdups (filter (\<lambda>n. n \<notin> fst ` set served) names))"

definition verify_present :: "'w exec \<Rightarrow> string list \<Rightarrow> 'w \<Rightarrow> unit res \<times> 'w" where
  "verify_present ex names w =
     (case effective_shares ex w of
        (r, w') \<Rightarrow>
          (and_then r (\<lambda>served.
             if missing_from names served = [] then Inr ()
             else Inl (ShareNotServed (''Samba reloaded but is not serving '' @ join '', '' (map repr_str (missing_from names served))))), w'))"

record service_status =
  ss_unit :: "string option"
  ss_active :: bool
  ss_installed :: "bool option"

definition SERVICE_UNITS :: "string list" where
  "SERVICE_UNITS = [''smbd.service'', ''smb.service'']"

definition service_argv :: "string \<Rightarrow> string list" where
  "service_argv unit = [SYSTEMCTL, ''show'', unit, ''--property=LoadState,ActiveState'']"

fun ask_services :: "'w exec \<Rightarrow> string option \<Rightarrow> string list \<Rightarrow> 'w \<Rightarrow> service_status res \<times> 'w" where
  "ask_services ex loaded [] w =
     (Inr \<lparr>ss_unit = loaded, ss_active = False, ss_installed = Some (loaded \<noteq> None)\<rparr>, w)"
| "ask_services ex loaded (u # us) w =
     (case ex (service_argv u) w of
        (Inl e, w') \<Rightarrow> (Inl e, w')
      | (Inr c, w') \<Rightarrow>
          (let props = show_values (cr_stdout c)
           in if map_of props ''LoadState'' \<noteq> Some ''loaded'' then ask_services ex loaded us w'
              else if map_of props ''ActiveState'' = Some ''active''
              then (Inr \<lparr>ss_unit = Some u, ss_active = True, ss_installed = None\<rparr>, w')
              else ask_services ex (if loaded = None then Some u else loaded) us w'))"

definition service_state :: "'w exec \<Rightarrow> 'w \<Rightarrow> service_status res \<times> 'w" where
  "service_state ex w = ask_services ex None SERVICE_UNITS w"

end
