(* ===== verification/Include.thy ===== *)
theory Include
  imports SmbConf
begin

text \<open>
  The include block goes in and comes out again, and what our own file says is what its sections
  read back as.
\<close>

subsection \<open>Lines of a text put together\<close>

definition joinable :: "string \<Rightarrow> string \<Rightarrow> bool" where
  "joinable a b = (a = [] \<or> b = [] \<or> (is_break (last a) \<and> \<not> (last a = cr \<and> hd b = lf)))"

lemma splitlines_keep_append:
  "joinable a b \<Longrightarrow> splitlines_keep (a @ b) = splitlines_keep a @ splitlines_keep b"
proof (induction a rule: splitlines_keep.induct)
  case (2 c cs)
  show ?case
  proof (cases "c = cr \<and> cs \<noteq> [] \<and> hd cs = lf")
    case True
    then obtain t where cs: "cs = lf # t" by (cases cs) auto
    have "joinable t b" using "2.prems" by (cases "t = []") (auto simp: joinable_def cs)
    with "2.IH"(1) [OF True] show ?thesis using True by (simp add: cs)
  next
    case False
    have "\<not> (c = cr \<and> cs @ b \<noteq> [] \<and> hd (cs @ b) = lf)"
      using False "2.prems" by (cases "cs = []") (auto simp: joinable_def)
    moreover have "joinable cs b" using "2.prems" by (cases "cs = []") (auto simp: joinable_def)
    ultimately show ?thesis
    proof (cases "is_break c")
      case True
      with "2.IH"(2) [OF False True] \<open>joinable cs b\<close> \<open>\<not> (c = cr \<and> cs @ b \<noteq> [] \<and> hd (cs @ b) = lf)\<close> False
      show ?thesis by auto
    next
      case nb: False
      show ?thesis
      proof (cases "b = []")
        case True
        then show ?thesis by simp
      next
        case b: False
        then have "cs \<noteq> []" using "2.prems" nb by (auto simp: joinable_def)
        then obtain w ws where "splitlines_keep cs = w # ws"
          by (cases "splitlines_keep cs") simp_all
        with "2.IH"(3) [OF False nb] \<open>joinable cs b\<close> \<open>\<not> (c = cr \<and> cs @ b \<noteq> [] \<and> hd (cs @ b) = lf)\<close> False nb
        show ?thesis by auto
      qed
    qed
  qed
qed simp

lemma splitlines_keep_parts:
  "splitlines_keep s = xs @ ys \<Longrightarrow>
   splitlines_keep (concat xs) = xs \<and> splitlines_keep (concat ys) = ys
   \<and> (xs = [] \<or> ys = [] \<or> is_break (last (concat xs)))"
proof (induction s arbitrary: xs rule: splitlines_keep.induct)
  case (2 c cs)
  show ?case
  proof (cases "xs = []")
    case True
    then show ?thesis using "2.prems" concat_splitlines_keep [of "c # cs"] by simp
  next
    case xs: False
    show ?thesis
    proof (cases "c = cr \<and> cs \<noteq> [] \<and> hd cs = lf")
      case True
      with "2.prems" xs obtain xs' where x: "xs = [cr, lf] # xs'" "splitlines_keep (tl cs) = xs' @ ys"
        by (cases xs) auto
      from "2.IH"(1) [OF True x(2)] show ?thesis by (auto simp: x(1))
    next
      case False
      show ?thesis
      proof (cases "is_break c")
        case True
        with "2.prems" xs False obtain xs' where x: "xs = [c] # xs'" "splitlines_keep cs = xs' @ ys"
          by (cases xs) auto
        from "2.IH"(2) [OF False True x(2)] have ih: "splitlines_keep (concat xs') = xs'"
          "splitlines_keep (concat ys) = ys" "xs' = [] \<or> ys = [] \<or> is_break (last (concat xs'))" by simp_all
        have "\<not> (c = cr \<and> concat xs' \<noteq> [] \<and> hd (concat xs') = lf)"
        proof
          assume a: "c = cr \<and> concat xs' \<noteq> [] \<and> hd (concat xs') = lf"
          have "cs = concat xs' @ concat ys" using x(2) concat_splitlines_keep [of cs] by simp
          with a False show False by (cases "concat xs'") auto
        qed
        with ih True show ?thesis by (auto simp: x(1))
      next
        case nb: False
        show ?thesis
        proof (cases "splitlines_keep cs")
          case Nil
          with "2.prems" xs False nb have "xs = [[c]]" "ys = []" by (cases xs; simp)+
          with nb False show ?thesis by auto
        next
          case (Cons w ws)
          with "2.prems" xs False nb obtain xs' where x: "xs = (c # w) # xs'" "ws = xs' @ ys" by (cases xs) auto
          with Cons have "splitlines_keep cs = (w # xs') @ ys" by simp
          from "2.IH"(3) [OF False nb this] have ih: "splitlines_keep (w @ concat xs') = w # xs'"
            "splitlines_keep (concat ys) = ys" "ys = [] \<or> is_break (last (w @ concat xs'))" by simp_all
          have "w @ concat xs' \<noteq> []" using ih(1) by force
          moreover have "c \<noteq> cr" using nb by auto
          ultimately show ?thesis using ih nb by (auto simp: x(1))
        qed
      qed
    qed
  qed
qed simp

lemma splitlines_keep_line_cr:
  assumes "\<forall>c \<in> set l. \<not> is_break c"
  shows "splitlines_keep (l @ [cr, lf]) = [l @ [cr, lf]]"
  using assms
proof (induction l)
  case (Cons a l)
  then have "a \<noteq> cr" by auto
  with Cons show ?case by simp
qed simp

subsection \<open>The block\<close>

definition clean_line :: "string \<Rightarrow> bool" where
  "clean_line l = (l \<noteq> [] \<and> (\<forall>c \<in> set l. \<not> is_break c) \<and> \<not> is_space (hd l) \<and> \<not> is_space (last l))"

lemma strip_clean_line:
  assumes "clean_line l" and "ending \<in> {[cr, lf], [lf]}"
  shows "py_strip (l @ ending) = l"
proof -
  have sp: "is_space cr" "is_space lf" by (simp_all add: is_space_def cr_def lf_def code_def)
  obtain a l' where l: "l = a # l'" "\<not> is_space a" using assms(1) by (cases l) (auto simp: clean_line_def)
  obtain b r where r: "l = r @ [b]" "\<not> is_space b"
    using assms(1) by (cases l rule: rev_cases) (auto simp: clean_line_def)
  have "lstrip_on is_space (l @ ending) = l @ ending" using l by (simp add: lstrip_on_def)
  moreover have "rstrip_on is_space (l @ ending) = l"
    using assms(2) sp r(2) by (auto simp: rstrip_on_def r(1))
  ultimately show ?thesis by (simp add: py_strip_def strip_on_def)
qed

lemma clean_markers: "clean_line BEGIN_MARKER" "clean_line END_MARKER" "BEGIN_MARKER \<noteq> END_MARKER"
  by (simp_all add: clean_line_def BEGIN_MARKER_def END_MARKER_def is_break_def is_space_def code_def)

lemma line_ending_cases: "line_ending l \<in> {[cr, lf], [lf]}"
  by (simp add: line_ending_def)

lemma splitlines_keep_clean:
  assumes "clean_line l" and "ending \<in> {[cr, lf], [lf]}"
  shows "splitlines_keep (l @ ending) = [l @ ending]"
  using assms splitlines_keep_line [of l "[]"] splitlines_keep_line_cr [of l] by (auto simp: clean_line_def)

lemma clean_hd: "clean_line l \<Longrightarrow> hd (l @ t) \<noteq> lf"
  by (cases l) (auto simp: clean_line_def)

lemma joinable_block: "ending \<in> {[cr, lf], [lf]} \<Longrightarrow> joinable (a @ ending) b"
  by (auto simp: joinable_def)

lemma splitlines_keep_block:
  assumes "clean_line inc" and "e \<in> {[cr, lf], [lf]}"
  shows "splitlines_keep (concat (include_block inc e) @ t) = include_block inc e @ splitlines_keep t"
proof -
  have line: "splitlines_keep ((l @ e) @ u) = (l @ e) # splitlines_keep u" if "clean_line l" for l u
    by (subst splitlines_keep_append [OF joinable_block [OF assms(2)]])
      (simp add: splitlines_keep_clean [OF that assms(2)])
  show ?thesis
    using line [OF clean_markers(1), of "inc @ e @ END_MARKER @ e @ t"] line [OF assms(1), of "END_MARKER @ e @ t"]
      line [OF clean_markers(2), of t]
    by (simp add: include_block_def)
qed

lemma insert_after_header_shape:
  "insert_after_header inc ls = Some ls' \<Longrightarrow>
   \<exists>pre h post. ls = pre @ h # post \<and> is_global_header h \<and> ls' = pre @ h # include_block inc (line_ending h) @ post"
proof (induction ls arbitrary: ls')
  case (Cons l ls)
  show ?case
  proof (cases "is_global_header l")
    case True
    with Cons.prems have "l # ls = [] @ l # ls \<and> is_global_header l
      \<and> ls' = [] @ l # include_block inc (line_ending l) @ ls" by simp
    then show ?thesis by blast
  next
    case False
    with Cons.prems obtain m where m: "insert_after_header inc ls = Some m" "ls' = l # m" by auto
    from Cons.IH [OF m(1)] obtain pre h post where "ls = pre @ h # post" "is_global_header h"
      "m = pre @ h # include_block inc (line_ending h) @ post" by blast
    then have "l # ls = (l # pre) @ h # post \<and> is_global_header h
      \<and> ls' = (l # pre) @ h # include_block inc (line_ending h) @ post" using m(2) by simp
    then show ?thesis by blast
  qed
qed simp

lemma sweep_clean:
  "\<forall>l \<in> set ls. py_strip l \<noteq> BEGIN_MARKER \<and> py_strip l \<noteq> inc \<Longrightarrow>
   sweep inc False (ls @ ms) = (case sweep inc False ms of (kept, opn) \<Rightarrow> (ls @ kept, opn))"
  by (induction ls) (auto split: prod.split)

lemma sweep_block:
  assumes "clean_line inc" and "inc \<noteq> END_MARKER" and "e \<in> {[cr, lf], [lf]}"
  shows "sweep inc False (include_block inc e @ ls) = sweep inc False ls"
  using clean_markers(3) by (auto simp: include_block_def strip_clean_line [OF clean_markers(1) assms(3)]
      strip_clean_line [OF clean_markers(2) assms(3)] strip_clean_line [OF assms(1,3)] assms(2))

definition stray :: "string \<Rightarrow> string \<Rightarrow> bool" where
  "stray inc text = (\<exists>l \<in> set (splitlines_keep text). py_strip l = inc)"

lemma strip_inside: "\<exists>a b. s = a @ py_strip s @ b"
proof -
  obtain b where b: "lstrip_on is_space s = py_strip s @ b"
    using rstrip_on_prefix [of is_space "lstrip_on is_space s"] by (auto simp: py_strip_def strip_on_def prefix_def)
  have "s = takeWhile is_space s @ lstrip_on is_space s" by (simp add: lstrip_on_def)
  with b show ?thesis by metis
qed

lemma no_marker_lines:
  assumes "\<not> has_include text" and "l \<in> set (splitlines_keep text)"
  shows "py_strip l \<noteq> BEGIN_MARKER"
proof
  assume strip: "py_strip l = BEGIN_MARKER"
  obtain xs ys where "splitlines_keep text = xs @ l # ys" using assms(2) by (auto simp: in_set_conv_decomp)
  then have "text = concat xs @ l @ concat ys" using concat_splitlines_keep [of "text"] by simp
  moreover obtain a b where "l = a @ BEGIN_MARKER @ b" using strip_inside [of l] strip by auto
  ultimately have "text = (concat xs @ a) @ BEGIN_MARKER @ (b @ concat ys)" by simp
  then show False using assms(1) unfolding has_include_def contains_iff by blast
qed

lemma insert_include_shape:
  assumes "\<not> has_include text" and "clean_line inc" and "is_break (last text)"
    and "insert_include inc text = Inr text'"
  shows "\<exists>pre h post. splitlines_keep text = pre @ h # post \<and> is_global_header h
    \<and> splitlines_keep text' = pre @ h # include_block inc (line_ending h) @ post"
proof -
  obtain ls' where ls': "insert_after_header inc (splitlines_keep text) = Some ls'" "text' = concat ls'"
    using assms(1,4) by (auto simp: insert_include_def split: option.splits)
  obtain pre h post where l: "splitlines_keep text = pre @ h # post" "is_global_header h"
    "ls' = pre @ h # include_block inc (line_ending h) @ post"
    using insert_after_header_shape [OF ls'(1)] by blast
  let ?b = "concat (include_block inc (line_ending h))"
  have "splitlines_keep text = (pre @ [h]) @ post" by (simp add: l(1))
  from splitlines_keep_parts [OF this]
  have parts: "splitlines_keep (concat (pre @ [h])) = pre @ [h]" "splitlines_keep (concat post) = post"
    "post = [] \<or> is_break (last (concat (pre @ [h])))" by auto
  have "is_break (last (concat (pre @ [h])))"
    using parts(3) assms(3) concat_splitlines_keep [of "text"] l(1) by (cases "post = []") auto
  moreover have "hd (?b @ concat post) \<noteq> lf"
    using clean_hd [OF clean_markers(1)] by (simp add: include_block_def)
  ultimately have "joinable (concat (pre @ [h])) (?b @ concat post)" by (simp add: joinable_def)
  from splitlines_keep_append [OF this]
  have "splitlines_keep (concat (pre @ [h]) @ ?b @ concat post) = (pre @ [h]) @ include_block inc (line_ending h) @ post"
    by (simp only: parts splitlines_keep_block [OF assms(2) line_ending_cases])
  then have "splitlines_keep text' = pre @ h # include_block inc (line_ending h) @ post"
    by (simp add: ls'(2) l(3))
  with l show ?thesis by blast
qed

lemma insert_marks: "insert_include inc text = Inr text' \<Longrightarrow> has_include text'"
proof -
  assume ins: "insert_include inc text = Inr text'"
  show "has_include text'"
  proof (cases "has_include text")
    case True
    then show ?thesis using ins by (simp add: insert_include_def)
  next
    case False
    with ins obtain ls' where "insert_after_header inc (splitlines_keep text) = Some ls'" "text' = concat ls'"
      by (auto simp: insert_include_def split: option.splits)
    from insert_after_header_shape [OF this(1)] this(2) obtain pre h post where
      "text' = concat (pre @ h # include_block inc (line_ending h) @ post)" by blast
    then have "text' = concat (pre @ [h]) @ BEGIN_MARKER @ (line_ending h @ concat (tl (include_block inc (line_ending h))) @ concat post)"
      by (simp add: include_block_def)
    then show ?thesis unfolding has_include_def contains_iff by blast
  qed
qed

lemma remove_inserted:
  assumes "\<not> has_include text" and "clean_line inc" and "inc \<noteq> END_MARKER" and "\<not> stray inc text"
    and "is_break (last text)" and "insert_include inc text = Inr text'"
  shows "remove_include inc text' = Inr text"
proof -
  obtain pre h post where l: "splitlines_keep text = pre @ h # post"
    "splitlines_keep text' = pre @ h # include_block inc (line_ending h) @ post"
    using insert_include_shape [OF assms(1,2,5,6)] by blast
  have clean: "\<forall>l \<in> set (splitlines_keep text). py_strip l \<noteq> BEGIN_MARKER \<and> py_strip l \<noteq> inc"
    using no_marker_lines [OF assms(1)] assms(4) by (auto simp: stray_def)
  then have pre: "\<forall>l \<in> set (pre @ [h]). py_strip l \<noteq> BEGIN_MARKER \<and> py_strip l \<noteq> inc"
    and post: "\<forall>l \<in> set post. py_strip l \<noteq> BEGIN_MARKER \<and> py_strip l \<noteq> inc" by (auto simp: l(1))
  have "sweep inc False post = (post, False)" using sweep_clean [OF post, of "[]"] by simp
  then have "sweep inc False ((pre @ [h]) @ include_block inc (line_ending h) @ post) = (pre @ h # post, False)"
    unfolding sweep_clean [OF pre] sweep_block [OF assms(2,3) line_ending_cases] by simp
  then show ?thesis using concat_splitlines_keep [of "text"] by (simp add: remove_include_def l)
qed

subsection \<open>Our sections read back\<close>

lemma splitlines_lines_text:
  "ls \<noteq> [] \<Longrightarrow> list_all no_breaks ls \<Longrightarrow> splitlines (lines_text ls @ t) = ls @ splitlines t"
proof (induction ls)
  case (Cons l ls)
  have l: "\<forall>c \<in> set l. \<not> is_break c" using Cons.prems by (simp add: no_breaks_def)
  show ?case
  proof (cases "ls = []")
    case True
    then show ?thesis using splitlines_line [OF l, of t] by (simp add: lines_text_def)
  next
    case False
    then have "lines_text (l # ls) @ t = l @ lf # (lines_text ls @ t)" by (simp add: lines_text_def join_Cons)
    with splitlines_line [OF l] Cons False show ?thesis by simp
  qed
qed simp

definition plain_name :: "string \<Rightarrow> bool" where
  "plain_name n = (n \<noteq> [] \<and> no_breaks n \<and> CHR '']'' \<notin> set n)"

definition plain_share :: "obj \<Rightarrow> bool" where
  "plain_share s =
     (get s ''name'' = JStr (text_of s ''name'') \<and> plain_name (text_of s ''name'')
      \<and> get s ''path'' = JStr (text_of s ''path'') \<and> clean_line (text_of s ''path'')
      \<and> (get s ''credential_ref'' = JNull
          \<or> get s ''credential_ref'' = JStr (text_of s ''credential_ref'') \<and> clean_line (text_of s ''credential_ref''))
      \<and> CHR 0x00 \<notin> set (text_of s ''name'') \<union> set (text_of s ''path'') \<union> set (text_of s ''credential_ref''))"

definition user_of :: "obj \<Rightarrow> string option" where
  "user_of s = (if get s ''credential_ref'' = JNull then None else Some (text_of s ''credential_ref''))"

definition lines_of :: "obj \<Rightarrow> string list" where
  "lines_of s = share_lines (text_of s ''name'') (text_of s ''path'') (truthy (get s ''read_only'')) (user_of s)"

lemma no_breaks_lf: "no_breaks l \<Longrightarrow> lf \<notin> set l \<and> cr \<notin> set l"
  by (auto simp: no_breaks_def)

lemma safe_value_plain:
  "get s k = JStr v \<Longrightarrow> v \<noteq> [] \<Longrightarrow> no_breaks v \<Longrightarrow> CHR 0x00 \<notin> set v \<Longrightarrow> safe_value s k = Inr v"
  using no_breaks_lf [of v] by (simp add: safe_value_def)

lemma clean_no_breaks: "clean_line l \<Longrightarrow> no_breaks l" "clean_line l \<Longrightarrow> l \<noteq> []"
  by (simp_all add: clean_line_def no_breaks_def)

lemma render_share_plain: "plain_share s \<Longrightarrow> render_share s = Inr (lines_text (lines_of s))"
  by (auto simp: plain_share_def plain_name_def render_share_def lines_of_def user_of_def safe_value_plain
      clean_no_breaks)

lemma lits_no_breaks [simp]:
  "no_breaks []" "no_breaks (a @ b) \<longleftrightarrow> no_breaks a \<and> no_breaks b"
  "no_breaks (c # a) \<longleftrightarrow> \<not> is_break c \<and> no_breaks a"
  by (auto simp: no_breaks_def)

lemma lines_of_ne: "lines_of s \<noteq> []"
  by (simp add: lines_of_def share_lines_def)

lemma lines_of_no_breaks: "plain_share s \<Longrightarrow> list_all no_breaks (lines_of s)"
  by (auto simp: plain_share_def plain_name_def lines_of_def share_lines_def user_of_def clean_no_breaks
      is_break_def code_def split: option.split)

lemma strip_self: "s = [] \<or> \<not> is_space (hd s) \<and> \<not> is_space (last s) \<Longrightarrow> py_strip s = s"
  by (simp add: py_strip_def strip_on_id)

lemma strip_indent: "py_strip (''   '' @ s) = py_strip s"
  by (simp add: py_strip_def strip_on_def lstrip_on_def is_space_def code_def)

lemma section_line: "plain_name n \<Longrightarrow> section_of (py_strip (''['' @ n @ '']'')) = Some n"
proof -
  have "py_strip (''['' @ n @ '']'') = ''['' @ n @ '']''"
    by (rule strip_self) (simp add: is_space_def code_def)
  moreover assume "plain_name n"
  ultimately show ?thesis by (cases n) (simp_all add: plain_name_def section_of_def butlast_append)
qed

lemma path_line:
  assumes "clean_line p"
  shows "path_of (py_strip (''   path = '' @ p)) = Some p" and "section_of (py_strip (''   path = '' @ p)) = None"
proof -
  have p: "p \<noteq> []" "\<not> is_space (hd p)" "\<not> is_space (last p)" using assms by (simp_all add: clean_line_def)
  have "py_strip (''   path = '' @ p) = py_strip (''path = '' @ p)" using strip_indent [of "''path = '' @ p"] by simp
  also have "\<dots> = ''path = '' @ p"
    by (rule strip_self) (use p in \<open>simp add: is_space_def code_def\<close>)
  finally have eq: "py_strip (''   path = '' @ p) = ''path = '' @ p" .
  have low: "py_lower ''path'' = ''path''" by code_simp
  have sp: "is_space CHR '' ''" "\<not> is_space CHR ''=''" by (simp_all add: is_space_def code_def)
  have "lstrip_on is_space ('' '' @ p) = p" using p sp by (cases p) (simp_all add: lstrip_on_def)
  moreover have "py_strip ('' '' @ p) = p"
    using p sp strip_self [of p] by (simp add: py_strip_def strip_on_def lstrip_on_def)
  moreover have "lf \<notin> set p" using clean_no_breaks(1) [OF assms] no_breaks_lf by blast
  ultimately show "path_of (py_strip (''   path = '' @ p)) = Some p"
    unfolding eq using low sp by (simp add: path_of_def lstrip_on_def)
  show "section_of (py_strip (''   path = '' @ p)) = None" unfolding eq by (simp add: section_of_def)
qed

text \<open>A line that is neither a section nor a path.\<close>

definition other_line :: "string \<Rightarrow> bool" where
  "other_line l = (section_of (py_strip l) = None \<and> path_of (py_strip l) = None)"

lemma other_by_head:
  assumes "\<not> is_space c" and "c \<noteq> CHR ''[''" and "py_lower [c] \<noteq> ''p''"
  shows "other_line (''   '' @ c # s)" and "other_line (c # s)"
proof -
  obtain t where t: "py_strip (c # s) = c # t"
  proof -
    have "lstrip_on is_space (c # s) = c # s" using assms(1) by (simp add: lstrip_on_def)
    moreover have "rstrip_on is_space (c # s) \<noteq> []"
      using assms(1) by (simp add: rstrip_on_def dropWhile_eq_Nil_conv)
    moreover have "prefix (rstrip_on is_space (c # s)) (c # s)" by (rule rstrip_on_prefix)
    ultimately show ?thesis using that by (cases "rstrip_on is_space (c # s)") (auto simp: py_strip_def strip_on_def)
  qed
  have "py_lower (take 4 (c # t)) \<noteq> ''path''" using assms(3) by (simp add: py_lower_def)
  then have "section_of (c # t) = None" "path_of (c # t) = None"
    using assms(2) by (simp_all add: section_of_def path_of_def)
  then show "other_line (c # s)" "other_line (''   '' @ c # s)"
    using t strip_indent [of "c # s"] by (simp_all add: other_line_def)
qed

lemma read_other: "other_line l \<Longrightarrow> read_sections cur acc (l # ls) = read_sections cur acc ls"
  by (simp add: other_line_def split: option.split)

lemma read_others: "list_all other_line ls \<Longrightarrow> read_sections cur acc (ls @ ms) = read_sections cur acc ms"
  by (induction ls) (simp_all add: read_other del: read_sections.simps(2))

lemma other_lines:
  "other_line []" "other_line (''   read only = '' @ v)" "other_line ''   browseable = yes''"
  "other_line ''   guest ok = no''" "other_line (''   valid users = '' @ v)"
proof -
  show "other_line []" by (simp add: other_line_def py_strip_def strip_on_def lstrip_on_def rstrip_on_def section_of_def path_of_def py_lower_def)
  have p: "py_lower ''r'' \<noteq> ''p''" "py_lower ''b'' \<noteq> ''p''" "py_lower ''g'' \<noteq> ''p''" "py_lower ''v'' \<noteq> ''p''" by code_simp+
  have s: "\<not> is_space CHR ''r''" "\<not> is_space CHR ''b''" "\<not> is_space CHR ''g''" "\<not> is_space CHR ''v''"
    by (simp_all add: is_space_def code_def)
  show "other_line (''   read only = '' @ v)" using other_by_head(1) [OF s(1) _ p(1)] by simp
  show "other_line ''   browseable = yes''" using other_by_head(1) [OF s(2) _ p(2), of "''rowseable = yes''"] by simp
  show "other_line ''   guest ok = no''" using other_by_head(1) [OF s(3) _ p(3), of "''uest ok = no''"] by simp
  show "other_line (''   valid users = '' @ v)" using other_by_head(1) [OF s(4) _ p(4)] by simp
qed

lemma read_share:
  assumes "plain_share s" and "text_of s ''name'' \<notin> fst ` set acc"
  shows "read_sections cur acc (lines_of s @ ls)
    = read_sections (Some (text_of s ''name'')) (acc @ [(text_of s ''name'', text_of s ''path'')]) ls"
proof -
  let ?n = "text_of s ''name''" and ?p = "text_of s ''path''"
  have n: "plain_name ?n" and p: "clean_line ?p" using assms(1) by (simp_all add: plain_share_def)
  let ?rest = "tl (tl (lines_of s))"
  have lines: "lines_of s = (''['' @ ?n @ '']'') # (''   path = '' @ ?p) # ?rest"
    by (simp add: lines_of_def share_lines_def)
  have rest: "list_all other_line ?rest"
    using other_lines by (auto simp: lines_of_def share_lines_def split: option.split)
  have "AList.update ?n ?p (acc @ [(?n, [])]) = acc @ [(?n, ?p)]"
    using assms(2) by (induction acc) auto
  then show ?thesis
    using section_line [OF n] path_line [OF p] assms(2) read_others [OF rest]
    by (subst lines) simp
qed

fun spaced :: "string list list \<Rightarrow> string list" where
  "spaced [] = []"
| "spaced [ls] = ls"
| "spaced (ls # lss) = ls @ [] # spaced lss"

lemma splitlines_spaced:
  "lss \<noteq> [] \<Longrightarrow> \<forall>ls \<in> set lss. ls \<noteq> [] \<and> list_all no_breaks ls \<Longrightarrow>
   splitlines (join [lf] (map lines_text lss)) = spaced lss"
proof (induction lss rule: spaced.induct)
  case (2 ls)
  then show ?case using splitlines_lines_text [of ls "[]"] by simp
next
  case (3 ls l ls')
  have blank: "splitlines (lf # t) = [] # splitlines t" for t using splitlines_line [of "[]" t] by simp
  have "join [lf] (map lines_text (ls # l # ls')) = lines_text ls @ lf # join [lf] (map lines_text (l # ls'))"
    by simp
  then show ?case using 3 splitlines_lines_text [of ls] by (simp add: blank)
qed simp

definition header_lines :: "string list" where
  "header_lines = butlast (split_char lf HEADER)"

lemma header_lines: "HEADER = lines_text header_lines" "header_lines \<noteq> []" "list_all no_breaks header_lines"
  "list_all other_line header_lines"
  unfolding header_lines_def other_line_def no_breaks_def by code_simp+

lemma read_shares:
  assumes "list_all plain_share ss" and "distinct (map (\<lambda>s. text_of s ''name'') ss)"
    and "\<forall>s \<in> set ss. text_of s ''name'' \<notin> fst ` set acc"
  shows "read_sections cur acc (spaced (map lines_of ss)) = acc @ map (\<lambda>s. (text_of s ''name'', text_of s ''path'')) ss"
  using assms
proof (induction ss arbitrary: cur acc)
  case (Cons s ss)
  let ?new = "acc @ [(text_of s ''name'', text_of s ''path'')]"
  show ?case
  proof (cases ss)
    case Nil
    then show ?thesis using read_share [of s acc cur "[]"] Cons.prems by simp
  next
    case (Cons t ts)
    have "read_sections cur acc (spaced (map lines_of (s # ss)))
        = read_sections (Some (text_of s ''name'')) ?new ([] # spaced (map lines_of ss))"
      using read_share [of s acc cur] Cons.prems Cons by simp
    also have "\<dots> = read_sections (Some (text_of s ''name'')) ?new (spaced (map lines_of ss))"
      by (rule read_other) (rule other_lines)
    also have "\<dots> = ?new @ map (\<lambda>s. (text_of s ''name'', text_of s ''path'')) ss"
      by (rule Cons.IH) (use Cons.prems in \<open>auto simp: image_iff\<close>)
    finally show ?thesis by simp
  qed
qed simp

text \<open>C15: What we write is what Samba reads: in the file rendered for any list of shares whose names, paths
  and users are plain, the sections read back as exactly the enabled shares with their paths, in order;
  a disabled share leaves no section.\<close>

theorem rendered_file_reads_back:
  assumes "list_all plain_share (filter enabled shares)"
    and "distinct (map (\<lambda>s. text_of s ''name'') (filter enabled shares))"
  shows "\<exists>text. render shares = Inr text
    \<and> sections_of text = map (\<lambda>s. (text_of s ''name'', text_of s ''path'')) (filter enabled shares)"
proof -
  let ?ss = "filter enabled shares"
  let ?text = "join [lf] (HEADER # map (\<lambda>s. lines_text (lines_of s)) ?ss)"
  have "map_res render_share ?ss = Inr (map (\<lambda>s. lines_text (lines_of s)) ?ss)"
    by (rule map_res_total) (use assms(1) render_share_plain in \<open>auto simp: list_all_iff\<close>)
  then have "render shares = Inr ?text" by (simp add: render_def)
  have all: "\<forall>ls \<in> set (header_lines # map lines_of ?ss). ls \<noteq> [] \<and> list_all no_breaks ls"
  proof
    fix ls assume "ls \<in> set (header_lines # map lines_of ?ss)"
    then consider "ls = header_lines" | s where "s \<in> set ?ss" "ls = lines_of s" by auto
    then show "ls \<noteq> [] \<and> list_all no_breaks ls"
    proof cases
      case 1
      then show ?thesis using header_lines by simp
    next
      case 2
      then have "plain_share s" using assms(1) by (simp add: list_all_iff)
      then show ?thesis using lines_of_no_breaks 2 by (simp add: lines_of_ne)
    qed
  qed
  have "?text = join [lf] (map lines_text (header_lines # map lines_of ?ss))"
    by (simp add: header_lines(1) comp_def)
  then have "splitlines ?text = spaced (header_lines # map lines_of ?ss)"
    using splitlines_spaced [OF _ all] by (simp only: list.simps not_False_eq_True simp_thms)
  moreover have "read_sections None [] (spaced (header_lines # map lines_of ?ss))
      = read_sections None [] (spaced (map lines_of ?ss))"
  proof (cases "map lines_of ?ss")
    case Nil
    then show ?thesis using read_others [OF header_lines(4), of None "[]" "[]"] by simp
  next
    case (Cons l ls)
    then show ?thesis
      using read_others [OF header_lines(4)] read_other [OF other_lines(1)] by (simp del: read_sections.simps(2))
  qed
  ultimately have "sections_of ?text = map (\<lambda>s. (text_of s ''name'', text_of s ''path'')) ?ss"
    using read_shares [OF assms, of "[]" None] by (simp add: sections_of_def)
  with \<open>render shares = Inr ?text\<close> show ?thesis by blast
qed

definition two_shares :: "obj list" where
  "two_shares =
     [[(''id'', JStr ''a''), (''name'', JStr ''Films''), (''path'', JStr ''/srv/films''), (''credential_ref'', JNull)],
      [(''id'', JStr ''b''), (''name'', JStr ''Old''), (''path'', JStr ''/srv/old''), (''enabled'', JBool False)],
      [(''id'', JStr ''c''), (''name'', JStr ''Music [lossless''), (''path'', JStr ''/srv/path = x''),
       (''credential_ref'', JStr ''ann''), (''read_only'', JBool True)]]"

theorem rendered_file_reads_back_witness:
  "\<exists>text. render two_shares = Inr text
    \<and> sections_of text = [(''Films'', ''/srv/films''), (''Music [lossless'', ''/srv/path = x'')]"
proof -
  have "list_all plain_share (filter enabled two_shares)"
    "distinct (map (\<lambda>s. text_of s ''name'') (filter enabled two_shares))"
    "map (\<lambda>s. (text_of s ''name'', text_of s ''path'')) (filter enabled two_shares)
      = [(''Films'', ''/srv/films''), (''Music [lossless'', ''/srv/path = x'')]"
    unfolding plain_share_def plain_name_def no_breaks_def by code_simp+
  with rendered_file_reads_back [of two_shares] show ?thesis by simp
qed

text \<open>C16: The include block is a round trip: inserted in a \<open>smb.conf\<close> that does not have it, whose last line
  is ended and which has no line of ours already, it comes out again leaving the file byte for byte
  as it was; and inserting it a second time changes nothing.\<close>

theorem include_round_trip:
  assumes "\<not> has_include text" and "clean_line inc" and "inc \<noteq> END_MARKER" and "\<not> stray inc text"
    and "is_break (last text)" and "insert_include inc text = Inr text'"
  shows "remove_include inc text' = Inr text \<and> insert_include inc text' = Inr text'"
  using remove_inserted [OF assms] insert_marks [OF assms(6)] by (simp add: insert_include_def)

definition crlf_conf :: string where
  "crlf_conf = ''# mine'' @ [lf] @ ''  [Global]'' @ [cr, lf] @ ''workgroup = X'' @ [cr, lf] @ ''[homes]'' @ [lf]"

theorem include_round_trip_witness:
  "\<exists>text'. insert_include ''include = /etc/samba/smbpal.conf'' crlf_conf = Inr text' \<and> text' \<noteq> crlf_conf
    \<and> remove_include ''include = /etc/samba/smbpal.conf'' text' = Inr crlf_conf
    \<and> insert_include ''include = /etc/samba/smbpal.conf'' text' = Inr text'"
proof -
  let ?inc = "''include = /etc/samba/smbpal.conf''"
  have c: "\<not> has_include crlf_conf" "clean_line ?inc" "?inc \<noteq> END_MARKER" "\<not> stray ?inc crlf_conf"
    "is_break (last crlf_conf)" "\<not> isl (insert_include ?inc crlf_conf)"
    unfolding clean_line_def stray_def by code_simp+
  then obtain text' where t: "insert_include ?inc crlf_conf = Inr text'" by (cases "insert_include ?inc crlf_conf") simp_all
  then have "text' \<noteq> crlf_conf" using insert_marks [OF t] c(1) by auto
  with include_round_trip [OF c(1-5) t] t show ?thesis by blast
qed

text \<open>Without the ending of the last line the round trip is lost: the begin marker lands on the header's
  own line, so the marker is not a line any more and the lines after it are taken for a file's own.\<close>

lemma unended_header_is_not_restored:
  "insert_include ''include = /x'' ''[global]''
     = Inr (concat [''[global]'', ''# >>> smbpal >>>'', [lf], ''include = /x'', [lf], ''# <<< smbpal <<<'', [lf]])
   \<and> remove_include ''include = /x'' (concat [''[global]'', ''# >>> smbpal >>>'', [lf], ''include = /x'', [lf], ''# <<< smbpal <<<'', [lf]])
     = Inr (concat [''[global]'', ''# >>> smbpal >>>'', [lf], ''# <<< smbpal <<<'', [lf]])"
  by code_simp

end
