(* ===== verification/Applier.thy ===== *)
theory Applier
  imports Ownership Occupancy Include
begin

text \<open>
  \<^verbatim>\<open>smbpal/samba/apply.py\<close> and \<^verbatim>\<open>smbpal/discovery/advertise.py\<close>: from the configuration to a serving Samba and
  back. The three files and the programs that are run are those of the \<open>applier\<close> and the \<open>system\<close>.
\<close>

record applier =
  smb_conf :: string
  smbpal_conf :: string
  service_file :: string

definition include_line :: "applier \<Rightarrow> string" where
  "include_line ap = ''include = '' @ smbpal_conf ap"

subsection \<open>The mDNS record\<close>

definition quoted :: "string \<Rightarrow> string" where "quoted s = [quote2] @ s @ [quote2]"

definition SERVICE_XML :: string where
  "SERVICE_XML = concat (map (\<lambda>l. l @ [lf])
     [''<?xml version='' @ quoted ''1.0'' @ '' standalone='' @ [quote1] @ ''no'' @ [quote1] @ ''?><!--*-nxml-*-->'',
      ''<!DOCTYPE service-group SYSTEM '' @ quoted ''avahi-service.dtd'' @ ''>'',
      ''<!-- Written by SMBPal while at least one share is active. Removed when none is. -->'',
      ''<service-group>'',
      ''  <name replace-wildcards='' @ quoted ''yes'' @ ''>%h</name>'',
      ''  <service>'',
      ''    <type>_smbpal._tcp</type>'',
      ''    <port>445</port>'',
      ''    <txt-record>v=1</txt-record>'',
      ''  </service>'',
      ''</service-group>''])"

definition raw_os :: "os_error \<Rightarrow> py_error" where "raw_os e = OSError"

definition publish :: "'x system \<Rightarrow> string \<Rightarrow> 'x host \<Rightarrow> bool res \<times> 'x host" where
  "publish sys file h =
     (let key = components file in
      case exists_at (faults_of sys) key h of
        Inl e \<Rightarrow> (Inl (raw_os e), h)
      | Inr there \<Rightarrow>
          if there \<and> read_text (faults_of sys) key h = Inr SERVICE_XML then (Inr True, h)
          else then_do (raising (\<lambda>_. AdvertiseError (''cannot write '' @ file))
                 (write_text (faults_of sys) key SERVICE_XML 420 493 h)) (\<lambda>_ h. (Inr True, h)))"

definition withdraw :: "'x system \<Rightarrow> string \<Rightarrow> 'x host \<Rightarrow> bool res \<times> 'x host" where
  "withdraw sys file h =
     (let key = components file in
      case exists_at (faults_of sys) key h of
        Inl e \<Rightarrow> (Inl (raw_os e), h)
      | Inr there \<Rightarrow>
          if there
          then then_do (raising (\<lambda>_. AdvertiseError (''cannot remove '' @ file)) (unlink (faults_of sys) key h))
                 (\<lambda>_ h. (Inr False, h))
          else (Inr False, h))"

definition reconcile :: "'x system \<Rightarrow> string \<Rightarrow> nat \<Rightarrow> 'x host \<Rightarrow> bool res \<times> 'x host" where
  "reconcile sys file share_count h = (if share_count > 0 then publish sys file h else withdraw sys file h)"

subsection \<open>Planning\<close>

record planned_share =
  ps_share :: obj
  ps_status :: dir_status
  ps_read_only :: bool
  ps_reason :: "read_only_reason option"

definition identity_for :: "accounts \<Rightarrow> obj \<Rightarrow> serving option" where
  "identity_for acc share =
     (if \<not> truthy (get share ''credential_ref'') then None
      else case serving_identity acc (text_of share ''credential_ref'') of Inl _ \<Rightarrow> None | Inr who \<Rightarrow> Some who)"

definition plan_share :: "'x system \<Rightarrow> 'x host \<Rightarrow> obj \<Rightarrow> planned_share res" where
  "plan_share sys h share =
     and_then (inspect_directory (accounts_of sys) (faults_of sys) (text_of share ''path'')
                 (identity_for (accounts_of sys) share) h) (\<lambda>st.
       case effective_read_only (truthy (get share ''read_only'')) st of
         (read_only, reason) \<Rightarrow>
           Inr \<lparr>ps_share = share, ps_status = st, ps_read_only = read_only,
                ps_reason = (if ds_exists st then reason else Some (Created_on_apply (text_of share ''path'')))\<rparr>)"

definition plan_shares :: "'x system \<Rightarrow> obj \<Rightarrow> 'x host \<Rightarrow> planned_share list res" where
  "plan_shares sys config h = map_res (plan_share sys h) (records config ''shares'')"

subsection \<open>Applying\<close>

fun create_missing :: "'x system \<Rightarrow> planned_share list \<Rightarrow> 'x host \<Rightarrow> unit res \<times> 'x host" where
  "create_missing sys [] h = (Inr (), h)"
| "create_missing sys (item # later) h =
     (if ds_exists (ps_status item) \<or> \<not> enabled (ps_share item) then create_missing sys later h
      else case identity_for (accounts_of sys) (ps_share item) of
        None \<Rightarrow> create_missing sys later h
      | Some who \<Rightarrow>
          then_do (create_directory (accounts_of sys) (faults_of sys) (text_of (ps_share item) ''path'') who h)
            (\<lambda>_ h. create_missing sys later h))"

definition write_conf :: "'x system \<Rightarrow> string \<Rightarrow> string \<Rightarrow> int \<Rightarrow> 'x host \<Rightarrow> unit res \<times> 'x host" where
  "write_conf sys file txt m h =
     raising (\<lambda>_. ApplyError (''cannot write '' @ file)) (write_text (faults_of sys) (components file) txt m 493 h)"

definition mode_of :: "'x system \<Rightarrow> string \<Rightarrow> 'x host \<Rightarrow> int" where
  "mode_of sys file h =
     (case stat_at (faults_of sys) (components file) h of Inl _ \<Rightarrow> 420 | Inr n \<Rightarrow> mode n AND 511)"

definition ensure_include :: "'x system \<Rightarrow> applier \<Rightarrow> 'x host \<Rightarrow> unit res \<times> 'x host" where
  "ensure_include sys ap h =
     (case read_text (faults_of sys) (components (smb_conf ap)) h of
        Inl ENOENT \<Rightarrow> (Inl (ApplyError (smb_conf ap @ '' does not exist'')), h)
      | Inl e \<Rightarrow> (Inl (ApplyError (''cannot read '' @ smb_conf ap)), h)
      | Inr original \<Rightarrow>
          (case insert_include (include_line ap) original of
             Inl e \<Rightarrow> (Inl e, h)
           | Inr updated \<Rightarrow>
               if updated = original then (Inr (), h)
               else write_conf sys (smb_conf ap) updated (mode_of sys (smb_conf ap) h) h))"

record apply_report =
  ar_shares :: "planned_share list"
  ar_served :: "string list"
  ar_advertising :: bool

definition rendered_shares :: "planned_share list \<Rightarrow> obj list" where
  "rendered_shares planned = map (\<lambda>p. AList.update ''read_only'' (JBool (ps_read_only p)) (ps_share p)) planned"

definition share_names :: "planned_share list \<Rightarrow> string list" where
  "share_names planned = remdups (map (\<lambda>p. text_of (ps_share p) ''name'') planned)"

definition serve :: "'x system \<Rightarrow> applier \<Rightarrow> planned_share list \<Rightarrow> 'x host \<Rightarrow> apply_report res \<times> 'x host" where
  "serve sys ap planned h =
     (let active = filter (\<lambda>p. enabled (ps_share p)) planned in
      then_do (render (rendered_shares active), h) (\<lambda>txt h.
      then_do (write_conf sys (smbpal_conf ap) txt 420 h) (\<lambda>_ h.
      then_do (ensure_include sys ap h) (\<lambda>_ h.
      then_do (reload_config (exec_of sys) h) (\<lambda>_ h.
      then_do (verify_present (exec_of sys) (share_names active) h) (\<lambda>_ h.
      then_do (reconcile sys (service_file ap) (length active) h) (\<lambda>advertising h.
        (Inr \<lparr>ar_shares = planned, ar_served = sort (share_names active), ar_advertising = advertising\<rparr>, h))))))))"

definition apply_shares :: "'x system \<Rightarrow> applier \<Rightarrow> obj \<Rightarrow> 'x host \<Rightarrow> apply_report res \<times> 'x host" where
  "apply_shares sys ap config h =
     then_do (plan_shares sys config h, h) (\<lambda>planned h.
     then_do (create_missing sys planned h) (\<lambda>_ h.
     then_do (plan_shares sys config h, h) (\<lambda>planned h. serve sys ap planned h)))"

subsection \<open>Taking it down\<close>

record teardown_report =
  td_include_removed :: bool
  td_conf_removed :: bool

definition drop_include :: "'x system \<Rightarrow> applier \<Rightarrow> 'x host \<Rightarrow> bool res \<times> 'x host" where
  "drop_include sys ap h =
     (case read_text (faults_of sys) (components (smb_conf ap)) h of
        Inl ENOENT \<Rightarrow> (Inr False, h)
      | Inl e \<Rightarrow> (Inl (raw_os e), h)
      | Inr original \<Rightarrow>
          (case remove_include (include_line ap) original of
             Inl e \<Rightarrow> (Inl e, h)
           | Inr stripped \<Rightarrow>
               if stripped = original then (Inr False, h)
               else then_do (write_conf sys (smb_conf ap) stripped (mode_of sys (smb_conf ap) h) h)
                      (\<lambda>_ h. (Inr True, h))))"

text \<open>A Samba that will not reload is only logged.\<close>

definition reload_quietly :: "'x system \<Rightarrow> 'x host \<Rightarrow> unit res \<times> 'x host" where
  "reload_quietly sys h =
     (case reload_config (exec_of sys) h of
        (Inl e, h') \<Rightarrow> (if is_smbpal_error e then (Inr (), h') else (Inl e, h'))
      | r \<Rightarrow> r)"

definition teardown_shares :: "'x system \<Rightarrow> applier \<Rightarrow> 'x host \<Rightarrow> teardown_report res \<times> 'x host" where
  "teardown_shares sys ap h =
     (let key = components (smbpal_conf ap); flt = faults_of sys in
      then_do (drop_include sys ap h) (\<lambda>include_removed h.
      then_do (raise_as raw_os (exists_at flt key h), h) (\<lambda>conf_removed h.
      then_do (raising raw_os (unlink_missing_ok flt key h)) (\<lambda>_ h.
      then_do (withdraw sys (service_file ap) h) (\<lambda>_ h.
      then_do (reload_quietly sys h) (\<lambda>_ h.
        (Inr \<lparr>td_include_removed = include_removed, td_conf_removed = conf_removed\<rparr>, h)))))))"

end
