(* ===== verification/Serving.thy ===== *)
theory Serving
  imports Applier
begin

text \<open>
  What an apply leaves behind and that a teardown takes it back (\<^verbatim>\<open>smbpal/samba/apply.py\<close>).
\<close>

subsection \<open>What the system is relied on for\<close>

text \<open>The programs that are run leave files alone (\<open>testparm\<close> and \<open>smbcontrol\<close> write none), running one
  raises only the exceptions of \<open>run\<close>, and a \<open>stat\<close> that fails for another reason does not say that the file is
  missing. None of the applier's three files lies inside another.\<close>

definition commands_keep_files :: "'x system \<Rightarrow> bool" where
  "commands_keep_files sys = (\<forall>argv h q. look (snd (exec_of sys argv h)) q = look h q)"

definition commands_raise_known :: "'x system \<Rightarrow> bool" where
  "commands_raise_known sys = (\<forall>argv h e. fst (exec_of sys argv h) = Inl e \<longrightarrow> is_smbpal_error e)"

definition honest_stat :: "'x faults \<Rightarrow> bool" where
  "honest_stat flt = (\<forall>p h e. flt (Stat p) h = Some e \<longrightarrow> \<not> swallowed e)"

definition separate_files :: "applier \<Rightarrow> bool" where
  "separate_files ap =
     (let a = components (smb_conf ap); b = components (smbpal_conf ap); c = components (service_file ap)
      in \<not> prefix a b \<and> \<not> prefix a c \<and> \<not> prefix b a \<and> \<not> prefix b c \<and> \<not> prefix c a \<and> \<not> prefix c b)"

subsection \<open>Steps\<close>

definition still_there :: "'x host \<Rightarrow> 'x host \<Rightarrow> bool" where
  "still_there h h' = (\<forall>q. look h q \<noteq> None \<longrightarrow> look h' q = look h q)"

lemma still_there_refl [simp]: "still_there h h"
  by (simp add: still_there_def)

lemma still_there_trans: "still_there h h1 \<Longrightarrow> still_there h1 h2 \<Longrightarrow> still_there h h2"
  by (simp add: still_there_def)

lemma create_directory_keeps: "create_directory acc flt p who h = (r, h') \<Longrightarrow> still_there h h'"
  using make_dirs_keeps [of flt "dir_chain (components p) 493" h]
  by (auto simp: create_directory_def Let_def still_there_def chown_def attempt_def
      split: if_splits sum.splits prod.splits option.splits node.splits)

lemma create_missing_keeps: "create_missing sys ps h = (r, h') \<Longrightarrow> still_there h h'"
proof (induction sys ps h rule: create_missing.induct)
  case (2 sys item later h)
  show ?case
  proof (cases "ds_exists (ps_status item) \<or> \<not> enabled (ps_share item) \<or> identity_for (accounts_of sys) (ps_share item) = None")
    case True
    with 2 show ?thesis by (auto split: if_splits)
  next
    case False
    then obtain who where who: "identity_for (accounts_of sys) (ps_share item) = Some who" by auto
    let ?c = "create_directory (accounts_of sys) (faults_of sys) (text_of (ps_share item) ''path'') who h"
    obtain rc hc where c: "?c = (rc, hc)" by fastforce
    have keep: "still_there h hc" by (rule create_directory_keeps [OF c])
    show ?thesis
    proof (cases rc)
      case (Inl e)
      then show ?thesis using "2.prems" False who c keep by simp
    next
      case (Inr st)
      then have "create_missing sys later hc = (r, h')" using "2.prems" False who c by simp
      with "2.IH"(3) [OF _ who c [symmetric] Inr] False have "still_there hc h'" by blast
      with keep show ?thesis by (rule still_there_trans)
    qed
  qed
qed simp

lemma write_conf_done:
  "write_conf sys file body m h = (Inr u, h') \<Longrightarrow> components file \<noteq> [] \<Longrightarrow>
   look h' (components file) = Some (Regular body m) \<and> same_but (components file) h h'"
  unfolding write_conf_def raising_Inr by (rule write_text_done)

lemma no_cr_universal: "cr \<notin> set (universal s)"
proof -
  have "cr \<notin> set (newlines_from b s)" for b by (induction b s rule: newlines_from.induct) auto
  then show ?thesis by (simp add: universal_def)
qed

lemma include_line_no_cr: "cr \<notin> set (smbpal_conf ap) \<Longrightarrow> cr \<notin> set (include_line ap)"
  by (simp add: include_line_def cr_def)

lemma insert_no_cr:
  assumes "insert_include inc body = Inr body'" and "cr \<notin> set body" and "cr \<notin> set inc"
  shows "cr \<notin> set body'"
proof (cases "has_include body")
  case True
  then show ?thesis using assms by (simp add: insert_include_def)
next
  case False
  then obtain ls' where ls': "insert_after_header inc (splitlines_keep body) = Some ls'" "body' = concat ls'"
    using assms(1) by (auto simp: insert_include_def split: option.splits)
  obtain pre h post where l: "splitlines_keep body = pre @ h # post" "ls' = pre @ h # include_block inc (line_ending h) @ post"
    using insert_after_header_shape [OF ls'(1)] by blast
  have "set (concat (splitlines_keep body)) = set body" by simp
  then have parts: "cr \<notin> set h" "\<forall>l \<in> set pre. cr \<notin> set l" "\<forall>l \<in> set post. cr \<notin> set l" using assms(2) by (auto simp: l(1))
  have "line_ending h = [lf]" using parts(1) by (auto simp: line_ending_def suffix_def)
  moreover have "cr \<notin> set BEGIN_MARKER" "cr \<notin> set END_MARKER" by (simp_all add: BEGIN_MARKER_def END_MARKER_def cr_def)
  ultimately show ?thesis using parts assms(3) by (auto simp: ls'(2) l(2) include_block_def)
qed

lemma read_text_look: "read_text flt p h = Inr t \<Longrightarrow> \<exists>s m. look h p = Some (Regular s m) \<and> t = universal s"
  by (auto simp: read_text_def split: option.splits node.splits)

lemma ensure_include_done:
  assumes "ensure_include sys ap h = (Inr u, h')" and "components (smb_conf ap) \<noteq> []" and "cr \<notin> set (smbpal_conf ap)"
  shows "\<exists>t m. look h' (components (smb_conf ap)) = Some (Regular t m) \<and> has_include (universal t)"
    and "same_but (components (smb_conf ap)) h h'"
proof -
  obtain t where t: "read_text (faults_of sys) (components (smb_conf ap)) h = Inr t"
    using assms(1) by (auto simp: ensure_include_def split: sum.splits os_error.splits)
  then obtain s m where s: "look h (components (smb_conf ap)) = Some (Regular s m)" "t = universal s"
    using read_text_look by blast
  obtain t' where t': "insert_include (include_line ap) t = Inr t'"
    using assms(1) t by (auto simp: ensure_include_def split: sum.splits)
  have mark: "has_include t'" by (rule insert_marks [OF t'])
  have "(\<exists>t m. look h' (components (smb_conf ap)) = Some (Regular t m) \<and> has_include (universal t))
      \<and> same_but (components (smb_conf ap)) h h'"
  proof (cases "t' = t")
    case True
    then have "h' = h" using assms(1) t t' by (simp add: ensure_include_def)
    then show ?thesis using s mark True by (simp add: same_but_def)
  next
    case False
    then have "write_conf sys (smb_conf ap) t' (mode_of sys (smb_conf ap) h) h = (Inr u, h')"
      using assms(1) t t' by (simp add: ensure_include_def)
    from write_conf_done [OF this assms(2)] mark
      universal_id [OF insert_no_cr [OF t' _ include_line_no_cr [OF assms(3)]]] no_cr_universal [of s]
    show ?thesis by (auto simp: s(2))
  qed
  then show "\<exists>t m. look h' (components (smb_conf ap)) = Some (Regular t m) \<and> has_include (universal t)"
    and "same_but (components (smb_conf ap)) h h'" by blast+
qed

lemma exec_keeps: "commands_keep_files sys \<Longrightarrow> exec_of sys argv h = (r, h') \<Longrightarrow> look h' q = look h q"
  unfolding commands_keep_files_def by (metis snd_conv)

lemma reload_keeps:
  assumes "commands_keep_files sys" and "reload_config (exec_of sys) h = (r, h')"
  shows "look h' q = look h q"
proof -
  obtain c where "exec_of sys [''smbcontrol'', ''all'', ''reload-config''] h = (c, h')"
    using assms(2) by (auto simp: reload_config_def split: prod.splits)
  from exec_keeps [OF assms(1) this] show ?thesis .
qed

lemma effective_keeps:
  assumes "commands_keep_files sys" and "effective_shares (exec_of sys) h = (r, h')"
  shows "look h' q = look h q"
proof -
  obtain c where "exec_of sys [''testparm'', ''-s''] h = (c, h')"
    using assms(2) by (auto simp: effective_shares_def split: prod.splits)
  from exec_keeps [OF assms(1) this] show ?thesis .
qed

lemma verify_done:
  assumes "verify_present ex names h = (Inr u, h')"
  obtains served where "effective_shares ex h = (Inr served, h')" and "set names \<subseteq> fst ` set served"
proof -
  obtain r where r: "effective_shares ex h = (r, h')" using assms by (auto simp: verify_present_def split: prod.splits)
  then obtain served where "r = Inr served" "missing_from names served = []"
    using assms by (auto simp: verify_present_def split: if_splits)
  moreover from this(2) have "set names \<subseteq> fst ` set served"
  proof -
    have "set (missing_from names served) = {}" using \<open>missing_from names served = []\<close> by simp
    then show ?thesis by (auto simp: missing_from_def)
  qed
  ultimately show thesis using that r by blast
qed

lemma xml_no_cr: "cr \<notin> set SERVICE_XML"
  by (simp add: SERVICE_XML_def quoted_def quote1_def quote2_def cr_def lf_def)

lemma reconcile_done:
  assumes "reconcile sys file n h = (Inr b, h')" and "components file \<noteq> []" and "honest_stat (faults_of sys)"
  shows "b \<longleftrightarrow> n > 0" and "\<forall>q. q \<noteq> components file \<longrightarrow> look h q \<noteq> None \<longrightarrow> look h' q = look h q"
    and "n > 0 \<Longrightarrow> \<exists>t m. look h' (components file) = Some (Regular t m) \<and> universal t = SERVICE_XML"
    and "n = 0 \<Longrightarrow> look h' (components file) = None"
proof -
  let ?k = "components file"
  obtain there where there: "exists_at (faults_of sys) ?k h = Inr there"
    using assms(1) by (auto simp: reconcile_def publish_def withdraw_def Let_def split: if_splits sum.splits)
  have gone: "\<not> there \<Longrightarrow> look h ?k = None"
    using there assms(3) by (auto simp: exists_at_def stat_at_def honest_stat_def split: option.splits if_splits)
  have "(b \<longleftrightarrow> n > 0) \<and> (\<forall>q. q \<noteq> ?k \<longrightarrow> look h q \<noteq> None \<longrightarrow> look h' q = look h q)
    \<and> (n > 0 \<longrightarrow> (\<exists>t m. look h' ?k = Some (Regular t m) \<and> universal t = SERVICE_XML)) \<and> (n = 0 \<longrightarrow> look h' ?k = None)"
  proof (cases "n > 0")
    case True
    then have run: "publish sys file h = (Inr b, h')" using assms(1) by (simp add: reconcile_def)
    show ?thesis
    proof (cases "there \<and> read_text (faults_of sys) ?k h = Inr SERVICE_XML")
      case same: True
      then show ?thesis using run there True read_text_look [of "faults_of sys" ?k h SERVICE_XML]
        by (auto simp: publish_def Let_def)
    next
      case False
      then have "write_text (faults_of sys) ?k SERVICE_XML 420 493 h = (Inr (), h') \<and> b"
        using run there unfolding publish_def Let_def by (auto simp: then_do_Inr simp del: write_text_def)
      with write_text_done [OF _ assms(2)] have "look h' ?k = Some (Regular SERVICE_XML 420)" "same_but ?k h h'" "b"
        by blast+
      then show ?thesis using True universal_id [OF xml_no_cr] by (auto simp: same_but_def)
    qed
  next
    case False
    then have "withdraw sys file h = (Inr b, h')" using assms(1) by (simp add: reconcile_def)
    then show ?thesis using there gone False
      by (auto simp: withdraw_def Let_def then_do_Inr unlink_def attempt_def split: if_splits option.splits node.splits)
  qed
  then show "b \<longleftrightarrow> n > 0" and "\<forall>q. q \<noteq> components file \<longrightarrow> look h q \<noteq> None \<longrightarrow> look h' q = look h q"
    and "n > 0 \<Longrightarrow> \<exists>t m. look h' (components file) = Some (Regular t m) \<and> universal t = SERVICE_XML"
    and "n = 0 \<Longrightarrow> look h' (components file) = None" by blast+
qed

subsection \<open>The whole apply\<close>

lemma map_res_pick: "map_res f xs = Inr ys \<Longrightarrow> (\<And>x y. f x = Inr y \<Longrightarrow> g y = x) \<Longrightarrow> map g ys = xs"
  by (induction xs arbitrary: ys) auto

lemma plan_share_done:
  assumes "plan_share sys h share = Inr p"
  shows "ps_share p = share"
    and "\<not> ps_read_only p \<Longrightarrow> \<not> truthy (get share ''read_only'') \<and> ds_writable (ps_status p) \<noteq> Some False"
  using assms by (auto simp: plan_share_def effective_read_only_def split: if_splits)

lemma plan_shares_done:
  assumes "plan_shares sys config h = Inr planned"
  shows "map ps_share planned = records config ''shares''"
    and "p \<in> set planned \<Longrightarrow> \<not> ps_read_only p \<Longrightarrow>
      \<not> truthy (get (ps_share p) ''read_only'') \<and> ds_writable (ps_status p) \<noteq> Some False"
proof -
  show "map ps_share planned = records config ''shares''"
    using assms plan_share_done(1) unfolding plan_shares_def by (intro map_res_pick) blast+
  have "map_res f xs = Inr ys \<Longrightarrow> y \<in> set ys \<Longrightarrow> \<exists>x. f x = Inr y" for f :: "obj \<Rightarrow> planned_share res" and xs ys y
    by (induction xs arbitrary: ys) auto
  then show "p \<in> set planned \<Longrightarrow> \<not> ps_read_only p \<Longrightarrow>
      \<not> truthy (get (ps_share p) ''read_only'') \<and> ds_writable (ps_status p) \<noteq> Some False"
    using assms plan_share_done unfolding plan_shares_def by metis
qed

text \<open>The states an apply that returns goes through.\<close>

lemma serve_steps:
  assumes "serve sys ap planned h = (Inr rep, h')"
  obtains body h2 h3 h4 h5 adv where "render (rendered_shares (filter (\<lambda>p. enabled (ps_share p)) planned)) = Inr body"
    and "write_conf sys (smbpal_conf ap) body 420 h = (Inr (), h2)" and "ensure_include sys ap h2 = (Inr (), h3)"
    and "reload_config (exec_of sys) h3 = (Inr (), h4)"
    and "verify_present (exec_of sys) (share_names (filter (\<lambda>p. enabled (ps_share p)) planned)) h4 = (Inr (), h5)"
    and "reconcile sys (service_file ap) (length (filter (\<lambda>p. enabled (ps_share p)) planned)) h5 = (Inr adv, h')"
    and "rep = \<lparr>ar_shares = planned, ar_served = sort (share_names (filter (\<lambda>p. enabled (ps_share p)) planned)),
                ar_advertising = adv\<rparr>"
  using assms unfolding serve_def Let_def then_do_Inr by (fastforce simp: then_do_Inr)

lemma apply_steps:
  assumes "apply_shares sys ap config h = (Inr rep, h')"
  obtains h1 where "still_there h h1" and "plan_shares sys config h1 = Inr (ar_shares rep)"
    and "serve sys ap (ar_shares rep) h1 = (Inr rep, h')"
proof -
  obtain planned0 h1 planned where s: "create_missing sys planned0 h = (Inr (), h1)"
    "plan_shares sys config h1 = Inr planned" "serve sys ap planned h1 = (Inr rep, h')"
    using assms unfolding apply_shares_def then_do_Inr by (auto simp: then_do_Inr)
  have "ar_shares rep = planned" by (rule serve_steps [OF s(3)]) simp
  with s that create_missing_keeps [OF s(1)] show thesis by blast
qed

lemma separate_neq:
  assumes "separate_files ap"
  shows "components (smb_conf ap) \<noteq> components (smbpal_conf ap)" "components (smb_conf ap) \<noteq> components (service_file ap)"
    "components (smbpal_conf ap) \<noteq> components (service_file ap)" "components (smb_conf ap) \<noteq> []"
    "components (smbpal_conf ap) \<noteq> []" "components (service_file ap) \<noteq> []"
  using assms by (auto simp: separate_files_def Let_def)

text \<open>The files after an apply, in terms of the state its planning left.\<close>

definition applied_files :: "'x system \<Rightarrow> applier \<Rightarrow> planned_share list \<Rightarrow> 'x host \<Rightarrow> bool" where
  "applied_files sys ap planned h' =
     (let active = filter (\<lambda>p. enabled (ps_share p)) planned in
      (\<exists>body. render (rendered_shares active) = Inr body \<and> look h' (components (smbpal_conf ap)) = Some (Regular body 420))
      \<and> (\<exists>t m. look h' (components (smb_conf ap)) = Some (Regular t m) \<and> has_include (universal t))
      \<and> (if active = [] then look h' (components (service_file ap)) = None
         else \<exists>t m. look h' (components (service_file ap)) = Some (Regular t m) \<and> universal t = SERVICE_XML))"

lemma serve_files:
  assumes "serve sys ap planned h = (Inr rep, h')" and "commands_keep_files sys"
    and "honest_stat (faults_of sys)" and sep: "separate_files ap" and "cr \<notin> set (smbpal_conf ap)"
  shows "applied_files sys ap planned h'"
    and "\<exists>x served x'. effective_shares (exec_of sys) x = (Inr served, x') \<and> set (ar_served rep) \<subseteq> fst ` set served
      \<and> (\<forall>q \<in> {components (smb_conf ap), components (smbpal_conf ap)}. look x q = look h' q)"
proof -
  let ?active = "filter (\<lambda>p. enabled (ps_share p)) planned"
  let ?smb = "components (smb_conf ap)" and ?own = "components (smbpal_conf ap)" and ?xml = "components (service_file ap)"
  note neq = separate_neq [OF sep]
  from assms(1) obtain body h2 h3 h4 h5 adv where st: "render (rendered_shares ?active) = Inr body"
    "write_conf sys (smbpal_conf ap) body 420 h = (Inr (), h2)" "ensure_include sys ap h2 = (Inr (), h3)"
    "reload_config (exec_of sys) h3 = (Inr (), h4)" "verify_present (exec_of sys) (share_names ?active) h4 = (Inr (), h5)"
    "reconcile sys (service_file ap) (length ?active) h5 = (Inr adv, h')"
    "rep = \<lparr>ar_shares = planned, ar_served = sort (share_names ?active), ar_advertising = adv\<rparr>"
    by (rule serve_steps)
  have own3: "look h3 ?own = Some (Regular body 420)"
    using write_conf_done [OF st(2) neq(5)] same_but_kept [OF ensure_include_done(2) [OF st(3) neq(4) assms(5)] neq(1) [symmetric]]
    by blast
  obtain t m where smb3: "look h3 ?smb = Some (Regular t m)" "has_include (universal t)"
    using ensure_include_done(1) [OF st(3) neq(4) assms(5)] by blast
  obtain served where sv: "effective_shares (exec_of sys) h4 = (Inr served, h5)" "set (share_names ?active) \<subseteq> fst ` set served"
    by (rule verify_done [OF st(5)])
  have l4: "look h4 q = look h3 q" for q by (rule reload_keeps [OF assms(2) st(4)])
  have l5: "look h5 q = look h4 q" for q by (rule effective_keeps [OF assms(2) sv(1)])
  note rec = reconcile_done [OF st(6) neq(6) assms(3)]
  have own: "look h' ?own = Some (Regular body 420)" and smb: "look h' ?smb = Some (Regular t m)"
    using rec(2) neq(2,3) own3 smb3 l4 l5 by auto
  show "applied_files sys ap planned h'"
    unfolding applied_files_def Let_def using st(1) own smb smb3(2) rec(3,4) by auto
  have "set (ar_served rep) \<subseteq> fst ` set served" using sv(2) st(7) by simp
  moreover have "\<forall>q \<in> {?smb, ?own}. look h4 q = look h' q" using own smb own3 smb3 l4 by auto
  ultimately show "\<exists>x served x'. effective_shares (exec_of sys) x = (Inr served, x') \<and> set (ar_served rep) \<subseteq> fst ` set served
      \<and> (\<forall>q \<in> {?smb, ?own}. look x q = look h' q)" using sv(1) by blast
qed


subsection \<open>And back\<close>

lemma ensure_include_inserts:
  assumes "ensure_include sys ap h = (Inr u, h')" and "components (smb_conf ap) \<noteq> []"
    and "look h (components (smb_conf ap)) = Some (Regular t m)" and "cr \<notin> set t" and "\<not> has_include t"
    and "\<And>c x. faults_of sys c x = None"
  obtains t' where "insert_include (include_line ap) t = Inr t'"
    and "look h' (components (smb_conf ap)) = Some (Regular t' (m AND 511))"
proof -
  have read: "read_text (faults_of sys) (components (smb_conf ap)) h = Inr t"
    using assms(3,4,6) by (simp add: read_text_def universal_id)
  then obtain t' where t': "insert_include (include_line ap) t = Inr t'"
    using assms(1) by (auto simp: ensure_include_def split: sum.splits)
  have "t' \<noteq> t" using insert_marks [OF t'] assms(5) by auto
  moreover have "mode_of sys (smb_conf ap) h = m AND 511" using assms(3,6) by (simp add: mode_of_def stat_at_def)
  ultimately have "write_conf sys (smb_conf ap) t' (m AND 511) h = (Inr u, h')"
    using assms(1) read t' by (simp add: ensure_include_def)
  with t' that write_conf_done [OF this assms(2)] show thesis by blast
qed

text \<open>A file a serving pass does not own, and that is not one of the three, stays.\<close>

lemma serve_keeps:
  assumes "serve sys ap planned h = (Inr rep, h')" and "commands_keep_files sys"
    and "honest_stat (faults_of sys)" and "separate_files ap" and "cr \<notin> set (smbpal_conf ap)"
    and "look h q = Some n" and "q \<notin> components ` {smb_conf ap, smbpal_conf ap, service_file ap}"
  shows "look h' q = Some n"
proof -
  note neq = separate_neq [OF assms(4)]
  from assms(1) obtain body h2 h3 h4 h5 adv where st:
    "write_conf sys (smbpal_conf ap) body 420 h = (Inr (), h2)" "ensure_include sys ap h2 = (Inr (), h3)"
    "reload_config (exec_of sys) h3 = (Inr (), h4)"
    "verify_present (exec_of sys) (share_names (filter (\<lambda>p. enabled (ps_share p)) planned)) h4 = (Inr (), h5)"
    "reconcile sys (service_file ap) (length (filter (\<lambda>p. enabled (ps_share p)) planned)) h5 = (Inr adv, h')"
    by (rule serve_steps) blast
  obtain served where sv: "effective_shares (exec_of sys) h4 = (Inr served, h5)" by (rule verify_done [OF st(4)])
  have "look h3 q = Some n"
    using assms(6,7) write_conf_done [OF st(1) neq(5)] ensure_include_done(2) [OF st(2) neq(4) assms(5)]
      same_but_kept by blast
  then have "look h5 q = Some n"
    using reload_keeps [OF assms(2) st(3)] effective_keeps [OF assms(2) sv] by simp
  then show ?thesis using reconcile_done(2) [OF st(5) neq(6) assms(3)] assms(7) by auto
qed

lemma serve_inserts:
  assumes "serve sys ap planned h = (Inr rep, h')" and "commands_keep_files sys"
    and "\<And>c x. faults_of sys c x = None" and "separate_files ap" and "cr \<notin> set (smbpal_conf ap)"
    and "look h (components (smb_conf ap)) = Some (Regular t m)" and "cr \<notin> set t" and "\<not> has_include t"
  obtains t' where "insert_include (include_line ap) t = Inr t'"
    and "look h' (components (smb_conf ap)) = Some (Regular t' (m AND 511))"
proof -
  let ?smb = "components (smb_conf ap)"
  note neq = separate_neq [OF assms(4)]
  have hon: "honest_stat (faults_of sys)" using assms(3) by (simp add: honest_stat_def)
  from assms(1) obtain body h2 h3 h4 h5 adv where st:
    "write_conf sys (smbpal_conf ap) body 420 h = (Inr (), h2)" "ensure_include sys ap h2 = (Inr (), h3)"
    "reload_config (exec_of sys) h3 = (Inr (), h4)"
    "verify_present (exec_of sys) (share_names (filter (\<lambda>p. enabled (ps_share p)) planned)) h4 = (Inr (), h5)"
    "reconcile sys (service_file ap) (length (filter (\<lambda>p. enabled (ps_share p)) planned)) h5 = (Inr adv, h')"
    by (rule serve_steps) blast
  have "look h2 ?smb = Some (Regular t m)"
    using assms(6) write_conf_done [OF st(1) neq(5)] same_but_kept neq(1) by blast
  from ensure_include_inserts [OF st(2) neq(4) this assms(7,8,3)] obtain t' where t':
    "insert_include (include_line ap) t = Inr t'" "look h3 ?smb = Some (Regular t' (m AND 511))" .
  obtain served where sv: "effective_shares (exec_of sys) h4 = (Inr served, h5)" by (rule verify_done [OF st(4)])
  have "look h5 ?smb = Some (Regular t' (m AND 511))"
    using t'(2) reload_keeps [OF assms(2) st(3)] effective_keeps [OF assms(2) sv] by simp
  then have "look h' ?smb = Some (Regular t' (m AND 511))"
    using reconcile_done(2) [OF st(5) neq(6) hon] neq(2) by auto
  with t' that show thesis by blast
qed

lemma ancestor_not_file:
  assumes "separate_files ap" and "d \<in> set (ancestors (components (smb_conf ap)))"
  shows "d \<notin> components ` {smb_conf ap, smbpal_conf ap, service_file ap}"
proof -
  obtain n where n: "d = take n (components (smb_conf ap))" "n < length (components (smb_conf ap))"
    using assms(2) by (auto simp: ancestors_def)
  then have "prefix d (components (smb_conf ap))" "d \<noteq> components (smb_conf ap)"
    by (auto simp: take_is_prefix dest: arg_cong [where f = length])
  then show ?thesis using assms(1) by (auto simp: separate_files_def Let_def)
qed

lemma drop_include_restores:
  assumes "\<And>c x. faults_of sys c x = None" and "components (smb_conf ap) \<noteq> []"
    and "look h (components (smb_conf ap)) = Some (Regular t' m)" and "cr \<notin> set t'" and "m AND 511 = m"
    and "remove_include (include_line ap) t' = Inr t" and "t \<noteq> t'"
    and "\<forall>d \<in> set (ancestors (components (smb_conf ap))). \<exists>u g k. look h d = Some (Directory u g k)"
  obtains h' where "drop_include sys ap h = (Inr True, h')"
    and "look h' (components (smb_conf ap)) = Some (Regular t m)" and "\<forall>q. q \<noteq> components (smb_conf ap) \<longrightarrow> look h' q = look h q"
proof -
  let ?smb = "components (smb_conf ap)"
  have "\<forall>u g k. look h ?smb \<noteq> Some (Directory u g k)" using assms(3) by simp
  from write_text_returns [OF _ assms(2) this assms(8), of "faults_of sys" t m 493] obtain h' where
    w: "write_text (faults_of sys) ?smb t m 493 h = (Inr (), h')" "look h' ?smb = Some (Regular t m)"
    "\<forall>q. q \<noteq> ?smb \<longrightarrow> look h' q = look h q" using assms(1) by blast
  have "read_text (faults_of sys) ?smb h = Inr t'" using assms(1,3,4) by (simp add: read_text_def universal_id)
  moreover have "mode_of sys (smb_conf ap) h = m" using assms(1,3,5) by (simp add: mode_of_def stat_at_def)
  ultimately have "drop_include sys ap h = (Inr True, h')"
    using assms(6,7) w by (simp add: drop_include_def write_conf_def raising_def)
  with that w(2,3) show thesis by blast
qed

lemma reload_quietly_done:
  assumes "commands_keep_files sys" and "commands_raise_known sys"
  obtains h' where "reload_quietly sys h = (Inr (), h')" and "\<forall>q. look h' q = look h q"
proof -
  let ?argv = "[''smbcontrol'', ''all'', ''reload-config'']"
  obtain c h' where c: "exec_of sys ?argv h = (c, h')" by fastforce
  then have "\<forall>q. look h' q = look h q" using exec_keeps [OF assms(1)] by blast
  moreover have "reload_quietly sys h = (Inr (), h')"
  proof (cases c)
    case (Inl e)
    then have "is_smbpal_error e" using assms(2) c unfolding commands_raise_known_def by (metis fst_conv)
    then show ?thesis using c Inl by (simp add: reload_quietly_def reload_config_def)
  next
    case (Inr r)
    then show ?thesis
      using c by (auto simp: reload_quietly_def reload_config_def is_smbpal_error_def error_code_def)
  qed
  ultimately show thesis using that by blast
qed

text \<open>C20: Serving is reversible: whatever an apply did, the teardown after it returns, brings the
  administrator's \<open>smb.conf\<close> back byte for byte and with its permissions, and leaves neither our file nor the
  mDNS record behind. (The file has no carriage return, ends its last line, and did not have our line.)\<close>

theorem teardown_undoes_apply:
  assumes "apply_shares sys ap config h = (Inr rep, h1)" and "commands_keep_files sys" and "commands_raise_known sys"
    and "\<And>c x. faults_of sys c x = None" and "separate_files ap" and "clean_line (include_line ap)"
    and "look h (components (smb_conf ap)) = Some (Regular t m)" and "m AND 511 = m"
    and "cr \<notin> set t" and "\<not> has_include t" and "is_break (last t)" and "\<not> stray (include_line ap) t"
    and "\<forall>d \<in> set (ancestors (components (smb_conf ap))). \<exists>u g k. look h d = Some (Directory u g k)"
  shows "\<exists>td h2. teardown_shares sys ap h1 = (Inr td, h2) \<and> td_include_removed td \<and> td_conf_removed td
    \<and> look h2 (components (smb_conf ap)) = Some (Regular t m) \<and> look h2 (components (smbpal_conf ap)) = None
    \<and> look h2 (components (service_file ap)) = None"
proof -
  let ?smb = "components (smb_conf ap)" and ?own = "components (smbpal_conf ap)" and ?xml = "components (service_file ap)"
  note neq = separate_neq [OF assms(5)]
  have hon: "honest_stat (faults_of sys)" using assms(4) by (simp add: honest_stat_def)
  have nocr: "cr \<notin> set (include_line ap)" using assms(6) by (auto simp: clean_line_def)
  then have nocr': "cr \<notin> set (smbpal_conf ap)" by (simp add: include_line_def)
  obtain h0 where s: "still_there h h0" "serve sys ap (ar_shares rep) h0 = (Inr rep, h1)"
    by (rule apply_steps [OF assms(1)]) blast
  have smb0: "look h0 ?smb = Some (Regular t m)" using s(1) assms(7) by (simp add: still_there_def)
  from serve_inserts [OF s(2) assms(2,4,5) nocr' smb0 assms(9,10)] assms(8) obtain t' where
    t': "insert_include (include_line ap) t = Inr t'" "look h1 ?smb = Some (Regular t' m)" by auto
  have files: "applied_files sys ap (ar_shares rep) h1" by (rule serve_files(1) [OF s(2) assms(2) hon assms(5) nocr'])
  have dirs: "\<forall>d \<in> set (ancestors ?smb). \<exists>u g k. look h1 d = Some (Directory u g k)"
  proof
    fix d assume d: "d \<in> set (ancestors ?smb)"
    then obtain u g k where "look h d = Some (Directory u g k)" using assms(13) by blast
    then have "look h0 d = Some (Directory u g k)" using s(1) by (simp add: still_there_def)
    from serve_keeps [OF s(2) assms(2) hon assms(5) nocr' this ancestor_not_file [OF assms(5) d]]
    show "\<exists>u g k. look h1 d = Some (Directory u g k)" by blast
  qed
  have "include_line ap \<noteq> END_MARKER" by (simp add: include_line_def END_MARKER_def)
  from remove_inserted [OF assms(10,6) this assms(12,11) t'(1)] have rem: "remove_include (include_line ap) t' = Inr t" .
  have "t \<noteq> t'" using insert_marks [OF t'(1)] assms(10) by auto
  from drop_include_restores [OF assms(4) neq(4) t'(2) insert_no_cr [OF t'(1) assms(9) nocr] assms(8) rem this dirs]
  obtain h2 where d2: "drop_include sys ap h1 = (Inr True, h2)" "look h2 ?smb = Some (Regular t m)"
    "\<forall>q. q \<noteq> ?smb \<longrightarrow> look h2 q = look h1 q" .
  have own2: "\<exists>s k. look h2 ?own = Some (Regular s k)"
    and xml2: "look h2 ?xml = None \<or> (\<exists>s k. look h2 ?xml = Some (Regular s k))"
    using files d2(3) neq(1,2) by (auto simp: applied_files_def Let_def split: if_splits)
  let ?h3 = "discard ?own h2"
  have own3: "unlink_missing_ok (faults_of sys) ?own h2 = (Inr (), ?h3)" "exists_at (faults_of sys) ?own h2 = Inr True"
    using own2 assms(4) by (auto simp: unlink_missing_ok_def unlink_def attempt_def exists_at_def stat_at_def)
  have "\<exists>h4. withdraw sys (service_file ap) ?h3 = (Inr False, h4) \<and> look h4 ?xml = None
      \<and> (\<forall>q. q \<noteq> ?xml \<longrightarrow> look h4 q = look ?h3 q)"
    using xml2 neq(3) assms(4)
    by (auto simp: withdraw_def unlink_def attempt_def exists_at_def stat_at_def swallowed_def raising_def)
  then obtain h4 where h4: "withdraw sys (service_file ap) ?h3 = (Inr False, h4)" "look h4 ?xml = None"
    "\<forall>q. q \<noteq> ?xml \<longrightarrow> look h4 q = look ?h3 q" by blast
  obtain h5 where h5: "reload_quietly sys h4 = (Inr (), h5)" "\<forall>q. look h5 q = look h4 q"
    by (rule reload_quietly_done [OF assms(2,3)])
  have "teardown_shares sys ap h1 = (Inr \<lparr>td_include_removed = True, td_conf_removed = True\<rparr>, h5)"
    using d2(1) own3 h4(1) h5(1) by (simp add: teardown_shares_def Let_def raising_def)
  moreover have "look h5 ?smb = Some (Regular t m)" "look h5 ?own = None" "look h5 ?xml = None"
    using h5(2) h4(2,3) d2(2) neq by auto
  ultimately show ?thesis by auto
qed

subsection \<open>A machine on which the properties apply\<close>

definition demo_applier :: applier where
  "demo_applier = \<lparr>smb_conf = ''/s/smb.conf'', smbpal_conf = ''/s/pal.conf'', service_file = ''/s/avahi''\<rparr>"

text \<open>\<open>testparm\<close> prints our file, the other commands succeed.\<close>

definition demo_exec :: "unit host exec" where
  "demo_exec argv h =
     (Inr \<lparr>cr_returncode = 0,
        cr_stdout = (if argv = [''testparm'', ''-s'']
                     then (case look h [''s'', ''pal.conf''] of Some (Regular s _) \<Rightarrow> s | _ \<Rightarrow> []) else []),
        cr_stderr = []\<rparr>, h)"

definition demo_system :: "unit system" where
  "demo_system = \<lparr>faults_of = (\<lambda>_ _. None), exec_of = demo_exec, accounts_of = pi_accounts\<rparr>"

definition demo_smb_conf :: string where
  "demo_smb_conf = ''[global]'' @ [lf] @ '' a = b'' @ [lf]"

definition demo_host :: "unit host" where
  "demo_host = \<lparr>files = [([''s''], Directory 0 0 493), ([''s'', ''smb.conf''], Regular demo_smb_conf 420)],
     mountinfo = None, ext = ()\<rparr>"

definition demo_config :: obj where
  "demo_config = [(''version'', JInt 1), (''shares'', JList
     [JObj [(''type'', JStr ''smb''), (''id'', JStr ''media''), (''name'', JStr ''Media''), (''path'', JStr ''/m''),
            (''credential_ref'', JStr ''pi'')]])]"

lemma demo_run:
  "case apply_shares demo_system demo_applier demo_config demo_host of
     (r, h) \<Rightarrow> (case r of Inl _ \<Rightarrow> False | Inr rep \<Rightarrow> ar_served rep = [''Media''] \<and> ar_advertising rep)"
  by code_simp

lemma demo_facts:
  "commands_keep_files demo_system" "commands_raise_known demo_system" "\<And>c x. faults_of demo_system c x = None"
  "honest_stat (faults_of demo_system)" "separate_files demo_applier" "clean_line (include_line demo_applier)"
  "cr \<notin> set (smbpal_conf demo_applier)" "components (smb_conf demo_applier) = [''s'', ''smb.conf'']"
  "components (smbpal_conf demo_applier) = [''s'', ''pal.conf'']" "components (service_file demo_applier) = [''s'', ''avahi'']"
proof -
  show "commands_keep_files demo_system" "commands_raise_known demo_system" "\<And>c x. faults_of demo_system c x = None"
    "honest_stat (faults_of demo_system)"
    by (simp_all add: commands_keep_files_def commands_raise_known_def honest_stat_def demo_system_def demo_exec_def)
  show "separate_files demo_applier" by code_simp
  show "clean_line (include_line demo_applier)" unfolding clean_line_def by code_simp
  show "cr \<notin> set (smbpal_conf demo_applier)" by code_simp
  show "components (smb_conf demo_applier) = [''s'', ''smb.conf'']" by code_simp
  show "components (smbpal_conf demo_applier) = [''s'', ''pal.conf'']" by code_simp
  show "components (service_file demo_applier) = [''s'', ''avahi'']" by code_simp
qed


theorem teardown_undoes_apply_witness:
  "\<exists>rep h1 td h2. apply_shares demo_system demo_applier demo_config demo_host = (Inr rep, h1)
    \<and> teardown_shares demo_system demo_applier h1 = (Inr td, h2)
    \<and> look h2 [''s'', ''smb.conf''] = Some (Regular demo_smb_conf 420) \<and> look h2 [''s'', ''pal.conf''] = None"
proof -
  obtain r h1 where run: "apply_shares demo_system demo_applier demo_config demo_host = (r, h1)" by fastforce
  with demo_run obtain rep where rep: "r = Inr rep" by (auto split: sum.splits)
  have l: "look demo_host (components (smb_conf demo_applier)) = Some (Regular demo_smb_conf 420)"
    unfolding demo_facts(8) by (simp add: look_def demo_host_def)
  have t: "(420::int) AND 511 = 420" "cr \<notin> set demo_smb_conf" "\<not> has_include demo_smb_conf" "is_break (last demo_smb_conf)"
    "\<not> stray (include_line demo_applier) demo_smb_conf"
    unfolding stray_def by (simp, code_simp+)
  have "ancestors [''s'', ''smb.conf''] = [[''s'']]" by code_simp
  then have d: "\<forall>d \<in> set (ancestors (components (smb_conf demo_applier))). \<exists>u g k. look demo_host d = Some (Directory u g k)"
    unfolding demo_facts(8) by (simp add: look_def demo_host_def)
  from teardown_undoes_apply [OF run [unfolded rep] demo_facts(1-3,5,6) l t d] run rep show ?thesis
    by (auto simp: demo_facts)
qed

end
