(* ===== verification/Mounter.thy ===== *)
theory Mounter
  imports Ownership Occupancy
begin

text \<open>
  \<^verbatim>\<open>smbpal/mounts/credentials.py\<close> and \<^verbatim>\<open>smbpal/mounts/apply.py\<close>: the cifs credentials files, and the units
  of the connections brought in line with a configuration. The journal and the log are not modelled, so a call that is
  made only to word a warning is left out.
\<close>

subsection \<open>Credentials files\<close>

definition CREDENTIALS_MODE :: int where "CREDENTIALS_MODE = 384"
definition CREDENTIALS_DIR_MODE :: int where "CREDENTIALS_DIR_MODE = 448"

definition forbidden :: "string \<Rightarrow> bool" where
  "forbidden s = (cr \<in> set s \<or> lf \<in> set s \<or> CHR 0x00 \<in> set s)"

definition path_for :: "string \<Rightarrow> string \<Rightarrow> string res" where
  "path_for dir ref =
     (if is_id ref then Inr (dir @ [slash] @ ref)
      else Inl (InvalidParams (repr_str ref @ '' is not a usable credential reference'')))"

definition check_value :: "string \<Rightarrow> string \<Rightarrow> unit res" where
  "check_value label v =
     (if v = [] then Inl (InvalidParams (''the '' @ label @ '' must not be empty''))
      else if forbidden v then Inl (InvalidParams (''the '' @ label @ '' contains a line break or NUL''))
      else Inr ())"

definition check_domain :: "string option \<Rightarrow> unit res" where
  "check_domain domain =
     (case domain of
        Some d \<Rightarrow> if forbidden d then Inl (InvalidParams ''the domain contains a line break or NUL'') else Inr ()
      | None \<Rightarrow> Inr ())"

definition credentials_body :: "string \<Rightarrow> string \<Rightarrow> string option \<Rightarrow> string" where
  "credentials_body username password domain =
     ''username='' @ username @ [lf] @ ''password='' @ password @ [lf]
     @ (case domain of None \<Rightarrow> [] | Some d \<Rightarrow> if d = [] then [] else ''domain='' @ d @ [lf])"

definition write_credentials ::
    "'x system \<Rightarrow> string \<Rightarrow> string \<Rightarrow> string \<Rightarrow> string \<Rightarrow> string option \<Rightarrow> 'x host \<Rightarrow> string res \<times> 'x host" where
  "write_credentials sys dir ref username password domain h =
     then_do (check_value ''username'' username, h) (\<lambda>_ h.
     then_do (check_value ''password'' password, h) (\<lambda>_ h.
     then_do (check_domain domain, h) (\<lambda>_ h.
     then_do (path_for dir ref, h) (\<lambda>file h.
     then_do (raising (\<lambda>_. CredentialsError (''cannot write '' @ file))
        (write_text (faults_of sys) (components file) (credentials_body username password domain)
           CREDENTIALS_MODE CREDENTIALS_DIR_MODE h)) (\<lambda>_ h.
       (Inr file, h))))))"

definition remove_credentials :: "'x system \<Rightarrow> string \<Rightarrow> string \<Rightarrow> 'x host \<Rightarrow> unit res \<times> 'x host" where
  "remove_credentials sys dir ref h =
     then_do (path_for dir ref, h) (\<lambda>file h.
       raising (\<lambda>_. CredentialsError (''cannot remove '' @ file)) (unlink_missing_ok (faults_of sys) (components file) h))"

definition credentials_exist :: "'x system \<Rightarrow> string \<Rightarrow> string \<Rightarrow> 'x host \<Rightarrow> bool res" where
  "credentials_exist sys dir ref h =
     and_then (path_for dir ref) (\<lambda>file. raise_as (\<lambda>_. OSError) (exists_at (faults_of sys) (components file) h))"

definition username_for :: "'x system \<Rightarrow> string \<Rightarrow> string \<Rightarrow> 'x host \<Rightarrow> string option res" where
  "username_for sys dir ref h =
     and_then (path_for dir ref) (\<lambda>file.
       case read_text (faults_of sys) (components file) h of
         Inl _ \<Rightarrow> Inr None
       | Inr body \<Rightarrow>
           Inr (map_option (drop 9) (find (prefix ''username='') (splitlines body))))"

subsection \<open>The mounter\<close>

record mounter =
  unit_dir :: string
  credentials_dir :: string
  managed_roots :: "string list"

datatype connection_word = Probed probe_word | Occupied | No_credentials

record planned_connection =
  pc_connection :: obj
  pc_mount_unit :: string
  pc_automount_unit :: string
  pc_state :: connection_word
  pc_has_credentials :: bool

definition mountpoint_of :: "obj \<Rightarrow> string" where "mountpoint_of c = text_of c ''mountpoint''"
definition mount_unit_name :: "obj \<Rightarrow> string" where "mount_unit_name c = fst (unit_names (mountpoint_of c))"
definition automount_name :: "obj \<Rightarrow> string" where "automount_name c = snd (unit_names (mountpoint_of c))"

definition has_credentials :: "'x system \<Rightarrow> mounter \<Rightarrow> 'x host \<Rightarrow> obj \<Rightarrow> bool res" where
  "has_credentials sys mo h c =
     (if truthy (get c ''credential_ref'')
      then credentials_exist sys (credentials_dir mo) (text_of c ''credential_ref'') h else Inr False)"

definition plan_connection :: "'x system \<Rightarrow> mounter \<Rightarrow> 'x host \<Rightarrow> obj \<Rightarrow> planned_connection res" where
  "plan_connection sys mo h c =
     and_then (has_credentials sys mo h c) (\<lambda>has.
       Inr \<lparr>pc_connection = c, pc_mount_unit = mount_unit_name c, pc_automount_unit = automount_name c,
            pc_state =
              (if foreign_occupant (mountinfo h) c \<noteq> None then Occupied
               else if \<not> has \<and> truthy (get c ''credential_ref'') then No_credentials
               else Probed (probe_word_of (mountinfo h) (mountpoint_of c) False None)),
            pc_has_credentials = has\<rparr>)"

definition plan_mounts :: "'x system \<Rightarrow> mounter \<Rightarrow> obj \<Rightarrow> 'x host \<Rightarrow> planned_connection list res" where
  "plan_mounts sys mo config h = map_res (plan_connection sys mo h) (records config ''connections'')"

subsection \<open>Writing the units\<close>

definition mountpoint_busy :: "os_error \<Rightarrow> bool" where
  "mountpoint_busy e = (e \<in> {ENODEV, ENOTCONN, EHOSTDOWN, ETIMEDOUT, ESTALE, EIO, EREMOTEIO})"

definition ensure_mountpoint :: "'x system \<Rightarrow> string \<Rightarrow> 'x host \<Rightarrow> unit res \<times> 'x host" where
  "ensure_mountpoint sys mountpoint h =
     (let key = components mountpoint in
      case is_dir_at (faults_of sys) key h of
        Inl e \<Rightarrow> if mountpoint_busy e then (Inr (), h) else (Inl (MountError (''cannot inspect '' @ mountpoint)), h)
      | Inr present \<Rightarrow>
          if present then (Inr (), h)
          else raising (\<lambda>_. MountError (''cannot create '' @ mountpoint))
                 (if look h key \<noteq> None then (Inl EEXIST, h) else make_dirs (faults_of sys) (dir_chain key 493) h))"

definition credentials_path :: "'x system \<Rightarrow> mounter \<Rightarrow> 'x host \<Rightarrow> obj \<Rightarrow> string option res" where
  "credentials_path sys mo h c =
     and_then (has_credentials sys mo h c) (\<lambda>has.
       if has then and_then (path_for (credentials_dir mo) (text_of c ''credential_ref'')) (\<lambda>p. Inr (Some p))
       else Inr None)"

definition with_owner_ids :: "accounts \<Rightarrow> obj \<Rightarrow> obj" where
  "with_owner_ids acc c =
     (if \<not> truthy (get c ''owner'') then c
      else case by_name acc (text_of c ''owner'') of
        None \<Rightarrow> c
      | Some (u, g) \<Rightarrow> AList.update ''gid'' (JInt g) (AList.update ''uid'' (JInt u) c))"

definition unit_key :: "mounter \<Rightarrow> string \<Rightarrow> path" where
  "unit_key mo name = components (unit_dir mo) @ [name]"

definition write_unit :: "'x system \<Rightarrow> mounter \<Rightarrow> string \<Rightarrow> string \<Rightarrow> 'x host \<Rightarrow> unit res \<times> 'x host" where
  "write_unit sys mo name body h =
     raising (\<lambda>_. MountError (''cannot write '' @ unit_dir mo @ [slash] @ name))
       (write_text (faults_of sys) (unit_key mo name) body 420 493 h)"

definition write_pair :: "'x system \<Rightarrow> mounter \<Rightarrow> obj \<Rightarrow> 'x host \<Rightarrow> unit res \<times> 'x host" where
  "write_pair sys mo c h =
     then_do (ensure_mountpoint sys (mountpoint_of c) h) (\<lambda>_ h.
     then_do (credentials_path sys mo h c, h) (\<lambda>creds h.
     then_do (write_unit sys mo (mount_unit_name c) (mount_unit (with_owner_ids (accounts_of sys) c) creds) h) (\<lambda>_ h.
       write_unit sys mo (automount_name c) (automount_unit (with_owner_ids (accounts_of sys) c)) h)))"

text \<open>The first loop: the ids of the connections whose mountpoint somebody else holds.\<close>

fun write_units :: "'x system \<Rightarrow> mounter \<Rightarrow> obj list \<Rightarrow> 'x host \<Rightarrow> string list res \<times> 'x host" where
  "write_units sys mo [] h = (Inr [], h)"
| "write_units sys mo (c # cs) h =
     (if foreign_occupant (mountinfo h) c \<noteq> None
      then then_do (write_units sys mo cs h) (\<lambda>blocked h. (Inr (text_of c ''id'' # blocked), h))
      else then_do (write_pair sys mo c h) (\<lambda>_ h. write_units sys mo cs h))"

subsection \<open>Removing what is no longer configured\<close>

definition unit_text :: "'x system \<Rightarrow> mounter \<Rightarrow> string \<Rightarrow> 'x host \<Rightarrow> string option" where
  "unit_text sys mo name h =
     (case read_text (faults_of sys) (unit_key mo name) h of Inl _ \<Rightarrow> None | Inr t \<Rightarrow> Some t)"

definition unit_place :: "'x system \<Rightarrow> mounter \<Rightarrow> string \<Rightarrow> 'x host \<Rightarrow> string option" where
  "unit_place sys mo name h = (case unit_text sys mo name h of None \<Rightarrow> None | Some t \<Rightarrow> unit_where t)"

definition ours_to_remove :: "'x system \<Rightarrow> mounter \<Rightarrow> string list \<Rightarrow> string list option \<Rightarrow> string \<Rightarrow> 'x host \<Rightarrow> bool" where
  "ours_to_remove sys mo wanted keep name h =
     (is_unit_name name \<and> name \<notin> set wanted
      \<and> (case unit_text sys mo name h of None \<Rightarrow> False | Some t \<Rightarrow> contains MARKER t)
      \<and> (case keep of None \<Rightarrow> True | Some ks \<Rightarrow> normpath (or_empty (unit_place sys mo name h)) \<in> set ks))"

definition remove_empty_mountpoint :: "'x system \<Rightarrow> string \<Rightarrow> 'x host \<Rightarrow> 'x host" where
  "remove_empty_mountpoint sys mountpoint h =
     snd (rmdir (faults_of sys) (components mountpoint) (is_mounted (mountinfo h) mountpoint = Some True
            \<or> is_armed (mountinfo h) mountpoint = Some True) h)"

text \<open>The file goes, and with it the mountpoint if we chose it; whether it went.\<close>

definition drop_unit :: "'x system \<Rightarrow> mounter \<Rightarrow> string \<Rightarrow> string option \<Rightarrow> 'x host \<Rightarrow> bool \<times> 'x host" where
  "drop_unit sys mo name place h =
     (case unlink (faults_of sys) (unit_key mo name) h of
        (Inl _, h') \<Rightarrow> (False, h')
      | (Inr _, h') \<Rightarrow>
          (True, case place of
                   Some w \<Rightarrow> if w \<noteq> [] \<and> in_managed_root w (managed_roots mo)
                             then remove_empty_mountpoint sys w h' else h'
                 | None \<Rightarrow> h'))"

definition stop_unit :: "'x system \<Rightarrow> string \<Rightarrow> 'x host \<Rightarrow> unit res \<times> 'x host" where
  "stop_unit sys name h =
     (if path_suffix name = ''.automount'' then disable (exec_of sys) True name h
      else stop (exec_of sys) name h)"

definition still_mounted :: "string \<Rightarrow> string option \<Rightarrow> 'x host \<Rightarrow> bool" where
  "still_mounted name place h =
     (path_suffix name \<noteq> ''.automount''
      \<and> (case place of Some w \<Rightarrow> w \<noteq> [] \<and> is_mounted (mountinfo h) w = Some True | None \<Rightarrow> False))"

fun remove_stale ::
    "'x system \<Rightarrow> mounter \<Rightarrow> string list \<Rightarrow> string list option \<Rightarrow> string list \<Rightarrow> 'x host \<Rightarrow> string list res \<times> 'x host" where
  "remove_stale sys mo wanted keep [] h = (Inr [], h)"
| "remove_stale sys mo wanted keep (name # names) h =
     (if \<not> ours_to_remove sys mo wanted keep name h then remove_stale sys mo wanted keep names h
      else then_do (stop_unit sys name h) (\<lambda>_ h1.
        if still_mounted name (unit_place sys mo name h) h1 then remove_stale sys mo wanted keep names h1
        else (case drop_unit sys mo name (unit_place sys mo name h) h1 of
                (gone, h2) \<Rightarrow>
                  then_do (remove_stale sys mo wanted keep names h2) (\<lambda>removed h3.
                    (Inr (if gone then name # removed else removed), h3)))))"

definition remove_stale_units ::
    "'x system \<Rightarrow> mounter \<Rightarrow> string list \<Rightarrow> string list option \<Rightarrow> 'x host \<Rightarrow> string list res \<times> 'x host" where
  "remove_stale_units sys mo wanted keep h =
     (let d = components (unit_dir mo) in
      case is_dir_at (faults_of sys) d h of
        Inl _ \<Rightarrow> (Inl OSError, h)
      | Inr there \<Rightarrow>
          if \<not> there then (Inr [], h)
          else (case faults_of sys (List_dir d) h of
                  Some _ \<Rightarrow> (Inl OSError, h)
                | None \<Rightarrow> remove_stale sys mo wanted keep (sort (names_in d h)) h))"

subsection \<open>Applying and taking down\<close>

definition wanted_units :: "obj list \<Rightarrow> string list" where
  "wanted_units cs = concat (map (\<lambda>c. [mount_unit_name c, automount_name c]) cs)"

definition arm :: "'x system \<Rightarrow> obj \<Rightarrow> 'x host \<Rightarrow> unit res \<times> 'x host" where
  "arm sys c h =
     (if get c ''auto_connect'' = JStr ''never'' then disable (exec_of sys) True (automount_name c) h
      else then_do (reset_failed (exec_of sys) (mount_unit_name c) h) (\<lambda>_ h.
             enable (exec_of sys) True (automount_name c) h))"

fun arm_all :: "'x system \<Rightarrow> string list \<Rightarrow> obj list \<Rightarrow> 'x host \<Rightarrow> unit res \<times> 'x host" where
  "arm_all sys blocked [] h = (Inr (), h)"
| "arm_all sys blocked (c # cs) h =
     (if text_of c ''id'' \<in> set blocked then arm_all sys blocked cs h
      else then_do (arm sys c h) (\<lambda>_ h. arm_all sys blocked cs h))"

definition reload_if :: "bool \<Rightarrow> 'x system \<Rightarrow> 'x host \<Rightarrow> unit res \<times> 'x host" where
  "reload_if needed sys h = (if needed then daemon_reload (exec_of sys) h else (Inr (), h))"

definition apply_mounts ::
    "'x system \<Rightarrow> mounter \<Rightarrow> obj \<Rightarrow> obj option \<Rightarrow> 'x host \<Rightarrow> planned_connection list res \<times> 'x host" where
  "apply_mounts sys mo config previous h =
     (let cs = records config ''connections''; wanted = wanted_units cs in
      then_do (write_units sys mo cs h) (\<lambda>blocked h.
      then_do (remove_stale_units sys mo wanted (untouched config previous) h) (\<lambda>removed h.
      then_do (reload_if (wanted \<noteq> [] \<or> removed \<noteq> []) sys h) (\<lambda>_ h.
      then_do (arm_all sys blocked cs h) (\<lambda>_ h.
        (plan_mounts sys mo config h, h))))))"

definition teardown_mounts :: "'x system \<Rightarrow> mounter \<Rightarrow> 'x host \<Rightarrow> string list res \<times> 'x host" where
  "teardown_mounts sys mo h =
     then_do (remove_stale_units sys mo [] None h) (\<lambda>removed h.
     then_do (reload_if (removed \<noteq> []) sys h) (\<lambda>_ h. (Inr removed, h)))"

end
