(* ===== verification/Mounting.thy ===== *)
theory Mounting
  imports Mounter
begin

text \<open>
  What applying the connections does to the machine (\<^verbatim>\<open>smbpal/mounts/apply.py\<close>): whose files it touches,
  which automounts it arms, and what is left.
\<close>

subsection \<open>Files that are not ours\<close>

text \<open>A command does not change a regular file that is there (\<open>systemctl\<close> makes and removes links only).\<close>

definition commands_spare_files :: "'x system \<Rightarrow> bool" where
  "commands_spare_files sys = (\<forall>argv h q s m. look h q = Some (Regular s m)
     \<longrightarrow> look (snd (exec_of sys argv h)) q = Some (Regular s m))"

definition spared :: "path set \<Rightarrow> 'x host \<Rightarrow> 'x host \<Rightarrow> bool" where
  "spared except h h' = (\<forall>q s m. q \<notin> except \<longrightarrow> look h q = Some (Regular s m) \<longrightarrow> look h' q = Some (Regular s m))"

lemma spared_refl [simp]: "spared except h h"
  by (simp add: spared_def)

lemma spared_trans: "spared a h h1 \<Longrightarrow> spared b h1 h2 \<Longrightarrow> spared (a \<union> b) h h2"
  by (simp add: spared_def)

lemma spared_trans_same [trans]: "spared a h h1 \<Longrightarrow> spared a h1 h2 \<Longrightarrow> spared a h h2"
  by (simp add: spared_def)

lemma spared_mono: "spared a h h' \<Longrightarrow> a \<subseteq> b \<Longrightarrow> spared b h h'"
  by (auto simp: spared_def)

lemma exec_spares: "commands_spare_files sys \<Longrightarrow> spared a h (snd (exec_of sys argv h))"
  by (simp add: commands_spare_files_def spared_def)

text \<open>A call of the driver ends in the world the command left.\<close>

lemma systemctl_world:
  "snd (require_ok msg rw) = snd rw" "snd (ignore_result rw) = snd rw"
  by (simp_all add: require_ok_def ignore_result_def split: prod.split)

lemma systemctl_end:
  "require_ok msg rw = (r, h) \<Longrightarrow> h = snd rw" "ignore_result rw = (r', h) \<Longrightarrow> h = snd rw"
  by (auto simp: require_ok_def ignore_result_def split: prod.splits)

lemma driver_spares:
  assumes "commands_spare_files sys"
  shows "spared a h (snd (stop_unit sys name h))" "spared a h (snd (reset_failed (exec_of sys) name h))"
    "spared a h (snd (enable (exec_of sys) now name h))" "spared a h (snd (disable (exec_of sys) now name h))"
    "spared a h (snd (daemon_reload (exec_of sys) h))"
  using exec_spares [OF assms]
  by (simp_all add: stop_unit_def disable_def stop_def reset_failed_def enable_def daemon_reload_def systemctl_world)

lemma unit_key_ne [simp]: "unit_key mo name \<noteq> []"
  by (simp add: unit_key_def)

lemma unit_key_inj [simp]: "unit_key mo a = unit_key mo b \<longleftrightarrow> a = b"
  by (simp add: unit_key_def)

lemma write_unit_spares: "spared {unit_key mo name} h (snd (write_unit sys mo name body h))"
  using write_text_spares(1) [of "faults_of sys" "unit_key mo name" body 420 493 h]
  by (cases "write_text (faults_of sys) (unit_key mo name) body 420 493 h")
    (auto simp: write_unit_def raising_def spared_def)

lemma ensure_mountpoint_spares: "spared a h (snd (ensure_mountpoint sys mp h))"
proof (cases "make_dirs (faults_of sys) (dir_chain (components mp) 493) h")
  case (Pair r h')
  then show ?thesis using make_dirs_keeps [OF Pair]
    by (auto simp: ensure_mountpoint_def Let_def raising_def spared_def split: sum.splits)
qed

text \<open>The file of the second unit is written after the first one, so neither touches a third.\<close>

lemma then_do_spares:
  assumes "spared a h (snd rh)" and "\<And>x h1. rh = (Inr x, h1) \<Longrightarrow> spared a h1 (snd (f x h1))"
  shows "spared a h (snd (then_do rh f))"
  using assms by (cases rh; cases "fst rh") (auto intro: spared_trans_same)

lemma write_pair_spares: "spared {unit_key mo (mount_unit_name c), unit_key mo (automount_name c)} h (snd (write_pair sys mo c h))"
  unfolding write_pair_def
  by (intro then_do_spares ensure_mountpoint_spares spared_mono [OF write_unit_spares]) auto

lemma write_units_spares: "spared (unit_key mo ` set (wanted_units cs)) h (snd (write_units sys mo cs h))"
proof (induction sys mo cs h rule: write_units.induct)
  case (2 sys mo c cs h)
  have sub: "unit_key mo ` set (wanted_units cs) \<subseteq> unit_key mo ` set (wanted_units (c # cs))"
    "{unit_key mo (mount_unit_name c), unit_key mo (automount_name c)} \<subseteq> unit_key mo ` set (wanted_units (c # cs))"
    by (auto simp: wanted_units_def)
  show ?case
  proof (cases "foreign_occupant (mountinfo h) c \<noteq> None")
    case True
    with spared_mono [OF "2.IH"(1) [OF True] sub(1)] show ?thesis by (auto intro!: then_do_spares)
  next
    case False
    have "spared (unit_key mo ` set (wanted_units (c # cs))) h
        (snd (then_do (write_pair sys mo c h) (\<lambda>_ h. write_units sys mo cs h)))"
    proof (rule then_do_spares)
      show "spared (unit_key mo ` set (wanted_units (c # cs))) h (snd (write_pair sys mo c h))"
        by (rule spared_mono [OF write_pair_spares sub(2)])
    next
      fix x h1 assume "write_pair sys mo c h = (Inr x, h1)"
      from "2.IH"(2) [OF False this [symmetric] refl] show "spared (unit_key mo ` set (wanted_units (c # cs))) h1 (snd (write_units sys mo cs h1))"
        by (rule spared_mono [OF _ sub(1)])
    qed
    then show ?thesis using False by simp
  qed
qed simp

subsection \<open>Removing\<close>

definition spared_but :: "(path \<Rightarrow> string \<Rightarrow> bool) \<Rightarrow> 'x host \<Rightarrow> 'x host \<Rightarrow> bool" where
  "spared_but P h h' = (\<forall>q s m. look h q = Some (Regular s m) \<longrightarrow> look h' q = Some (Regular s m) \<or> P q s)"

lemma spared_but_trans: "spared_but P h h1 \<Longrightarrow> spared_but P h1 h2 \<Longrightarrow> spared_but P h h2"
  unfolding spared_but_def by blast

lemma spared_spared_but: "spared a h h' \<Longrightarrow> (\<And>q s. q \<in> a \<Longrightarrow> P q s) \<Longrightarrow> spared_but P h h'"
  unfolding spared_def spared_but_def by blast

lemma then_do_spared_but:
  assumes "spared_but P h (snd rh)" and "\<And>x h1. rh = (Inr x, h1) \<Longrightarrow> spared_but P h1 (snd (f x h1))"
  shows "spared_but P h (snd (then_do rh f))"
  using assms by (cases rh; cases "fst rh") (auto intro: spared_but_trans)

text \<open>A unit file that SMBPal wrote, that is not wanted any more, and that the caller may touch.\<close>

definition stale_text :: "mounter \<Rightarrow> string list \<Rightarrow> string list option \<Rightarrow> path \<Rightarrow> string \<Rightarrow> bool" where
  "stale_text mo wanted keep q s =
     (\<exists>n. q = unit_key mo n \<and> is_unit_name n \<and> n \<notin> set wanted \<and> contains MARKER (universal s)
        \<and> (case keep of None \<Rightarrow> True | Some ks \<Rightarrow> normpath (or_empty (unit_where (universal s))) \<in> set ks))"

lemma unit_text_look: "unit_text sys mo n h = Some t \<Longrightarrow> \<exists>s m. look h (unit_key mo n) = Some (Regular s m) \<and> t = universal s"
  by (auto simp: unit_text_def read_text_def split: sum.splits option.splits node.splits)

lemma ours_stale:
  assumes "ours_to_remove sys mo wanted keep n h" and "look h (unit_key mo n) = Some (Regular s m)"
  shows "stale_text mo wanted keep (unit_key mo n) s"
proof -
  obtain t where "unit_text sys mo n h = Some t" "contains MARKER t"
    using assms(1) by (auto simp: ours_to_remove_def split: option.splits)
  moreover from unit_text_look [OF this(1)] assms(2) have "t = universal s" by auto
  ultimately show ?thesis using assms(1) unfolding stale_text_def ours_to_remove_def unit_place_def
    by (auto split: option.splits)
qed

lemma remove_empty_spares: "spared a h (remove_empty_mountpoint sys w h)"
  by (auto simp: remove_empty_mountpoint_def rmdir_def attempt_def spared_def split: option.splits node.splits)

lemma drop_unit_spares: "spared {unit_key mo n} h (snd (drop_unit sys mo n place h))"
proof -
  have "spared {unit_key mo n} h (snd (unlink (faults_of sys) (unit_key mo n) h))"
    by (auto simp: unlink_def attempt_def spared_def split: option.splits node.splits)
  then show ?thesis
    by (auto simp: drop_unit_def split: prod.splits sum.splits option.splits intro: spared_trans_same remove_empty_spares)
qed

lemma remove_stale_spares:
  assumes "commands_spare_files sys"
  shows "spared_but (stale_text mo wanted keep) h (snd (remove_stale sys mo wanted keep names h))"
proof (induction names arbitrary: h)
  case (Cons n ns)
  let ?P = "stale_text mo wanted keep"
  show ?case
  proof (cases "ours_to_remove sys mo wanted keep n h")
    case ours: True
    have drop: "spared_but ?P h1 (snd (drop_unit sys mo n (unit_place sys mo n h) h1))"
      if h1: "spared {} h h1" for h1
      unfolding spared_but_def
    proof (intro allI impI)
      fix q s m assume q: "look h1 q = Some (Regular s m)"
      show "look (snd (drop_unit sys mo n (unit_place sys mo n h) h1)) q = Some (Regular s m) \<or> ?P q s"
      proof (cases "q = unit_key mo n")
        case True
        obtain t where "unit_text sys mo n h = Some t" using ours by (auto simp: ours_to_remove_def split: option.splits)
        then obtain s' m' where l: "look h (unit_key mo n) = Some (Regular s' m')" using unit_text_look by blast
        then have "s' = s" using h1 q True by (auto simp: spared_def)
        then show ?thesis using ours_stale [OF ours l] True by simp
      next
        case False
        then show ?thesis using drop_unit_spares [of mo n h1 sys] q by (auto simp: spared_def)
      qed
    qed
    have stop: "spared {} h (snd (stop_unit sys n h))" by (rule driver_spares(1) [OF assms])
    show ?thesis
      using ours
    proof (simp, intro then_do_spared_but)
      show "spared_but ?P h (snd (stop_unit sys n h))" by (rule spared_spared_but [OF stop]) simp
    next
      fix x h1 assume "stop_unit sys n h = (Inr x, h1)"
      then have h1: "spared {} h h1" using stop by simp
      show "spared_but ?P h1 (snd (if still_mounted n (unit_place sys mo n h) h1 then remove_stale sys mo wanted keep ns h1
          else case drop_unit sys mo n (unit_place sys mo n h) h1 of (gone, h2) \<Rightarrow>
            then_do (remove_stale sys mo wanted keep ns h2) (\<lambda>removed h3. (Inr (if gone then n # removed else removed), h3))))"
      proof (cases "still_mounted n (unit_place sys mo n h) h1")
        case True
        then show ?thesis using Cons.IH by simp
      next
        case False
        obtain gone h2 where d: "drop_unit sys mo n (unit_place sys mo n h) h1 = (gone, h2)" by fastforce
        have "spared_but ?P h1 h2" using drop [OF h1] d by simp
        moreover have "spared_but ?P h2 (snd (then_do (remove_stale sys mo wanted keep ns h2)
            (\<lambda>removed h3. (Inr (if gone then n # removed else removed), h3))))"
          by (rule then_do_spared_but [OF Cons.IH]) (simp add: spared_but_def)
        ultimately show ?thesis using False d by (simp add: spared_but_trans)
      qed
    qed
  qed (use Cons.IH in simp)
qed (simp add: spared_but_def)

lemma remove_stale_units_spares:
  assumes "commands_spare_files sys"
  shows "spared_but (stale_text mo wanted keep) h (snd (remove_stale_units sys mo wanted keep h))"
  using remove_stale_spares [OF assms]
  by (simp add: remove_stale_units_def Let_def spared_but_def split: sum.split option.split)

lemma arm_spares: "commands_spare_files sys \<Longrightarrow> spared a h (snd (arm sys c h))"
  by (auto simp: arm_def intro!: driver_spares then_do_spares)

lemma arm_all_spares: "commands_spare_files sys \<Longrightarrow> spared a h (snd (arm_all sys blocked cs h))"
proof (induction cs arbitrary: h)
  case (Cons c cs)
  show ?case
  proof (cases "text_of c ''id'' \<in> set blocked")
    case False
    have "spared a h (snd (then_do (arm sys c h) (\<lambda>_ h. arm_all sys blocked cs h)))"
      by (rule then_do_spares [OF arm_spares [OF Cons.prems]]) (rule Cons.IH [OF Cons.prems])
    then show ?thesis using False by simp
  qed (use Cons in simp)
qed simp

lemma reload_if_spares: "commands_spare_files sys \<Longrightarrow> spared a h (snd (reload_if b sys h))"
  by (simp add: reload_if_def driver_spares)

text \<open>What an apply may write or take away: the units of the connections, and what is stale.\<close>

definition applied_or_stale :: "mounter \<Rightarrow> obj \<Rightarrow> obj option \<Rightarrow> path \<Rightarrow> string \<Rightarrow> bool" where
  "applied_or_stale mo config previous q s =
     (let wanted = wanted_units (records config ''connections'')
      in q \<in> unit_key mo ` set wanted \<or> stale_text mo wanted (untouched config previous) q s)"

lemma apply_mounts_spared:
  assumes "commands_spare_files sys"
  shows "spared_but (applied_or_stale mo config previous) h (snd (apply_mounts sys mo config previous h))"
proof -
  let ?cs = "records config ''connections''"
  let ?wanted = "wanted_units ?cs"
  have P: "applied_or_stale mo config previous q s" if "q \<in> unit_key mo ` set ?wanted" for q s
    using that by (simp add: applied_or_stale_def Let_def)
  have stale: "spared_but (applied_or_stale mo config previous) x (snd (remove_stale_units sys mo ?wanted (untouched config previous) x))" for x
    using remove_stale_units_spares [OF assms] unfolding spared_but_def applied_or_stale_def Let_def by blast
  show ?thesis
    unfolding apply_mounts_def Let_def
    by (intro then_do_spared_but stale spared_spared_but [OF write_units_spares] P
        spared_spared_but [OF reload_if_spares [OF assms, of "{}"]]
        spared_spared_but [OF arm_all_spares [OF assms, of "{}"]]) (auto simp: spared_but_def)
qed


subsection \<open>The commands that are run\<close>

text \<open>A system that records the commands it was given. What a command answers and what is mounted after it may
  depend on everything that was run before.\<close>

definition log_exec ::
    "(string list \<Rightarrow> string list list host \<Rightarrow> command_result res \<times> string option) \<Rightarrow> string list list host exec" where
  "log_exec answer argv h =
     (case answer argv h of (r, m) \<Rightarrow> (r, h\<lparr>mountinfo := m, ext := ext h @ [argv]\<rparr>))"

definition only_ran :: "(string list \<Rightarrow> bool) \<Rightarrow> string list list host \<Rightarrow> string list list host \<Rightarrow> bool" where
  "only_ran Q h h' = (\<exists>l. ext h' = ext h @ l \<and> list_all Q l)"

lemma only_ran_same: "ext h' = ext h \<Longrightarrow> only_ran Q h h'"
  by (simp add: only_ran_def exI [of _ "[]"])

lemma only_ran_trans: "only_ran Q h h1 \<Longrightarrow> only_ran Q h1 h2 \<Longrightarrow> only_ran Q h h2"
  by (auto simp: only_ran_def)

lemma log_exec_ran: "Q argv \<Longrightarrow> only_ran Q h (snd (log_exec answer argv h))"
  by (simp add: only_ran_def log_exec_def split: prod.split)

lemma then_do_ran:
  assumes "only_ran Q h (snd rh)" and "\<And>x h1. rh = (Inr x, h1) \<Longrightarrow> only_ran Q h1 (snd (f x h1))"
  shows "only_ran Q h (snd (then_do rh f))"
  using assms by (cases rh; cases "fst rh") (auto intro: only_ran_trans)

definition enable_argv :: "string \<Rightarrow> string list" where
  "enable_argv a = [SYSTEMCTL, ''enable'', ''--now'', a]"

text \<open>The commands of an apply: it starts nothing, and arms only what \<open>allowed\<close> says.\<close>

definition tame :: "(string \<Rightarrow> bool) \<Rightarrow> string list \<Rightarrow> bool" where
  "tame allowed argv = (length argv \<ge> 2 \<and> argv ! 1 \<in> {''enable'', ''disable'', ''stop'', ''reset-failed'', ''daemon-reload''}
     \<and> (\<forall>a. argv = enable_argv a \<longrightarrow> allowed a))"

lemma tame_calls [simp]:
  "tame allowed (enable_argv a) \<longleftrightarrow> allowed a" "tame allowed [SYSTEMCTL, ''stop'', u]" "tame allowed [SYSTEMCTL, ''reset-failed'', u]"
  "tame allowed [SYSTEMCTL, ''daemon-reload'']" "tame allowed [SYSTEMCTL, ''disable'', ''--now'', u]"
  by (simp_all add: tame_def enable_argv_def)

lemma driver_ran:
  assumes "exec_of sys = log_exec answer"
  shows "only_ran (tame allowed) h (snd (stop_unit sys name h))"
    "only_ran (tame allowed) h (snd (reset_failed (exec_of sys) name h))"
    "allowed name \<Longrightarrow> only_ran (tame allowed) h (snd (enable (exec_of sys) True name h))"
    "only_ran (tame allowed) h (snd (disable (exec_of sys) True name h))"
    "only_ran (tame allowed) h (snd (daemon_reload (exec_of sys) h))"
  by (simp_all add: assms stop_unit_def disable_def stop_def reset_failed_def enable_def daemon_reload_def systemctl_world
      log_exec_ran enable_argv_def [symmetric])

text \<open>Writing runs nothing and sees one mount table throughout.\<close>

lemma write_unit_rest: "mountinfo (snd (write_unit sys mo n b h)) = mountinfo h" "ext (snd (write_unit sys mo n b h)) = ext h"
  using write_text_spares(2,3) [of "faults_of sys" "unit_key mo n" b 420 493 h]
  by (cases "write_text (faults_of sys) (unit_key mo n) b 420 493 h"; auto simp: write_unit_def raising_def)+

lemma ensure_mountpoint_rest:
  "mountinfo (snd (ensure_mountpoint sys p h)) = mountinfo h" "ext (snd (ensure_mountpoint sys p h)) = ext h"
  using make_dirs_rest [of "faults_of sys" "dir_chain (components p) 493" h]
  by (cases "make_dirs (faults_of sys) (dir_chain (components p) 493) h";
      auto simp: ensure_mountpoint_def Let_def raising_def split: sum.split)+

lemma then_do_rest:
  assumes "g (snd rh) = g h" and "\<And>x h1. rh = (Inr x, h1) \<Longrightarrow> g (snd (f x h1)) = g h1"
  shows "g (snd (then_do rh f)) = g h"
  using assms by (cases rh; cases "fst rh") auto

lemma write_pair_rest: "mountinfo (snd (write_pair sys mo c h)) = mountinfo h" "ext (snd (write_pair sys mo c h)) = ext h"
  unfolding write_pair_def
  by (intro then_do_rest ensure_mountpoint_rest write_unit_rest; simp)+

lemma write_units_rest:
  "mountinfo (snd (write_units sys mo cs h)) = mountinfo h \<and> ext (snd (write_units sys mo cs h)) = ext h
   \<and> (\<forall>blocked. fst (write_units sys mo cs h) = Inr blocked \<longrightarrow>
        blocked = map (\<lambda>c. text_of c ''id'') (filter (\<lambda>c. foreign_occupant (mountinfo h) c \<noteq> None) cs))"
proof (induction sys mo cs h rule: write_units.induct)
  case (2 sys mo c cs h)
  show ?case
  proof (cases "foreign_occupant (mountinfo h) c \<noteq> None")
    case True
    from "2.IH"(1) [OF True] True show ?thesis
      by (cases "write_units sys mo cs h"; cases "fst (write_units sys mo cs h)") auto
  next
    case False
    obtain r h1 where p: "write_pair sys mo c h = (r, h1)" by fastforce
    have rest: "mountinfo h1 = mountinfo h" "ext h1 = ext h" using write_pair_rest [of sys mo c h] p by simp_all
    show ?thesis
    proof (cases r)
      case (Inr u)
      from "2.IH"(2) [OF False p [symmetric] Inr] False p Inr rest show ?thesis by simp
    qed (use False p rest in simp)
  qed
qed simp

lemma rmdir_rest [simp]: "ext (remove_empty_mountpoint sys w h) = ext h"
  by (auto simp: remove_empty_mountpoint_def rmdir_def attempt_def split: option.split node.split)

lemma drop_unit_rest: "ext (snd (drop_unit sys mo n place h)) = ext h"
  by (auto simp: drop_unit_def unlink_def attempt_def split: option.split node.split prod.split sum.split)

lemma remove_stale_ran:
  assumes "exec_of sys = log_exec answer"
  shows "only_ran (tame allowed) h (snd (remove_stale sys mo wanted keep names h))"
proof (induction names arbitrary: h)
  case (Cons n ns)
  have after_stop: "only_ran (tame allowed) h1 (snd (if still_mounted n (unit_place sys mo n h) h1 then remove_stale sys mo wanted keep ns h1
      else case drop_unit sys mo n (unit_place sys mo n h) h1 of (gone, h2) \<Rightarrow>
        then_do (remove_stale sys mo wanted keep ns h2) (\<lambda>removed h3. (Inr (if gone then n # removed else removed), h3))))" for h1
  proof -
    obtain gone h2 where d: "drop_unit sys mo n (unit_place sys mo n h) h1 = (gone, h2)" by fastforce
    have "only_ran (tame allowed) h1 h2" using drop_unit_rest [of sys mo n "unit_place sys mo n h" h1] d by (simp add: only_ran_same)
    moreover have "only_ran (tame allowed) h2 (snd (then_do (remove_stale sys mo wanted keep ns h2)
        (\<lambda>removed h3. (Inr (if gone then n # removed else removed), h3))))"
      by (rule then_do_ran [OF Cons.IH]) (simp add: only_ran_same)
    ultimately show ?thesis using Cons.IH d by (simp add: only_ran_trans)
  qed
  have "only_ran (tame allowed) h (snd (then_do (stop_unit sys n h) (\<lambda>_ h1.
      if still_mounted n (unit_place sys mo n h) h1 then remove_stale sys mo wanted keep ns h1
      else case drop_unit sys mo n (unit_place sys mo n h) h1 of (gone, h2) \<Rightarrow>
        then_do (remove_stale sys mo wanted keep ns h2) (\<lambda>removed h3. (Inr (if gone then n # removed else removed), h3)))))"
    by (rule then_do_ran [OF driver_ran(1) [OF assms]]) (rule after_stop)
  then show ?case using Cons.IH by simp
qed (simp add: only_ran_same)

lemma remove_stale_units_ran:
  "exec_of sys = log_exec answer \<Longrightarrow> only_ran (tame allowed) h (snd (remove_stale_units sys mo wanted keep h))"
  using remove_stale_ran
  by (auto simp: remove_stale_units_def Let_def only_ran_same split: sum.split option.split)

definition never_armed :: "obj \<Rightarrow> bool" where
  "never_armed c = (get c ''auto_connect'' = JStr ''never'')"

lemma arm_ran:
  assumes "exec_of sys = log_exec answer" and "\<not> never_armed c \<Longrightarrow> allowed (automount_name c)"
  shows "only_ran (tame allowed) h (snd (arm sys c h))"
proof (cases "never_armed c")
  case True
  then show ?thesis using driver_ran(4) [OF assms(1)] by (simp add: arm_def never_armed_def)
next
  case False
  have "only_ran (tame allowed) h (snd (then_do (reset_failed (exec_of sys) (mount_unit_name c) h)
      (\<lambda>_ h. enable (exec_of sys) True (automount_name c) h)))"
    by (rule then_do_ran [OF driver_ran(2) [OF assms(1)]]) (rule driver_ran(3) [where allowed = allowed, OF assms(1) assms(2) [OF False]])
  then show ?thesis using False by (simp add: arm_def never_armed_def)
qed

lemma arm_enables:
  assumes "exec_of sys = log_exec answer" and "arm sys c h = (Inr u, h')" and "\<not> never_armed c"
  shows "enable_argv (automount_name c) \<in> set (ext h')"
  using assms
  by (auto simp: arm_def never_armed_def reset_failed_def enable_def ignore_result_def require_ok_def log_exec_def
      enable_argv_def split: prod.splits sum.splits)

lemma arm_all_ran:
  assumes "exec_of sys = log_exec answer"
    and "\<And>c. c \<in> set cs \<Longrightarrow> text_of c ''id'' \<notin> set blocked \<Longrightarrow> \<not> never_armed c \<Longrightarrow> allowed (automount_name c)"
  shows "only_ran (tame allowed) h (snd (arm_all sys blocked cs h))"
  using assms(2)
proof (induction cs arbitrary: h)
  case (Cons c cs)
  show ?case
  proof (cases "text_of c ''id'' \<in> set blocked")
    case True
    then show ?thesis using Cons by simp
  next
    case False
    have "only_ran (tame allowed) h (snd (then_do (arm sys c h) (\<lambda>_ h. arm_all sys blocked cs h)))"
    proof (rule then_do_ran)
      show "only_ran (tame allowed) h (snd (arm sys c h))"
        by (rule arm_ran [OF assms(1)]) (use Cons.prems False in simp)
      show "only_ran (tame allowed) h1 (snd (arm_all sys blocked cs h1))" for h1
        by (rule Cons.IH) (use Cons.prems in simp)
    qed
    then show ?thesis using False by simp
  qed
qed (simp add: only_ran_same)

lemma only_ran_keeps: "only_ran Q h h' \<Longrightarrow> argv \<in> set (ext h) \<Longrightarrow> argv \<in> set (ext h')"
  by (auto simp: only_ran_def)

lemma arm_all_enables:
  assumes "exec_of sys = log_exec answer" and "arm_all sys blocked cs h = (Inr u, h')"
    and "c \<in> set cs" and "text_of c ''id'' \<notin> set blocked" and "\<not> never_armed c"
  shows "enable_argv (automount_name c) \<in> set (ext h')"
  using assms(2,3)
proof (induction cs arbitrary: h)
  case (Cons d cs)
  show ?case
  proof (cases "text_of d ''id'' \<in> set blocked")
    case True
    then show ?thesis using Cons assms(4) by auto
  next
    case False
    obtain x h1 where a: "arm sys d h = (Inr x, h1)" "arm_all sys blocked cs h1 = (Inr u, h')"
      using Cons.prems(1) False by (auto simp: then_do_Inr)
    show ?thesis
    proof (cases "c = d")
      case True
      then have "enable_argv (automount_name c) \<in> set (ext h1)" using arm_enables [OF assms(1) a(1)] assms(5) by simp
      moreover have "only_ran (tame (\<lambda>_. True)) h1 h'"
        using arm_all_ran [OF assms(1), of cs blocked "\<lambda>_. True" h1] a(2) by simp
      ultimately show ?thesis by (rule only_ran_keeps [rotated])
    next
      case False
      then show ?thesis using Cons.IH [OF a(2)] Cons.prems(2) by simp
    qed
  qed
qed simp

lemma reload_if_ran: "exec_of sys = log_exec answer \<Longrightarrow> only_ran (tame allowed) h (snd (reload_if b sys h))"
  using driver_ran(5) by (auto simp: reload_if_def only_ran_same)

lemma blocked_iff:
  "distinct (map (\<lambda>c. text_of c ''id'') cs) \<Longrightarrow> c \<in> set cs \<Longrightarrow>
   text_of c ''id'' \<in> set (map (\<lambda>c. text_of c ''id'') (filter P cs)) \<longleftrightarrow> P c"
  by (auto simp: distinct_map inj_on_def)

text \<open>C22: Applying never mounts anything and never arms a mountpoint somebody else holds: the commands it
  runs start no unit, and an automount is armed only for a connection that is set to connect and whose mountpoint no
  foreign filesystem held when the apply began; and when it succeeds, each of those is armed.\<close>

theorem apply_arms_exactly_what_is_free:
  assumes "exec_of sys = log_exec answer" and "apply_mounts sys mo config previous h = (r, h')"
  shows "\<exists>l. ext h' = ext h @ l \<and> (\<forall>argv \<in> set l. argv ! 1 \<noteq> ''start'')
    \<and> (\<forall>a. enable_argv a \<in> set l \<longrightarrow> (\<exists>c \<in> set (records config ''connections'').
          automount_name c = a \<and> foreign_occupant (mountinfo h) c = None \<and> \<not> never_armed c))
    \<and> (\<forall>rep. r = Inr rep \<and> distinct (map (\<lambda>c. text_of c ''id'') (records config ''connections'')) \<longrightarrow>
         (\<forall>c \<in> set (records config ''connections''). foreign_occupant (mountinfo h) c = None \<and> \<not> never_armed c \<longrightarrow>
            enable_argv (automount_name c) \<in> set (ext h')))"
proof -
  let ?cs = "records config ''connections''"
  let ?foreign = "\<lambda>c. foreign_occupant (mountinfo h) c \<noteq> None"
  define allowed where "allowed a = (\<exists>c \<in> set ?cs. automount_name c = a \<and> \<not> ?foreign c \<and> \<not> never_armed c)" for a
  note blocked = write_units_rest [of sys mo ?cs h]
  have arm: "only_ran (tame allowed) x (snd (arm_all sys ids ?cs x))"
    if "fst (write_units sys mo ?cs h) = Inr ids" for ids x
  proof (rule arm_all_ran [OF assms(1)])
    fix c assume c: "c \<in> set ?cs" "text_of c ''id'' \<notin> set ids" "\<not> never_armed c"
    then have "\<not> ?foreign c" using blocked that by auto
    with c show "allowed (automount_name c)" by (auto simp: allowed_def)
  qed
  have "only_ran (tame allowed) h (snd (apply_mounts sys mo config previous h))"
    unfolding apply_mounts_def Let_def
    by (intro then_do_ran remove_stale_units_ran [OF assms(1)] reload_if_ran [OF assms(1)])
      (use blocked arm in \<open>auto simp: only_ran_same\<close>)
  then obtain l where l: "ext h' = ext h @ l" "list_all (tame allowed) l" using assms(2) by (auto simp: only_ran_def)
  have "\<forall>argv \<in> set l. argv ! 1 \<noteq> ''start''" using l(2) by (auto simp: list_all_iff tame_def)
  moreover have "\<forall>a. enable_argv a \<in> set l \<longrightarrow> allowed a" using l(2) by (auto simp: list_all_iff tame_def)
  moreover have "enable_argv (automount_name c) \<in> set (ext h')"
    if ok: "r = Inr rep" "distinct (map (\<lambda>c. text_of c ''id'') ?cs)" and c: "c \<in> set ?cs" "\<not> ?foreign c" "\<not> never_armed c" for rep c
  proof -
    obtain ids h1 h3 u h4 where s: "write_units sys mo ?cs h = (Inr ids, h1)" "arm_all sys ids ?cs h3 = (Inr u, h4)" "h' = h4"
      using assms(2) [unfolded ok(1) apply_mounts_def Let_def then_do_Inr] by auto
    have "text_of c ''id'' \<notin> set ids" using blocked s(1) blocked_iff [OF ok(2) c(1), of ?foreign] c(2) by simp
    then show ?thesis using arm_all_enables [OF assms(1) s(2) c(1) _ c(3)] s(3) by simp
  qed
  ultimately show ?thesis using l(1) unfolding allowed_def by (intro exI [of _ l]) auto
qed

subsection \<open>A teardown leaves nothing\<close>

definition regular_at :: "'x host \<Rightarrow> path \<Rightarrow> (string \<times> int) option" where
  "regular_at h q = (case look h q of Some (Regular s m) \<Rightarrow> Some (s, m) | _ \<Rightarrow> None)"

text \<open>A command neither writes nor removes a unit file of the unit directory, and stopping a mount unit unmounts
  what it mounted.\<close>

definition commands_keep_units :: "'x system \<Rightarrow> mounter \<Rightarrow> bool" where
  "commands_keep_units sys mo = (\<forall>argv h n. is_unit_name n \<longrightarrow>
     regular_at (snd (exec_of sys argv h)) (unit_key mo n) = regular_at h (unit_key mo n))"

definition stopping_unmounts :: "'x system \<Rightarrow> mounter \<Rightarrow> bool" where
  "stopping_unmounts sys mo = (\<forall>n h w. unit_place sys mo n h = Some w \<longrightarrow>
     is_mounted (mountinfo (snd (exec_of sys [SYSTEMCTL, ''stop'', n] h))) w \<noteq> Some True)"

lemma regular_at_cases: "regular_at h q = Some (s, m) \<longleftrightarrow> look h q = Some (Regular s m)"
  by (auto simp: regular_at_def split: option.split node.split)

lemma ours_cong:
  assumes "\<And>c x. faults_of sys c x = None" and "regular_at h (unit_key mo n) = regular_at h' (unit_key mo n)"
  shows "ours_to_remove sys mo wanted keep n h = ours_to_remove sys mo wanted keep n h'"
proof -
  have "unit_text sys mo n x = (case regular_at x (unit_key mo n) of None \<Rightarrow> None | Some (s, m) \<Rightarrow> Some (universal s))" for x
    by (auto simp: unit_text_def read_text_def assms(1) regular_at_def split: option.split node.split)
  then have eq: "unit_text sys mo n h = unit_text sys mo n h'" by (simp add: assms(2))
  then have "unit_place sys mo n h = unit_place sys mo n h'" by (simp add: unit_place_def)
  then show ?thesis unfolding ours_to_remove_def eq by (rule ssubst) (rule refl)
qed

lemma stop_unit_keeps:
  "commands_keep_units sys mo \<Longrightarrow> is_unit_name k \<Longrightarrow>
   regular_at (snd (stop_unit sys n h)) (unit_key mo k) = regular_at h (unit_key mo k)"
  by (simp add: stop_unit_def disable_def stop_def systemctl_world commands_keep_units_def)

lemma drop_unit_done:
  assumes "\<And>c x. faults_of sys c x = None" and "regular_at h (unit_key mo n) \<noteq> None"
  obtains h' where "drop_unit sys mo n place h = (True, h')" and "regular_at h' (unit_key mo n) = None"
    and "\<forall>q. q \<noteq> unit_key mo n \<longrightarrow> regular_at h' q = regular_at h q"
proof -
  obtain s m where l: "look h (unit_key mo n) = Some (Regular s m)" using assms(2) by (auto simp: regular_at_cases)
  let ?h1 = "discard (unit_key mo n) h"
  have u: "unlink (faults_of sys) (unit_key mo n) h = (Inr (), ?h1)" using l by (simp add: unlink_def attempt_def assms(1))
  have "regular_at (remove_empty_mountpoint sys w x) q = regular_at x q" for w q and x :: "'a host"
    by (auto simp: remove_empty_mountpoint_def rmdir_def attempt_def regular_at_def split: option.split node.split)
  then have "regular_at (snd (drop_unit sys mo n place h)) q = regular_at ?h1 q" for q
    using u by (auto simp: drop_unit_def split: option.split)
  moreover have "fst (drop_unit sys mo n place h)" using u by (simp add: drop_unit_def)
  moreover have "regular_at ?h1 (unit_key mo n) = None" "\<forall>q. q \<noteq> unit_key mo n \<longrightarrow> regular_at ?h1 q = regular_at h q"
    by (simp_all add: regular_at_def)
  ultimately show thesis using that [of "snd (drop_unit sys mo n place h)"] by (metis prod.collapse)
qed

lemma remove_stale_exact:
  assumes "\<And>c x. faults_of sys c x = None" and "commands_keep_units sys mo" and "stopping_unmounts sys mo"
  shows "distinct names \<Longrightarrow> remove_stale sys mo wanted keep names h = (Inr removed, h') \<Longrightarrow>
    removed = filter (\<lambda>n. ours_to_remove sys mo wanted keep n h) names
    \<and> (\<forall>k. is_unit_name k \<longrightarrow> regular_at h' (unit_key mo k)
         = (if k \<in> set removed then None else regular_at h (unit_key mo k)))"
proof (induction names arbitrary: h removed)
  case (Cons n ns)
  let ?ours = "ours_to_remove sys mo wanted keep"
  show ?case
  proof (cases "?ours n h")
    case False
    with Cons.prems have "remove_stale sys mo wanted keep ns h = (Inr removed, h')" by simp
    with Cons.IH [of h removed] Cons.prems(1) False show ?thesis by simp
  next
    case True
    then have unit: "is_unit_name n" by (simp add: ours_to_remove_def)
    obtain u h1 where st: "stop_unit sys n h = (Inr u, h1)"
      using Cons.prems(2) True by (auto simp: then_do_Inr)
    have reg1: "is_unit_name k \<Longrightarrow> regular_at h1 (unit_key mo k) = regular_at h (unit_key mo k)" for k
      using stop_unit_keeps [OF assms(2), of k n h] st by simp
    obtain t where t: "unit_text sys mo n h = Some t" using True by (auto simp: ours_to_remove_def split: option.splits)
    then have n_reg: "regular_at h1 (unit_key mo n) \<noteq> None"
      using unit_text_look [OF t] reg1 [OF unit] by (auto simp: regular_at_def)
    have free: "\<not> still_mounted n (unit_place sys mo n h) h1"
    proof
      assume s: "still_mounted n (unit_place sys mo n h) h1"
      then obtain w where w: "unit_place sys mo n h = Some w" "is_mounted (mountinfo h1) w = Some True"
        "path_suffix n \<noteq> ''.automount''" by (auto simp: still_mounted_def split: option.splits)
      have "h1 = snd (exec_of sys [SYSTEMCTL, ''stop'', n] h)"
        using st w(3) by (auto simp: stop_unit_def stop_def dest: systemctl_end)
      then show False using assms(3) w(1,2) unfolding stopping_unmounts_def by blast
    qed
    obtain h2 where d: "drop_unit sys mo n (unit_place sys mo n h) h1 = (True, h2)" "regular_at h2 (unit_key mo n) = None"
      "\<forall>q. q \<noteq> unit_key mo n \<longrightarrow> regular_at h2 q = regular_at h1 q" by (rule drop_unit_done [OF assms(1) n_reg])
    obtain rest where r: "remove_stale sys mo wanted keep ns h2 = (Inr rest, h')" "removed = n # rest"
      using Cons.prems(2) True st free d(1) by (auto simp: then_do_Inr)
    have same: "?ours k h2 = ?ours k h" if "k \<noteq> n" for k
    proof (cases "is_unit_name k")
      case True
      then show ?thesis using ours_cong [OF assms(1), of h2 mo k h] d(3) reg1 that by simp
    qed (simp add: ours_to_remove_def)
    have n: "n \<notin> set ns" using Cons.prems(1) by simp
    from Cons.IH [OF _ r(1)] Cons.prems(1) have ih: "rest = filter (\<lambda>k. ?ours k h2) ns"
      "\<forall>k. is_unit_name k \<longrightarrow> regular_at h' (unit_key mo k) = (if k \<in> set rest then None else regular_at h2 (unit_key mo k))"
      by auto
    have "filter (\<lambda>k. ?ours k h2) ns = filter (\<lambda>k. ?ours k h) ns"
      by (rule filter_cong [OF refl]) (use same n in metis)
    then have "removed = filter (\<lambda>k. ?ours k h) (n # ns)" using r(2) ih(1) True by simp
    moreover have "is_unit_name k \<Longrightarrow> regular_at h' (unit_key mo k)
        = (if k \<in> set removed then None else regular_at h (unit_key mo k))" for k
      using ih(2) r(2) d(2,3) reg1 by (cases "k = n") auto
    ultimately show ?thesis by blast
  qed
qed simp

definition our_unit :: "mounter \<Rightarrow> 'x host \<Rightarrow> string \<Rightarrow> bool" where
  "our_unit mo h n = (is_unit_name n \<and> (\<exists>s m. look h (unit_key mo n) = Some (Regular s m) \<and> contains MARKER (universal s)))"


subsection \<open>A machine on which the properties apply\<close>

definition nas_system :: "string list list system" where
  "nas_system = \<lparr>faults_of = (\<lambda>_ _. None),
     exec_of = log_exec (\<lambda>argv h. (Inr \<lparr>cr_returncode = 0, cr_stdout = [], cr_stderr = []\<rparr>, None)),
     accounts_of = pi_accounts\<rparr>"

definition nas_mounter :: mounter where
  "nas_mounter = \<lparr>unit_dir = ''/u'', credentials_dir = ''/c'', managed_roots = [''/media'']\<rparr>"

definition nas_config :: obj where
  "nas_config = [(''version'', JInt 1), (''connections'', JList
     [JObj [(''type'', JStr ''smb''), (''id'', JStr ''nas''), (''host'', JStr ''nas''), (''share'', JStr ''M''),
            (''mountpoint'', JStr ''/m'')],
      JObj [(''type'', JStr ''smb''), (''id'', JStr ''usb''), (''host'', JStr ''nas''), (''share'', JStr ''U''),
            (''mountpoint'', JStr ''/s'')]])]"

definition stale_text_of_old :: string where
  "stale_text_of_old = MARKER @ ''old'' @ [lf] @ ''Where=/o'' @ [lf]"

text \<open>A stick is mounted on \<open>/s\<close>; the unit directory has a unit of the administrator's and a stale one of ours.\<close>

definition nas_host :: "string list list host" where
  "nas_host = \<lparr>files = [([''m''], Directory 0 0 493), ([''s''], Directory 0 0 493), ([''u''], Directory 0 0 493),
       ([''u'', ''a.mount''], Regular ''Where=/a'' 420), ([''u'', ''o.mount''], Regular stale_text_of_old 420)],
     mountinfo = Some (''36 35 8:1 / /s rw - vfat /dev/sda1 rw''), ext = []\<rparr>"

lemma nas_facts:
  "commands_spare_files nas_system" "commands_keep_units nas_system nas_mounter" "stopping_unmounts nas_system nas_mounter"
  "\<And>c x. faults_of nas_system c x = None" "components (unit_dir nas_mounter) = [''u'']"
  "look nas_host [''u''] = Some (Directory 0 0 493)" "look nas_host [''u'', ''a.mount''] = Some (Regular ''Where=/a'' 420)"
  "look nas_host [''u'', ''o.mount''] = Some (Regular stale_text_of_old 420)"
proof -
  have look_log: "look (snd (log_exec answer argv h)) q = look h q" for answer argv and h :: "string list list host" and q
    by (simp add: log_exec_def look_def split: prod.split)
  show "commands_spare_files nas_system" "commands_keep_units nas_system nas_mounter"
    by (simp_all add: nas_system_def commands_spare_files_def commands_keep_units_def regular_at_def look_log)
  show "stopping_unmounts nas_system nas_mounter"
    by (simp add: stopping_unmounts_def nas_system_def log_exec_def is_mounted_def has_mount_def mount_entries_def)
  show "\<And>c x. faults_of nas_system c x = None" by (simp add: nas_system_def)
  show "components (unit_dir nas_mounter) = [''u'']" by code_simp
  show "look nas_host [''u''] = Some (Directory 0 0 493)" "look nas_host [''u'', ''a.mount''] = Some (Regular ''Where=/a'' 420)"
    "look nas_host [''u'', ''o.mount''] = Some (Regular stale_text_of_old 420)"
    by (simp_all add: look_def nas_host_def)
qed


lemma nas_run:
  "case apply_mounts nas_system nas_mounter nas_config None nas_host of (r, h) \<Rightarrow> \<not> isl r"
  by code_simp

theorem apply_arms_exactly_what_is_free_witness:
  "\<exists>rep h' l. apply_mounts nas_system nas_mounter nas_config None nas_host = (Inr rep, h') \<and> ext h' = ext nas_host @ l
    \<and> enable_argv ''m.automount'' \<in> set (ext h') \<and> enable_argv ''s.automount'' \<notin> set l"
proof -
  let ?cs = "records nas_config ''connections''"
  obtain r h' where run0: "apply_mounts nas_system nas_mounter nas_config None nas_host = (r, h')" by fastforce
  with nas_run obtain rep where "r = Inr rep" by (cases r) auto
  with run0 have run: "apply_mounts nas_system nas_mounter nas_config None nas_host = (Inr rep, h')" by simp
  have ex: "exec_of nas_system = log_exec (\<lambda>argv h. (Inr \<lparr>cr_returncode = 0, cr_stdout = [], cr_stderr = []\<rparr>, None))"
    by (simp add: nas_system_def)
  have free: "map (\<lambda>c. (automount_name c, foreign_occupant (mountinfo nas_host) c = None \<and> \<not> never_armed c)) ?cs
      = [(''m.automount'', True), (''s.automount'', False)]" "distinct (map (\<lambda>c. text_of c ''id'') ?cs)" by code_simp+
  have "\<exists>c \<in> set ?cs. automount_name c = ''m.automount'' \<and> foreign_occupant (mountinfo nas_host) c = None \<and> \<not> never_armed c"
    "\<not> (\<exists>c \<in> set ?cs. automount_name c = ''s.automount'' \<and> foreign_occupant (mountinfo nas_host) c = None \<and> \<not> never_armed c)"
    using free(1) by (auto simp: map_eq_Cons_conv)
  with apply_arms_exactly_what_is_free [OF ex run] free(2) run show ?thesis by metis
qed


end
