(* ===== verification/Credentials.thy ===== *)
theory Credentials
  imports Mounter
begin

text \<open>
  What a credentials file holds (\<^verbatim>\<open>smbpal/mounts/credentials.py\<close>): the directives of what was given and no
  other, for nobody but root to read, from the first moment the password is on the disk.
\<close>

lemma path_for_key:
  assumes "path_for dir ref = Inr file"
  shows "components file = components dir @ [ref]"
proof -
  have r: "is_id ref" "file = dir @ [slash] @ ref" using assms by (auto simp: path_for_def split: if_splits)
  have "c \<noteq> slash" if "c \<in> set ref" for c
    using r(1) that by (auto simp: is_id_def id_char_def id_start_def slash_def is_az_def is_AZ_def is_digit_def code_def list_all_iff split: list.splits)
  then have ns: "slash \<notin> set ref" by blast
  have "ref \<noteq> []" "ref \<noteq> ''.''"
    using r(1) by (auto simp: is_id_def id_start_def is_az_def is_AZ_def is_digit_def code_def)
  moreover have "split_char slash (d @ slash # ref) = split_char slash d @ [ref]" for d
  proof (induction d)
    case Nil
    then show ?case using split_char_none [OF ns] by simp
  next
    case (Cons c d)
    then show ?case by (cases "split_char slash d") auto
  qed
  ultimately show ?thesis by (simp add: components_def r(2))
qed

lemma write_credentials_done:
  assumes "write_credentials sys dir ref u p d h = (Inr file, h')"
  shows "path_for dir ref = Inr file" and "\<not> forbidden u" and "\<not> forbidden p" and "\<forall>v. d = Some v \<longrightarrow> \<not> forbidden v"
    and "u \<noteq> []" and "p \<noteq> []"
    and "write_text (faults_of sys) (components file) (credentials_body u p d) CREDENTIALS_MODE CREDENTIALS_DIR_MODE h = (Inr (), h')"
  using assms [unfolded write_credentials_def then_do_Inr]
  by (auto simp: check_value_def check_domain_def split: if_splits option.splits)

definition directives :: "string \<Rightarrow> string \<Rightarrow> string option \<Rightarrow> string list" where
  "directives u p d = [''username='' @ u, ''password='' @ p] @ (case d of None \<Rightarrow> [] | Some v \<Rightarrow> if v = [] then [] else [''domain='' @ v])"

lemma body_lines: "credentials_body u p d = concat (map (\<lambda>l. l @ [lf]) (directives u p d))"
  by (simp add: credentials_body_def directives_def split: option.split)

lemma split_lines: "\<forall>l \<in> set ls. lf \<notin> set l \<Longrightarrow> split_char lf (concat (map (\<lambda>l. l @ [lf]) ls)) = ls @ [[]]"
  by (induction ls) (simp_all add: split_char_append)

lemma body_chars:
  assumes "\<not> forbidden u" and "\<not> forbidden p" and "\<forall>v. d = Some v \<longrightarrow> \<not> forbidden v"
  shows "\<forall>l \<in> set (directives u p d). lf \<notin> set l" and "cr \<notin> set (credentials_body u p d)"
proof -
  have lit: "lf \<notin> set ''username=''" "lf \<notin> set ''password=''" "lf \<notin> set ''domain=''"
    "cr \<notin> set ''username=''" "cr \<notin> set ''password=''" "cr \<notin> set ''domain=''" by code_simp+
  show "\<forall>l \<in> set (directives u p d). lf \<notin> set l"
    unfolding directives_def using lit assms
    by (auto simp: forbidden_def simp del: set_simps list.set split: option.splits) (auto simp: forbidden_def)
  show "cr \<notin> set (credentials_body u p d)"
    unfolding credentials_body_def set_append using lit assms by (auto simp: forbidden_def split: option.splits)
qed

text \<open>C24: A credentials file holds exactly the directives of what was given, whatever characters the user name,
  the password and the domain have: no value can add a line. It lies in the credentials directory under its
  reference, no file that appears while it is written is ever readable by anybody but root, and the user name
  reads back.\<close>

theorem credentials_hold_what_was_given:
  assumes "write_credentials sys dir ref u p d h = (Inr file, h')"
  shows "components file = components dir @ [ref]
    \<and> look h' (components file) = Some (Regular (credentials_body u p d) 384)
    \<and> split_char lf (credentials_body u p d) = directives u p d @ [[]]
    \<and> (\<forall>y \<in> set (snd (write_trail (faults_of sys) (components file) (credentials_body u p d) 384 448 h)).
         \<forall>q s k. look y q = Some (Regular s k) \<longrightarrow> look h q = Some (Regular s k) \<or> k = 384)
    \<and> (no_breaks u \<and> (\<forall>c x. faults_of sys c x = None) \<longrightarrow> username_for sys dir ref h' = Inr (Some u))"
proof -
  note w = write_credentials_done [OF assms]
  note key = path_for_key [OF w(1)]
  have ne: "components file \<noteq> []" by (simp add: key)
  have stored: "look h' (components file) = Some (Regular (credentials_body u p d) 384)"
    using write_text_done [OF w(7) ne] by (simp add: CREDENTIALS_MODE_def)
  note chars = body_chars [OF w(2,3,4)]
  have lines: "split_char lf (credentials_body u p d) = directives u p d @ [[]]"
    unfolding body_lines by (rule split_lines [OF chars(1)])
  obtain r hs where t: "write_trail (faults_of sys) (components file) (credentials_body u p d) 384 448 h = (r, hs)" by fastforce
  have "\<forall>y \<in> set hs. \<forall>q s k. look y q = Some (Regular s k) \<longrightarrow> look h q = Some (Regular s k) \<or> k = 384"
    using trail_way(2) [OF t ne] by (auto simp: TEMP_MODE_def)
  moreover have "username_for sys dir ref h' = Inr (Some u)" if nb: "no_breaks u" and "\<forall>c x. faults_of sys c x = None"
  proof -
    have "read_text (faults_of sys) (components file) h' = Inr (credentials_body u p d)"
      using that(2) stored by (simp add: read_text_def universal_id [OF chars(2)])
    moreover have "\<forall>c \<in> set (''username='' @ u). \<not> is_break c"
    proof -
      have "\<forall>c \<in> set ''username=''. \<not> is_break c" by code_simp
      then show ?thesis using nb by (auto simp: no_breaks_def)
    qed
    from splitlines_line [OF this] have "\<exists>rest. splitlines (credentials_body u p d) = (''username='' @ u) # rest"
      unfolding credentials_body_def by simp
    ultimately show ?thesis using w(1) by (auto simp: username_for_def)
  qed
  ultimately show ?thesis using key stored lines unfolding t snd_conv by blast
qed

definition vault_system :: "unit system" where
  "vault_system = \<lparr>faults_of = (\<lambda>_ _. None), exec_of = (\<lambda>argv h. (Inl (CommandFailed ''x''), h)),
     accounts_of = \<lparr>by_name = (\<lambda>_. None), by_uid = (\<lambda>_. None), all_groups = []\<rparr>\<rparr>"

theorem credentials_hold_what_was_given_witness:
  "\<exists>file h'. write_credentials vault_system ''/etc/c'' ''nas'' ''ann'' ''p=;x'' None
      \<lparr>files = [], mountinfo = None, ext = ()\<rparr> = (Inr file, h')
    \<and> look h' (components file) = Some (Regular (''username=ann'' @ [lf] @ ''password=p=;x'' @ [lf]) 384)
    \<and> username_for vault_system ''/etc/c'' ''nas'' h' = Inr (Some ''ann'')"
proof -
  let ?run = "write_credentials vault_system ''/etc/c'' ''nas'' ''ann'' ''p=;x'' None \<lparr>files = [], mountinfo = None, ext = ()\<rparr>"
  have "case ?run of (r, h) \<Rightarrow> \<not> isl r" by code_simp
  then obtain fn h' where run: "?run = (Inr fn, h')" by (cases ?run; cases "fst ?run") auto
  have "no_breaks ''ann''" "\<forall>c x. faults_of vault_system c x = None"
    by (simp_all add: no_breaks_def is_break_def code_def vault_system_def)
  with credentials_hold_what_was_given [OF run] run show ?thesis by (auto simp: credentials_body_def)
qed

end
