(* ===== verification/Json.thy ===== *)
theory Json
  imports Values
begin

text \<open>
  What the code uses of Python's \<open>json\<close>: \<open>dumps\<close> in its two forms (indented with sorted keys for the
  configuration file, compact for a frame) and \<open>loads\<close>. The reader is the library's: white space, the escapes of a
  string, the number grammar, \<open>NaN\<close> and the infinities, the last of two equal keys, the limit of 4300 digits on an
  integer. \<open>float()\<close> is an argument: it gives the \<open>repr\<close> of the number a text names. The interpreter's recursion
  limit is not modelled.
\<close>

subsection \<open>Writing\<close>

definition escape_code :: "char \<Rightarrow> string" where
  "escape_code c =
     (if c = quote2 then [backslash, quote2]
      else if c = backslash then [backslash, backslash]
      else if c = lf then [backslash, CHR ''n'']
      else if c = cr then [backslash, CHR ''r'']
      else if c = CHR 0x09 then [backslash, CHR ''t'']
      else if c = CHR 0x0C then [backslash, CHR ''f'']
      else if c = CHR 0x08 then [backslash, CHR ''b'']
      else if 32 \<le> code c \<and> code c \<le> 126 then [c]
      else [backslash, CHR ''u'', CHR ''0'', CHR ''0''] @ hex2 c)"

definition dump_str :: "string \<Rightarrow> string" where
  "dump_str s = [quote2] @ concat (map escape_code s) @ [quote2]"

definition dump_float :: "string \<Rightarrow> string" where
  "dump_float r = (if r = ''nan'' then ''NaN'' else if r = ''inf'' then ''Infinity''
                   else if r = ''-inf'' then ''-Infinity'' else r)"

text \<open>\<open>pretty\<close> is \<open>indent=2\<close>: every item on a line of its own, and a space after the colon.\<close>

definition line_start :: "bool \<Rightarrow> nat \<Rightarrow> string" where
  "line_start pretty n = (if pretty then lf # replicate (2 * n) (CHR '' '') else [])"

definition bracketed :: "bool \<Rightarrow> nat \<Rightarrow> string \<Rightarrow> string \<Rightarrow> string list \<Rightarrow> string" where
  "bracketed pretty n l r parts =
     (if parts = [] then l @ r
      else l @ line_start pretty (Suc n) @ join ('','' @ line_start pretty (Suc n)) parts
           @ line_start pretty n @ r)"

definition colon :: "bool \<Rightarrow> string" where
  "colon pretty = (if pretty then '': '' else '':'')"

fun dump :: "bool \<Rightarrow> nat \<Rightarrow> json \<Rightarrow> string" where
  "dump pretty n JNull = ''null''"
| "dump pretty n (JBool b) = (if b then ''true'' else ''false'')"
| "dump pretty n (JInt i) = int_str i"
| "dump pretty n (JFloat r) = dump_float r"
| "dump pretty n (JStr s) = dump_str s"
| "dump pretty n (JList xs) = bracketed pretty n ''['' '']'' (map (dump pretty (Suc n)) xs)"
| "dump pretty n (JObj ob) =
     bracketed pretty n ''{'' ''}'' (map (\<lambda>(k, v). dump_str k @ colon pretty @ dump pretty (Suc n) v) ob)"

text \<open>\<open>sort_keys=True\<close>, at every level.\<close>

fun sort_keys :: "json \<Rightarrow> json" where
  "sort_keys (JList xs) = JList (map sort_keys xs)"
| "sort_keys (JObj ob) = JObj (sort_key fst (map (\<lambda>(k, v). (k, sort_keys v)) ob))"
| "sort_keys v = v"

subsection \<open>Reading\<close>

text \<open>\<open>Malformed\<close> is a \<open>JSONDecodeError\<close> and \<open>Too_many_digits\<close> the plain \<open>ValueError\<close> of a long integer;
  \<open>Beyond_model\<close> is no error of Python's: an escape of a code point above 255, which the model's strings do not have.\<close>

datatype json_error = Malformed | Too_many_digits | Beyond_model

type_synonym 'a parse = "json_error + 'a \<times> string"

definition json_space :: "char \<Rightarrow> bool" where
  "json_space c = (c = CHR '' '' \<or> c = CHR 0x09 \<or> c = lf \<or> c = cr)"

definition skip_space :: "string \<Rightarrow> string" where
  "skip_space s = dropWhile json_space s"

definition hex_of :: "char \<Rightarrow> nat option" where
  "hex_of c = (let n = code c in
     if is_digit c then Some (n - 48)
     else if 97 \<le> n \<and> n \<le> 102 then Some (n - 87)
     else if 65 \<le> n \<and> n \<le> 70 then Some (n - 55) else None)"

definition simple_escape :: "char \<Rightarrow> char option" where
  "simple_escape e =
     (if e = quote2 \<or> e = backslash \<or> e = slash then Some e
      else if e = CHR ''b'' then Some (CHR 0x08)
      else if e = CHR ''f'' then Some (CHR 0x0C)
      else if e = CHR ''n'' then Some lf
      else if e = CHR ''r'' then Some cr
      else if e = CHR ''t'' then Some (CHR 0x09) else None)"

definition unicode_escape :: "char \<Rightarrow> char \<Rightarrow> char \<Rightarrow> char \<Rightarrow> json_error + char" where
  "unicode_escape a b c d =
     (case (hex_of a, hex_of b, hex_of c, hex_of d) of
        (Some w, Some x, Some y, Some z) \<Rightarrow>
          if w = 0 \<and> x = 0 then Inr (char_of (16 * y + z)) else Inl Beyond_model
      | _ \<Rightarrow> Inl Malformed)"

definition parse_then :: "'a parse \<Rightarrow> ('a \<Rightarrow> string \<Rightarrow> 'b parse) \<Rightarrow> 'b parse" where
  "parse_then r f = (case r of Inl e \<Rightarrow> Inl e | Inr (x, rest) \<Rightarrow> f x rest)"

definition consing :: "'a \<Rightarrow> 'a list parse \<Rightarrow> 'a list parse" where
  "consing x r = parse_then r (\<lambda>xs rest. Inr (x # xs, rest))"

text \<open>A string, from after its opening quote.\<close>

fun parse_str :: "string \<Rightarrow> string parse" where
  "parse_str [] = Inl Malformed"
| "parse_str (c # cs) =
     (if c = quote2 then Inr ([], cs)
      else if c = backslash then
        (case cs of
           [] \<Rightarrow> Inl Malformed
         | e # cs' \<Rightarrow>
             if e = CHR ''u'' then
               (case cs' of
                  a # b # x # y # rest \<Rightarrow>
                    (case unicode_escape a b x y of Inl err \<Rightarrow> Inl err | Inr d \<Rightarrow> consing d (parse_str rest))
                | _ \<Rightarrow> Inl Malformed)
             else (case simple_escape e of None \<Rightarrow> Inl Malformed | Some d \<Rightarrow> consing d (parse_str cs')))
      else if code c < 32 then Inl Malformed
      else consing c (parse_str cs))"

text \<open>The number grammar \<open>-?(0|[1-9][0-9]*)(\.[0-9]+)?([eE][-+]?[0-9]+)?\<close>, part by part.\<close>

definition digits_of :: "string \<Rightarrow> string" where "digits_of s = takeWhile is_digit s"

definition whole_part :: "string \<Rightarrow> string" where
  "whole_part s = (case s of [] \<Rightarrow> [] | c # cs \<Rightarrow> if c = CHR ''0'' then [c] else digits_of s)"

definition fraction_part :: "string \<Rightarrow> string" where
  "fraction_part s =
     (case s of c # cs \<Rightarrow> if c = CHR ''.'' \<and> digits_of cs \<noteq> [] then c # digits_of cs else [] | [] \<Rightarrow> [])"

definition exponent_part :: "string \<Rightarrow> string" where
  "exponent_part s =
     (case s of
        c # cs \<Rightarrow>
          if c = CHR ''e'' \<or> c = CHR ''E''
          then (let sign = takeWhile (\<lambda>x. x = CHR ''-'' \<or> x = CHR ''+'') (take 1 cs);
                    digits = digits_of (drop (length sign) cs)
                in if digits = [] then [] else c # sign @ digits)
          else []
      | [] \<Rightarrow> [])"

definition DIGIT_LIMIT :: int where "DIGIT_LIMIT = 4300"

definition parse_number :: "(string \<Rightarrow> string) \<Rightarrow> string \<Rightarrow> json parse" where
  "parse_number flt s =
     (let sign = takeWhile (\<lambda>c. c = CHR ''-'') (take 1 s);
          s1 = drop (length sign) s;
          whole = whole_part s1; s2 = drop (length whole) s1;
          frac = fraction_part s2; s3 = drop (length frac) s2;
          expo = exponent_part s3; rest = drop (length expo) s3
      in if whole = [] then Inl Malformed
         else if frac = [] \<and> expo = []
         then (if int (length whole) > DIGIT_LIMIT then Inl Too_many_digits
               else Inr (JInt (if sign = [] then int (digits_val whole) else - int (digits_val whole)), rest))
         else Inr (JFloat (flt (sign @ whole @ frac @ expo)), rest))"

definition parse_word :: "(string \<Rightarrow> string) \<Rightarrow> string \<Rightarrow> json parse" where
  "parse_word flt s =
     (if prefix ''null'' s then Inr (JNull, drop 4 s)
      else if prefix ''true'' s then Inr (JBool True, drop 4 s)
      else if prefix ''false'' s then Inr (JBool False, drop 5 s)
      else if prefix ''NaN'' s then Inr (JFloat ''nan'', drop 3 s)
      else if prefix ''Infinity'' s then Inr (JFloat ''inf'', drop 8 s)
      else if prefix ''-Infinity'' s then Inr (JFloat ''-inf'', drop 9 s)
      else parse_number flt s)"

text \<open>A member's key, up to and past its colon.\<close>

definition parse_key :: "string \<Rightarrow> string parse" where
  "parse_key s =
     (case s of
        c # cs \<Rightarrow>
          if c = quote2
          then parse_then (parse_str cs) (\<lambda>k rest.
                 case skip_space rest of
                   d # ds \<Rightarrow> if d = CHR '':'' then Inr (k, skip_space ds) else Inl Malformed
                 | [] \<Rightarrow> Inl Malformed)
          else Inl Malformed
      | [] \<Rightarrow> Inl Malformed)"

text \<open>After an item: the closing bracket ends, a comma goes on with the rest.\<close>

definition parse_more :: "char \<Rightarrow> 'a \<Rightarrow> (string \<Rightarrow> 'a list parse) \<Rightarrow> string \<Rightarrow> 'a list parse" where
  "parse_more close x more s =
     (case skip_space s of
        c # cs \<Rightarrow> if c = close then Inr ([x], cs) else if c = CHR '','' then consing x (more (skip_space cs))
                 else Inl Malformed
      | [] \<Rightarrow> Inl Malformed)"

definition obj_of :: "(string \<times> json) list \<Rightarrow> obj" where
  "obj_of members = fold (\<lambda>(k, v). AList.update k v) members []"

text \<open>The fuel bounds the depth of calls; \<open>loads\<close> gives more than any text can use (\<open>fuel_enough\<close>).\<close>

fun parse_value :: "(string \<Rightarrow> string) \<Rightarrow> nat \<Rightarrow> string \<Rightarrow> json parse"
and parse_items :: "(string \<Rightarrow> string) \<Rightarrow> nat \<Rightarrow> string \<Rightarrow> json list parse"
and parse_members :: "(string \<Rightarrow> string) \<Rightarrow> nat \<Rightarrow> string \<Rightarrow> (string \<times> json) list parse" where
  "parse_value flt 0 s = Inl Malformed"
| "parse_value flt (Suc n) s =
     (case s of
        [] \<Rightarrow> Inl Malformed
      | c # cs \<Rightarrow>
          if c = quote2 then parse_then (parse_str cs) (\<lambda>t rest. Inr (JStr t, rest))
          else if c = CHR ''['' then
            (if prefix '']'' (skip_space cs) then Inr (JList [], drop 1 (skip_space cs))
             else parse_then (parse_items flt n (skip_space cs)) (\<lambda>xs rest. Inr (JList xs, rest)))
          else if c = CHR ''{'' then
            (if prefix ''}'' (skip_space cs) then Inr (JObj [], drop 1 (skip_space cs))
             else parse_then (parse_members flt n (skip_space cs)) (\<lambda>ms rest. Inr (JObj (obj_of ms), rest)))
          else parse_word flt s)"
| "parse_items flt 0 s = Inl Malformed"
| "parse_items flt (Suc n) s =
     parse_then (parse_value flt n s) (\<lambda>x rest. parse_more (CHR '']'') x (parse_items flt n) rest)"
| "parse_members flt 0 s = Inl Malformed"
| "parse_members flt (Suc n) s =
     parse_then (parse_key s) (\<lambda>k rest.
       parse_then (parse_value flt n rest) (\<lambda>v rest'. parse_more (CHR ''}'') (k, v) (parse_members flt n) rest'))"

definition fuel_for :: "string \<Rightarrow> nat" where "fuel_for s = Suc (Suc (2 * length s))"

definition loads :: "(string \<Rightarrow> string) \<Rightarrow> string \<Rightarrow> json_error + json" where
  "loads flt s =
     (case parse_value flt (fuel_for s) (skip_space s) of
        Inl e \<Rightarrow> Inl e
      | Inr (v, rest) \<Rightarrow> if skip_space rest = [] then Inr v else Inl Malformed)"

subsection \<open>The reader always ends\<close>

lemma parse_then_Inr [simp]:
  "parse_then r f = Inr y \<longleftrightarrow> (\<exists>x rest. r = Inr (x, rest) \<and> f x rest = Inr y)"
  by (auto simp: parse_then_def split: sum.splits)

lemma parse_then_simps [simp]: "parse_then (Inl e) f = Inl e" "parse_then (Inr (x, rest)) f = f x rest"
  by (simp_all add: parse_then_def)

lemma consing_Inr: "consing x r = Inr (ys, rest) \<longleftrightarrow> (\<exists>xs. r = Inr (xs, rest) \<and> ys = x # xs)"
  by (auto simp: consing_def)

lemma consing_simp [simp]: "consing x (Inr (xs, rest)) = Inr (x # xs, rest)"
  by (simp add: consing_def)

lemma skip_space_shorter: "length (skip_space s) \<le> length s"
  by (simp add: skip_space_def length_dropWhile_le)

declare parse_str.simps [simp del]

lemma parse_str_Nil [simp]: "parse_str [] = Inl Malformed"
  by (simp add: parse_str.simps)

lemma parse_str_quote: "parse_str (quote2 # cs) = Inr ([], cs)"
  by (simp add: parse_str.simps)

lemma parse_str_plain:
  "c \<noteq> quote2 \<Longrightarrow> c \<noteq> backslash \<Longrightarrow>
    parse_str (c # cs) = (if code c < 32 then Inl Malformed else consing c (parse_str cs))"
  by (simp add: parse_str.simps)

lemma parse_str_escape:
  "parse_str (backslash # cs) = (case cs of
      [] \<Rightarrow> Inl Malformed
    | e # cs' \<Rightarrow>
        if e = CHR ''u'' then
          (case cs' of
             a # b # x # y # rest \<Rightarrow>
               (case unicode_escape a b x y of Inl err \<Rightarrow> Inl err | Inr d \<Rightarrow> consing d (parse_str rest))
           | _ \<Rightarrow> Inl Malformed)
        else (case simple_escape e of None \<Rightarrow> Inl Malformed | Some d \<Rightarrow> consing d (parse_str cs')))"
  by (subst parse_str.simps) (simp add: quote2_def backslash_def)

lemma parse_str_cases:
  assumes "parse_str (c # cs) = Inr (t, rest)"
  obtains "rest = cs"
    | t' where "parse_str cs = Inr (t', rest)"
    | e cs' t' where "cs = e # cs'" "parse_str cs' = Inr (t', rest)"
    | e a b x y cs' t' where "cs = e # a # b # x # y # cs'" "parse_str cs' = Inr (t', rest)"
proof -
  have tail: "\<exists>t'. parse_str u = Inr (t', rest)" if "consing d (parse_str u) = Inr (t, rest)" for d u
    using that by (auto simp: consing_Inr)
  consider "c = quote2" | "c \<noteq> quote2" "c = backslash" | "c \<noteq> quote2" "c \<noteq> backslash" by blast
  then show thesis
  proof cases
    case 1
    with assms show thesis by (simp add: parse_str_quote that(1))
  next
    case 2
    then have a: "parse_str (backslash # cs) = Inr (t, rest)" using assms by simp
    then obtain e cs' where cs: "cs = e # cs'" by (cases cs) (auto simp: parse_str_escape)
    show thesis
    proof (cases "e = CHR ''u''")
      case True
      from a [unfolded parse_str_escape] cs True have "(case cs' of
          a # b # x # y # r \<Rightarrow>
            (case unicode_escape a b x y of Inl err \<Rightarrow> Inl err | Inr d \<Rightarrow> consing d (parse_str r))
        | _ \<Rightarrow> Inl Malformed) = Inr (t, rest)" by simp
      note u = this
      obtain a u1 where 1: "cs' = a # u1" using u by (cases cs') simp_all
      obtain b u2 where 2: "u1 = b # u2" using u unfolding 1 by (cases u1) simp_all
      obtain x u3 where 3: "u2 = x # u3" using u unfolding 1 2 by (cases u2) simp_all
      obtain y r where 4: "u3 = y # r" using u unfolding 1 2 3 by (cases u3) simp_all
      note u = u [unfolded 1 2 3 4, simplified list.case]
      show thesis
      proof (cases "unicode_escape a b x y")
        case (Inr d)
        with u have "consing d (parse_str r) = Inr (t, rest)" by (simp only: sum.case)
        from tail [OF this] obtain t' where "parse_str r = Inr (t', rest)" ..
        moreover have "cs = e # a # b # x # y # r" by (simp only: cs 1 2 3 4)
        ultimately show thesis by (intro that(4))
      qed (use u in \<open>simp only: sum.case sum.distinct\<close>)
    next
      case False
      from a [unfolded parse_str_escape] cs False have "(case simple_escape e of None \<Rightarrow> Inl Malformed | Some d \<Rightarrow> consing d (parse_str cs'))
        = Inr (t, rest)" by simp
      then obtain d where "consing d (parse_str cs') = Inr (t, rest)" by (auto split: option.splits)
      from tail [OF this] obtain t' where "parse_str cs' = Inr (t', rest)" ..
      with cs show thesis by (intro that(3))
    qed
  next
    case 3
    with assms have "consing c (parse_str cs) = Inr (t, rest)" by (simp add: parse_str_plain split: if_splits)
    from tail [OF this] obtain t' where "parse_str cs = Inr (t', rest)" ..
    then show thesis by (rule that(2))
  qed
qed

lemma parse_str_shorter: "parse_str s = Inr (t, rest) \<Longrightarrow> length rest < length s"
proof (induction "length s" arbitrary: s t rule: less_induct)
  case less
  then obtain c cs where s: "s = c # cs" by (cases s) auto
  with less.prems have p: "parse_str (c # cs) = Inr (t, rest)" by simp
  show ?case
  proof (cases rule: parse_str_cases [OF p])
    case 1 then show ?thesis by (simp add: s)
  next
    case 2 then show ?thesis using less.hyps [of cs] s by fastforce
  next
    case (3 e cs') then show ?thesis using less.hyps [of cs'] s by fastforce
  next
    case (4 e a b x y cs') then show ?thesis using less.hyps [of cs'] s by fastforce
  qed
qed

lemma whole_part_take: "length (whole_part s) \<le> length s"
  by (cases s) (auto simp: whole_part_def digits_of_def intro: le_trans [OF length_takeWhile_le])

lemma parse_number_shorter: "parse_number flt s = Inr (v, rest) \<Longrightarrow> length rest < length s"
proof -
  assume p: "parse_number flt s = Inr (v, rest)"
  define sign where "sign = takeWhile (\<lambda>c. c = CHR ''-'') (take 1 s)"
  define s1 where "s1 = drop (length sign) s"
  define s2 where "s2 = drop (length (whole_part s1)) s1"
  define s3 where "s3 = drop (length (fraction_part s2)) s2"
  note parts = parse_number_def Let_def sign_def [symmetric] s1_def [symmetric] s2_def [symmetric] s3_def [symmetric]
  have w: "whole_part s1 \<noteq> []" using p unfolding parts by (auto split: if_splits)
  moreover have "rest = drop (length (exponent_part s3)) s3"
    using p unfolding parts by (auto split: if_splits)
  moreover have "length s3 \<le> length s2" "length s1 \<le> length s" by (simp_all add: s3_def s1_def)
  moreover have "length s2 < length s1" using w whole_part_take [of s1] unfolding s2_def
    by (cases "whole_part s1") auto
  ultimately show ?thesis by simp
qed

lemma parse_word_shorter: "parse_word flt s = Inr (v, rest) \<Longrightarrow> length rest < length s"
  by (auto simp: parse_word_def prefix_def split: if_splits dest: parse_number_shorter)

lemma parse_key_shorter: "parse_key s = Inr (k, rest) \<Longrightarrow> length rest < length s"
proof -
  assume p: "parse_key s = Inr (k, rest)"
  then obtain c cs where s: "s = c # cs" by (auto simp: parse_key_def split: list.splits)
  with p have "parse_then (parse_str cs) (\<lambda>k r. case skip_space r of
      d # ds \<Rightarrow> if d = CHR '':'' then Inr (k, skip_space ds) else Inl Malformed | [] \<Rightarrow> Inl Malformed) = Inr (k, rest)"
    by (simp add: parse_key_def split: if_splits del: parse_then_Inr)
  then obtain k' r where k: "parse_str cs = Inr (k', r)" "(case skip_space r of
      d # ds \<Rightarrow> if d = CHR '':'' then Inr (k', skip_space ds) else Inl Malformed | [] \<Rightarrow> Inl Malformed) = Inr (k, rest)"
    unfolding parse_then_Inr by blast
  from k(2) obtain d ds where r: "skip_space r = d # ds" "rest = skip_space ds"
    by (auto split: if_splits list.splits)
  have "length rest \<le> length ds" "length (d # ds) \<le> length r" "length r < length cs"
    using r skip_space_shorter [of ds] skip_space_shorter [of r] parse_str_shorter [OF k(1)] by auto
  then show ?thesis by (simp add: s)
qed

lemma parse_more_shorter:
  "parse_more close x more s = Inr (xs, rest) \<Longrightarrow> (\<And>t ys r. more t = Inr (ys, r) \<Longrightarrow> length r < length t) \<Longrightarrow>
    length rest < length s"
proof -
  assume m: "parse_more close x more s = Inr (xs, rest)" and more: "\<And>t ys r. more t = Inr (ys, r) \<Longrightarrow> length r < length t"
  then obtain c cs where s: "skip_space s = c # cs" by (auto simp: parse_more_def split: list.splits)
  with m have "rest = cs \<or> (\<exists>ys. more (skip_space cs) = Inr (ys, rest))"
    by (auto simp: parse_more_def consing_Inr split: if_splits)
  then have "length rest \<le> length cs" using more skip_space_shorter [of cs] by force
  then show ?thesis using skip_space_shorter [of s] s by simp
qed

lemma drop_skip_shorter: "prefix [x] (skip_space cs) \<Longrightarrow> length (drop 1 (skip_space cs)) < Suc (length cs)"
  using skip_space_shorter [of cs] by simp

lemma parse_shorter:
  "(parse_value flt n s = Inr (v, rest) \<longrightarrow> length rest < length s)
   \<and> (parse_items flt n s = Inr (xs, rest) \<longrightarrow> length rest < length s)
   \<and> (parse_members flt n s = Inr (ms, rest) \<longrightarrow> length rest < length s)"
proof (induction n arbitrary: s v xs ms rest)
  case (Suc n)
  have v: "length rest < length s" if p: "parse_value flt (Suc n) s = Inr (v, rest)" for s v rest
  proof (cases s)
    case (Cons c cs)
    have l: "length (skip_space cs) \<le> length cs" by (rule skip_space_shorter)
    from p Cons have "(\<exists>t. parse_str cs = Inr (t, rest)) \<or> rest = drop 1 (skip_space cs)
      \<or> (\<exists>xs. parse_items flt n (skip_space cs) = Inr (xs, rest))
      \<or> (\<exists>ms. parse_members flt n (skip_space cs) = Inr (ms, rest)) \<or> parse_word flt s = Inr (v, rest)"
      by (auto split: if_splits)
    then show ?thesis
    proof (elim disjE exE)
      show "parse_str cs = Inr (t, rest) \<Longrightarrow> ?thesis" for t using parse_str_shorter [of cs t rest] Cons by simp
      show "rest = drop 1 (skip_space cs) \<Longrightarrow> ?thesis" using l Cons by simp
      show "parse_items flt n (skip_space cs) = Inr (xs, rest) \<Longrightarrow> ?thesis" for xs
        using Suc.IH [of "skip_space cs" JNull rest xs "[]"] l Cons by simp
      show "parse_members flt n (skip_space cs) = Inr (ms, rest) \<Longrightarrow> ?thesis" for ms
        using Suc.IH [of "skip_space cs" JNull rest "[]" ms] l Cons by simp
      show "parse_word flt s = Inr (v, rest) \<Longrightarrow> ?thesis" by (rule parse_word_shorter)
    qed
  qed (use p in simp)
  have i: "length rest < length s" if "parse_items flt (Suc n) s = Inr (xs, rest)" for s xs rest
  proof -
    from that obtain x r where x: "parse_value flt n s = Inr (x, r)"
      "parse_more (CHR '']'') x (parse_items flt n) r = Inr (xs, rest)" by auto
    have "length rest < length r" by (rule parse_more_shorter [OF x(2)]) (use Suc.IH in blast)
    then show ?thesis using Suc.IH [of s x r "[]" "[]"] x(1) by simp
  qed
  have m: "length rest < length s" if "parse_members flt (Suc n) s = Inr (ms, rest)" for s ms rest
  proof -
    from that obtain k v r r' where x: "parse_key s = Inr (k, r)" "parse_value flt n r = Inr (v, r')"
      "parse_more (CHR ''}'') (k, v) (parse_members flt n) r' = Inr (ms, rest)" by auto
    have "length rest < length r'" by (rule parse_more_shorter [OF x(3)]) (use Suc.IH in blast)
    then show ?thesis using Suc.IH [of r v r' "[]" "[]"] x(2) parse_key_shorter [OF x(1)] by simp
  qed
  from v i m show ?case by blast
qed simp

lemma parse_more_cong:
  assumes "\<And>t. length t < length s \<Longrightarrow> more t = more' t"
  shows "parse_more close x more s = parse_more close x more' s"
proof (cases "skip_space s")
  case (Cons c cs)
  have "length (skip_space cs) < length s" using skip_space_shorter [of s] skip_space_shorter [of cs] Cons by simp
  with assms Cons show ?thesis by (simp add: parse_more_def)
qed (simp add: parse_more_def)

lemma one_more_fuel:
  "(2 * length s < n \<longrightarrow> parse_value flt (Suc n) s = parse_value flt n s)
   \<and> (Suc (2 * length s) < n \<longrightarrow> parse_items flt (Suc n) s = parse_items flt n s)
   \<and> (Suc (2 * length s) < n \<longrightarrow> parse_members flt (Suc n) s = parse_members flt n s)"
proof (induction n arbitrary: s)
  case (Suc n)
  have same: "parse_value flt (Suc n) t = parse_value flt n t" if "2 * length t < n" for t
    using Suc.IH that by blast
  have more: "parse_items flt (Suc n) t = parse_items flt n t" "parse_members flt (Suc n) t = parse_members flt n t"
    if "Suc (2 * length t) < n" for t using Suc.IH that by blast+
  have v: "parse_value flt (Suc (Suc n)) s = parse_value flt (Suc n) s" if l: "2 * length s < Suc n"
  proof (cases s)
    case (Cons c cs)
    have "length (skip_space cs) \<le> length cs" by (rule skip_space_shorter)
    with l Cons have "Suc (2 * length (skip_space cs)) < n" by simp
    with more show ?thesis by (simp add: Cons)
  qed simp
  have i: "parse_items flt (Suc (Suc n)) s = parse_items flt (Suc n) s" if l: "Suc (2 * length s) < Suc n"
  proof (cases "parse_value flt n s")
    case (Inr y)
    obtain x r where y: "y = (x, r)" by (cases y)
    have "length r < length s" using parse_shorter [of flt n s x r "[]" "[]"] Inr y by simp
    then have "parse_more (CHR '']'') x (parse_items flt (Suc n)) r = parse_more (CHR '']'') x (parse_items flt n) r"
      by (intro parse_more_cong more) (use l in simp)
    with same [of s] l Inr y show ?thesis by (simp del: parse_value.simps)
  qed (use same [of s] l in \<open>simp del: parse_value.simps\<close>)
  have m: "parse_members flt (Suc (Suc n)) s = parse_members flt (Suc n) s" if l: "Suc (2 * length s) < Suc n"
  proof (cases "parse_key s")
    case (Inr z)
    obtain k r where z: "z = (k, r)" by (cases z)
    have lr: "length r < length s" using parse_key_shorter [of s k r] Inr z by simp
    then have e: "parse_value flt (Suc n) r = parse_value flt n r" by (intro same) (use l in simp)
    show ?thesis
    proof (cases "parse_value flt n r")
      case v: (Inr y)
      obtain x r' where y: "y = (x, r')" by (cases y)
      have "length r' < length r" using parse_shorter [of flt n r x r' "[]" "[]"] v y by simp
      then have "parse_more (CHR ''}'') (k, x) (parse_members flt (Suc n)) r'
        = parse_more (CHR ''}'') (k, x) (parse_members flt n) r'"
        by (intro parse_more_cong more) (use l lr in simp)
      with Inr z v y e show ?thesis by (simp del: parse_value.simps)
    qed (use Inr z e in \<open>simp del: parse_value.simps\<close>)
  qed simp
  from v i m show ?case by blast
qed simp

lemma fuel_enough: "2 * length s < n \<Longrightarrow> parse_value flt n s = parse_value flt (Suc (2 * length s)) s"
proof (induction n)
  case (Suc n)
  show ?case
  proof (cases "2 * length s < n")
    case True
    with Suc.IH one_more_fuel [of s n flt] show ?thesis by simp
  next
    case False
    with Suc.prems have "n = 2 * length s" by simp
    then show ?thesis by (rule arg_cong)
  qed
qed simp

subsection \<open>What is written reads back\<close>

text \<open>What \<open>dumps\<close> writes so that \<open>loads\<close> reads it back: keys each once, integers short enough to be read, no floats.\<close>

fun readable :: "json \<Rightarrow> bool" where
  "readable (JInt i) = (int (length (nat_str (nat \<bar>i\<bar>))) \<le> DIGIT_LIMIT)"
| "readable (JFloat r) = False"
| "readable (JList xs) = (\<forall>x \<in> set xs. readable x)"
| "readable (JObj ob) = (distinct (map fst ob) \<and> (\<forall>m \<in> set ob. readable (snd m)))"
| "readable v = True"

lemma hex_of_digit: "n < 16 \<Longrightarrow> hex_of (hex_digit n) = Some n"
  by (auto simp: hex_of_def hex_digit_def is_digit_def Let_def)

lemma unicode_escape_hex2: "hex2 c = [x, y] \<Longrightarrow> unicode_escape (CHR ''0'') (CHR ''0'') x y = Inr c"
proof -
  assume "hex2 c = [x, y]"
  then have x: "x = hex_digit (code c div 16)" "y = hex_digit (code c mod 16)" by (simp_all add: hex2_def)
  have "code c div 16 < 16" using code_less [of c] by (simp add: less_mult_imp_div_less)
  then have "hex_of x = Some (code c div 16)" "hex_of y = Some (code c mod 16)" unfolding x
    by (simp_all add: hex_of_digit)
  moreover have "hex_of (CHR ''0'') = Some 0" by (simp add: hex_of_def is_digit_def code_def)
  moreover have "char_of (16 * (code c div 16) + code c mod 16) = c" by (simp add: code_def)
  ultimately show ?thesis by (simp add: unicode_escape_def)
qed

lemma parse_escape_code: "parse_str (escape_code c @ cs) = consing c (parse_str cs)"
proof -
  have named: "parse_str (backslash # e # cs) = consing d (parse_str cs)"
    if "simple_escape e = Some d" "e \<noteq> CHR ''u''" for e d
    using that by (simp add: parse_str_escape)
  consider "c = quote2" | "c = backslash" | "c = lf" | "c = cr" | "c = CHR 0x09" | "c = CHR 0x0C" | "c = CHR 0x08"
    | "c \<notin> {quote2, backslash, lf, cr, CHR 0x09, CHR 0x0C, CHR 0x08}" "32 \<le> code c" "code c \<le> 126"
    | "c \<notin> {quote2, backslash, lf, cr, CHR 0x09, CHR 0x0C, CHR 0x08}" "\<not> (32 \<le> code c \<and> code c \<le> 126)"
    by blast
  then show ?thesis
  proof cases
    case 1 then show ?thesis
      using named [of quote2 quote2] by (simp add: escape_code_def simple_escape_def quote2_def)
  next
    case 2 then show ?thesis
      using named [of backslash backslash] by (simp add: escape_code_def simple_escape_def quote2_def backslash_def)
  next
    case 3 then show ?thesis using named [of "CHR ''n''" lf]
      by (simp add: escape_code_def simple_escape_def quote2_def backslash_def slash_def lf_def)
  next
    case 4 then show ?thesis using named [of "CHR ''r''" cr]
      by (simp add: escape_code_def simple_escape_def quote2_def backslash_def slash_def lf_def cr_def)
  next
    case 5 then show ?thesis using named [of "CHR ''t''" "CHR 0x09"]
      by (simp add: escape_code_def simple_escape_def quote2_def backslash_def slash_def lf_def cr_def)
  next
    case 6 then show ?thesis using named [of "CHR ''f''" "CHR 0x0C"]
      by (simp add: escape_code_def simple_escape_def quote2_def backslash_def slash_def lf_def cr_def)
  next
    case 7 then show ?thesis using named [of "CHR ''b''" "CHR 0x08"]
      by (simp add: escape_code_def simple_escape_def quote2_def backslash_def slash_def lf_def cr_def)
  next
    case 8 then show ?thesis by (simp add: escape_code_def parse_str_plain)
  next
    case 9
    obtain x y where h: "hex2 c = [x, y]" by (simp add: hex2_def)
    with 9 have "escape_code c = [backslash, CHR ''u'', CHR ''0'', CHR ''0'', x, y]"
      by (auto simp: escape_code_def)
    then show ?thesis using unicode_escape_hex2 [OF h] by (simp add: parse_str_escape)
  qed
qed

lemma parse_dump_str: "parse_str (concat (map escape_code s) @ quote2 # rest) = Inr (s, rest)"
  by (induction s) (simp_all add: parse_str_quote parse_escape_code)

subsubsection \<open>Numbers\<close>

definition ends_number :: "string \<Rightarrow> bool" where
  "ends_number rest = (rest = [] \<or> hd rest \<in> {CHR '','', CHR '']'', CHR ''}'', lf})"

lemma ends_number_cases: "ends_number (c # cs) \<Longrightarrow> \<not> is_digit c \<and> c \<noteq> CHR ''.'' \<and> c \<noteq> CHR ''e'' \<and> c \<noteq> CHR ''E''"
  by (auto simp: ends_number_def is_digit_def code_def lf_def)

lemma nat_str_head: "0 < n \<Longrightarrow> hd (nat_str n) \<noteq> CHR ''0''"
proof (induction n rule: nat_str.induct)
  case (1 n)
  show ?case
  proof (cases "n < 10")
    case True
    have "code (CHR ''0'') = 48" by (simp add: code_def)
    moreover have "code (char_of (48 + n)) = 48 + n" using True by simp
    ultimately show ?thesis using 1(2) True by (subst nat_str.simps) (metis add_cancel_left_right list.sel(1) not_gr0)
  next
    case False
    with 1 have "hd (nat_str (n div 10)) \<noteq> CHR ''0''" by simp
    with False show ?thesis by (subst nat_str.simps) (simp add: hd_append)
  qed
qed

lemma whole_part_nat_str: "ends_number rest \<Longrightarrow> whole_part (nat_str n @ rest) = nat_str n"
proof -
  assume e: "ends_number rest"
  have d: "takeWhile is_digit rest = []" using e ends_number_cases by (cases rest) auto
  show ?thesis
  proof (cases "n = 0")
    case True
    have z: "nat_str 0 = [CHR ''0'']" by code_simp
    show ?thesis by (simp add: True z whole_part_def)
  next
    case False
    then have "hd (nat_str n) \<noteq> CHR ''0''" using nat_str_head by simp
    moreover obtain c cs where c: "nat_str n = c # cs" by (cases "nat_str n") auto
    moreover have "digits_of (nat_str n @ rest) = nat_str n"
      using nat_str_digits [of n] d by (simp add: digits_of_def takeWhile_append2)
    ultimately show ?thesis by (simp add: whole_part_def)
  qed
qed

lemma no_fraction: "ends_number rest \<Longrightarrow> fraction_part rest = [] \<and> exponent_part rest = []"
  using ends_number_cases by (cases rest) (auto simp: fraction_part_def exponent_part_def)

lemma digit_not_minus: "is_digit c \<Longrightarrow> c \<noteq> CHR ''-''"
  by (auto simp: is_digit_def code_def)

lemma nat_str_first: "\<exists>c cs. nat_str n = c # cs \<and> is_digit c"
  using nat_str_digits [of n] by (cases "nat_str n") auto

lemma parse_int: 
  assumes "ends_number rest" "readable (JInt i)"
  shows "parse_number flt (int_str i @ rest) = Inr (JInt i, rest)"
proof -
  obtain c cs where c: "nat_str (nat \<bar>i\<bar>) = c # cs" "is_digit c" using nat_str_first by blast
  have s: "takeWhile (\<lambda>x. x = CHR ''-'') (take 1 (int_str i @ rest)) = (if i < 0 then ''-'' else [])"
    using c digit_not_minus [of c] by (auto simp: int_str_def)
  have d: "drop (length (if i < 0 then ''-'' else [])) (int_str i @ rest) = nat_str (nat \<bar>i\<bar>) @ rest"
    by (simp add: int_str_def)
  note w = whole_part_nat_str [OF assms(1), of "nat \<bar>i\<bar>"]
  show ?thesis
    using no_fraction [OF assms(1)] assms(2)
    unfolding parse_number_def Let_def s d w by (simp add: not_le [symmetric])
qed

lemma digit_not_word:
  "is_digit c \<Longrightarrow> c \<notin> {CHR ''n'', CHR ''t'', CHR ''f'', CHR ''N'', CHR ''I'', CHR ''-'', quote2, CHR ''['', CHR ''{''}"
  by (auto simp: is_digit_def code_def quote2_def)

lemma int_str_head: "\<exists>c cs. int_str i = c # cs \<and> (is_digit c \<or> c = CHR ''-'' \<and> (\<exists>d ds. cs = d # ds \<and> is_digit d))"
  using nat_str_first [of "nat (- i)"] nat_str_first [of "nat i"] by (auto simp: int_str_def)

lemma parse_word_int:
  assumes "ends_number rest" "readable (JInt i)"
  shows "parse_word flt (int_str i @ rest) = Inr (JInt i, rest)"
proof -
  obtain c cs where c: "int_str i = c # cs" "is_digit c \<or> c = CHR ''-'' \<and> (\<exists>d ds. cs = d # ds \<and> is_digit d)"
    using int_str_head [of i] by (elim exE conjE) (rule that)
  have n: "c \<noteq> CHR ''n''" "c \<noteq> CHR ''t''" "c \<noteq> CHR ''f''" "c \<noteq> CHR ''N''" "c \<noteq> CHR ''I''"
    using c(2) digit_not_word [of c] by auto
  have m: "\<not> prefix ''-Infinity'' (c # cs @ rest)"
  proof (cases "c = CHR ''-''")
    case True
    with c(2) digit_not_word [of c] obtain d ds where "cs = d # ds" "is_digit d" by auto
    with digit_not_word [of d] show ?thesis by auto
  qed simp
  have "\<forall>w \<in> {''null'', ''true'', ''false'', ''NaN'', ''Infinity'', ''-Infinity''}. \<not> prefix w (int_str i @ rest)"
    using n m by (simp add: c(1))
  then show ?thesis using parse_int [OF assms] by (simp add: parse_word_def)
qed

subsubsection \<open>Documents\<close>

lemma skip_space_to: "list_all json_space ws \<Longrightarrow> \<not> json_space c \<Longrightarrow> skip_space (ws @ c # cs) = c # cs"
  by (induction ws) (simp_all add: skip_space_def)

lemma line_start_space: "list_all json_space (line_start pretty n)"
  by (auto simp: line_start_def json_space_def list_all_iff)

definition starts_value :: "char \<Rightarrow> bool" where
  "starts_value c = (\<not> json_space c \<and> c \<noteq> CHR '']'' \<and> c \<noteq> CHR ''}'')"

lemma dump_head: "readable v \<Longrightarrow> \<exists>c cs. dump pretty n v = c # cs \<and> starts_value c"
proof (cases v)
  case (JInt i)
  obtain c cs where "int_str i = c # cs" "is_digit c \<or> c = CHR ''-'' \<and> (\<exists>d ds. cs = d # ds \<and> is_digit d)"
    using int_str_head [of i] by (elim exE conjE) (rule that)
  with JInt show ?thesis by (auto simp: starts_value_def json_space_def is_digit_def code_def lf_def cr_def)
qed (auto simp: starts_value_def json_space_def dump_str_def bracketed_def quote2_def lf_def cr_def)

lemma skip_to_value:
  assumes "readable v" "list_all json_space ws"
  shows "skip_space (ws @ dump pretty n v @ rest) = dump pretty n v @ rest"
proof -
  obtain c cs where "dump pretty n v = c # cs" "starts_value c" using dump_head [OF assms(1)] by blast
  with assms(2) show ?thesis by (simp add: skip_space_to starts_value_def)
qed

lemma more_closes:
  "list_all json_space ws \<Longrightarrow> \<not> json_space close \<Longrightarrow> parse_more close x more (ws @ close # rest) = Inr ([x], rest)"
  by (simp add: parse_more_def skip_space_to)

lemma more_goes_on:
  "close \<noteq> CHR '','' \<Longrightarrow> parse_more close x more (CHR '','' # s) = consing x (more (skip_space s))"
  by (auto simp: parse_more_def skip_space_def json_space_def lf_def cr_def)

lemma line_start_ends: "c \<in> {CHR '','', CHR '']'', CHR ''}''} \<Longrightarrow> ends_number (line_start pretty n @ c # cs)"
  by (auto simp: ends_number_def line_start_def)

lemma value_head:
  "parse_value flt (Suc n) (quote2 # cs) = parse_then (parse_str cs) (\<lambda>t rest. Inr (JStr t, rest))"
  "parse_value flt (Suc n) (CHR ''['' # cs) =
     (if prefix '']'' (skip_space cs) then Inr (JList [], drop 1 (skip_space cs))
      else parse_then (parse_items flt n (skip_space cs)) (\<lambda>xs rest. Inr (JList xs, rest)))"
  "parse_value flt (Suc n) (CHR ''{'' # cs) =
     (if prefix ''}'' (skip_space cs) then Inr (JObj [], drop 1 (skip_space cs))
      else parse_then (parse_members flt n (skip_space cs)) (\<lambda>ms rest. Inr (JObj (obj_of ms), rest)))"
  "c \<notin> {quote2, CHR ''['', CHR ''{''} \<Longrightarrow> parse_value flt (Suc n) (c # cs) = parse_word flt (c # cs)"
  by (simp_all add: quote2_def)

definition reads_as :: "bool \<Rightarrow> (string \<Rightarrow> string) \<Rightarrow> json \<Rightarrow> bool" where
  "reads_as pretty flt v =
     (\<forall>lv rest n. ends_number rest \<longrightarrow> 2 * length (dump pretty lv v @ rest) < n \<longrightarrow>
        parse_value flt n (dump pretty lv v @ rest) = Inr (v, rest))"

lemma reads_asD:
  "reads_as pretty flt v \<Longrightarrow> ends_number rest \<Longrightarrow> 2 * length (dump pretty lv v @ rest) < n \<Longrightarrow>
    parse_value flt n (dump pretty lv v @ rest) = Inr (v, rest)"
  unfolding reads_as_def by blast

lemma items_read:
  assumes "xs \<noteq> []" "\<forall>x \<in> set xs. reads_as pretty flt x \<and> readable x"
    "Suc (2 * length (join ('','' @ line_start pretty lv) (map (dump pretty lv) xs) @ line_start pretty k @ CHR '']'' # rest)) < n"
  shows "parse_items flt n (join ('','' @ line_start pretty lv) (map (dump pretty lv) xs) @ line_start pretty k @ CHR '']'' # rest)
    = Inr (xs, rest)"
  using assms
proof (induction xs arbitrary: n)
  case (Cons x xs)
  then obtain m where n: "n = Suc m" by (cases n) auto
  show ?case
  proof (cases "xs = []")
    case True
    have e: "ends_number (line_start pretty k @ CHR '']'' # rest)" by (simp add: line_start_ends)
    have "parse_value flt m (dump pretty lv x @ line_start pretty k @ CHR '']'' # rest)
        = Inr (x, line_start pretty k @ CHR '']'' # rest)"
      by (rule reads_asD [OF _ e]) (use Cons.prems True n in simp_all)
    moreover have "parse_more (CHR '']'') x (parse_items flt m) (line_start pretty k @ CHR '']'' # rest) = Inr ([x], rest)"
      by (rule more_closes) (simp_all add: line_start_space json_space_def lf_def cr_def)
    ultimately show ?thesis by (simp add: True n del: parse_value.simps)
  next
    case False
    define later where
      "later = join ('','' @ line_start pretty lv) (map (dump pretty lv) xs) @ line_start pretty k @ CHR '']'' # rest"
    have whole: "join ('','' @ line_start pretty lv) (map (dump pretty lv) (x # xs)) @ line_start pretty k @ CHR '']'' # rest
        = dump pretty lv x @ CHR '','' # line_start pretty lv @ later"
      using False by (simp add: join_Cons later_def)
    have lens: "2 * length (dump pretty lv x @ CHR '','' # line_start pretty lv @ later) < m" "Suc (2 * length later) < m"
      using Cons.prems(3) unfolding whole n by simp_all
    have r: "reads_as pretty flt x" using Cons.prems(2) by simp
    have v: "parse_value flt m (dump pretty lv x @ CHR '','' # line_start pretty lv @ later)
        = Inr (x, CHR '','' # line_start pretty lv @ later)"
      by (rule reads_asD [OF r _ lens(1)]) (simp add: ends_number_def)
    obtain y ys where xs: "xs = y # ys" using False by (cases xs) auto
    have "\<exists>tl. later = dump pretty lv y @ tl" by (cases ys) (simp_all add: later_def xs join_Cons)
    then have "skip_space (line_start pretty lv @ later) = later"
      using skip_to_value [OF _ line_start_space] Cons.prems(2) by (auto simp: xs)
    moreover have "parse_items flt m later = Inr (xs, rest)"
      unfolding later_def by (rule Cons.IH [OF False]) (use Cons.prems(2) lens(2) in \<open>auto simp: later_def\<close>)
    ultimately show ?thesis unfolding whole n using v by (simp add: more_goes_on del: parse_value.simps)
  qed
qed simp

definition member :: "bool \<Rightarrow> nat \<Rightarrow> string \<times> json \<Rightarrow> string" where
  "member pretty lv kv = dump_str (fst kv) @ colon pretty @ dump pretty lv (snd kv)"

lemma parse_key_dump:
  assumes "readable v"
  shows "parse_key (dump_str k @ colon pretty @ dump pretty lv v @ rest) = Inr (k, dump pretty lv v @ rest)"
proof -
  have c: "colon pretty = CHR '':'' # (if pretty then '' '' else [])" by (simp add: colon_def)
  have "list_all json_space (if pretty then '' '' else [])" by (simp add: json_space_def)
  from skip_to_value [OF assms this]
  have "skip_space ((if pretty then '' '' else []) @ dump pretty lv v @ rest) = dump pretty lv v @ rest" .
  moreover have "skip_space (CHR '':'' # t) = CHR '':'' # t" for t
    by (simp add: skip_space_def json_space_def lf_def cr_def)
  ultimately show ?thesis
    using parse_dump_str [of k "colon pretty @ dump pretty lv v @ rest"]
    by (simp add: parse_key_def dump_str_def c)
qed

lemma members_read:
  assumes "ob \<noteq> []" "\<forall>m \<in> set ob. reads_as pretty flt (snd m) \<and> readable (snd m)"
    "Suc (2 * length (join ('','' @ line_start pretty lv) (map (member pretty lv) ob) @ line_start pretty k @ CHR ''}'' # rest)) < n"
  shows "parse_members flt n (join ('','' @ line_start pretty lv) (map (member pretty lv) ob) @ line_start pretty k @ CHR ''}'' # rest)
    = Inr (ob, rest)"
  using assms
proof (induction ob arbitrary: n)
  case (Cons x ob)
  obtain key v where x: "x = (key, v)" by (cases x)
  from Cons.prems obtain m where n: "n = Suc m" by (cases n) auto
  have rv: "reads_as pretty flt v" "readable v" using Cons.prems(2) x by auto
  show ?case
  proof (cases "ob = []")
    case True
    have e: "ends_number (line_start pretty k @ CHR ''}'' # rest)" by (simp add: line_start_ends)
    have "parse_value flt m (dump pretty lv v @ line_start pretty k @ CHR ''}'' # rest)
        = Inr (v, line_start pretty k @ CHR ''}'' # rest)"
      by (rule reads_asD [OF rv(1) e]) (use Cons.prems True n x in \<open>simp_all add: member_def\<close>)
    moreover have "parse_more (CHR ''}'') (key, v) (parse_members flt m) (line_start pretty k @ CHR ''}'' # rest)
        = Inr ([(key, v)], rest)"
      by (rule more_closes) (simp_all add: line_start_space json_space_def lf_def cr_def)
    ultimately show ?thesis by (simp add: True n x member_def parse_key_dump [OF rv(2)] del: parse_value.simps)
  next
    case False
    define later where
      "later = join ('','' @ line_start pretty lv) (map (member pretty lv) ob) @ line_start pretty k @ CHR ''}'' # rest"
    have whole: "join ('','' @ line_start pretty lv) (map (member pretty lv) (x # ob)) @ line_start pretty k @ CHR ''}'' # rest
        = dump_str key @ colon pretty @ dump pretty lv v @ CHR '','' # line_start pretty lv @ later"
      using False by (simp add: join_Cons later_def x member_def)
    have lens: "2 * length (dump pretty lv v @ CHR '','' # line_start pretty lv @ later) < m" "Suc (2 * length later) < m"
      using Cons.prems(3) unfolding whole n by simp_all
    have v: "parse_value flt m (dump pretty lv v @ CHR '','' # line_start pretty lv @ later)
        = Inr (v, CHR '','' # line_start pretty lv @ later)"
      by (rule reads_asD [OF rv(1) _ lens(1)]) (simp add: ends_number_def)
    obtain y ys where ob: "ob = y # ys" using False by (cases ob) auto
    have "\<exists>tl. later = quote2 # tl" by (cases ys) (simp_all add: later_def ob join_Cons member_def dump_str_def)
    then have "skip_space (line_start pretty lv @ later) = later"
      using skip_space_to [OF line_start_space] by (auto simp: json_space_def quote2_def lf_def cr_def)
    moreover have "parse_members flt m later = Inr (ob, rest)"
      unfolding later_def by (rule Cons.IH [OF False]) (use Cons.prems(2) lens(2) in \<open>auto simp: later_def\<close>)
    ultimately show ?thesis unfolding whole n using v
      by (simp add: more_goes_on parse_key_dump [OF rv(2)] x del: parse_value.simps)
  qed
qed simp

lemma obj_of_distinct: "distinct (map fst ob) \<Longrightarrow> obj_of ob = ob"
proof -
  have new: "k \<notin> fst ` set (acc :: obj) \<Longrightarrow> AList.update k v acc = acc @ [(k, v)]" for k v acc
    by (induction acc) auto
  have "distinct (map fst (acc @ ob)) \<Longrightarrow> fold (\<lambda>(k, v). AList.update k v) ob acc = acc @ ob" for acc
    by (induction ob arbitrary: acc) (auto simp: new)
  from this [of "[]"] show "distinct (map fst ob) \<Longrightarrow> obj_of ob = ob" by (simp add: obj_of_def)
qed

lemma skip_bracket: "\<not> json_space c \<Longrightarrow> skip_space (line_start pretty n @ c # cs) = c # cs"
  using skip_space_to [OF line_start_space] .

lemma readable_reads: "readable v \<Longrightarrow> reads_as pretty flt v"
proof (induction v)
  case (JInt i)
  show ?case unfolding reads_as_def
  proof (intro allI impI)
    fix lv rest n assume e: "ends_number rest" and n: "2 * length (dump pretty lv (JInt i) @ rest) < n"
    obtain m where m: "n = Suc m" using n by (cases n) auto
    obtain c cs where c: "int_str i = c # cs" "is_digit c \<or> c = CHR ''-'' \<and> (\<exists>d ds. cs = d # ds \<and> is_digit d)"
      using int_str_head [of i] by (elim exE conjE) (rule that)
    then have "c \<notin> {quote2, CHR ''['', CHR ''{''}" using digit_not_word [of c] by (auto simp: quote2_def)
    from value_head(4) [OF this, of flt m "cs @ rest"]
    have "parse_value flt n (int_str i @ rest) = parse_word flt (int_str i @ rest)"
      by (simp only: m c(1) append_Cons)
    then show "parse_value flt n (dump pretty lv (JInt i) @ rest) = Inr (JInt i, rest)"
      using parse_word_int [OF e JInt] by simp
  qed
next
  case (JStr s)
  show ?case unfolding reads_as_def
  proof (intro allI impI)
    fix lv rest n assume n: "2 * length (dump pretty lv (JStr s) @ rest) < n"
    then obtain m where "n = Suc m" by (cases n) auto
    then show "parse_value flt n (dump pretty lv (JStr s) @ rest) = Inr (JStr s, rest)"
      by (simp add: dump_str_def value_head parse_dump_str del: parse_value.simps)
  qed
next
  case (JList xs)
  then have all: "\<forall>x \<in> set xs. reads_as pretty flt x \<and> readable x" by simp
  show ?case unfolding reads_as_def
  proof (intro allI impI)
    fix lv rest n assume n: "2 * length (dump pretty lv (JList xs) @ rest) < n"
    then obtain m where m: "n = Suc m" by (cases n) auto
    show "parse_value flt n (dump pretty lv (JList xs) @ rest) = Inr (JList xs, rest)"
    proof (cases "xs = []")
      case True
      then show ?thesis by (simp add: m bracketed_def value_head skip_space_def json_space_def lf_def cr_def del: parse_value.simps)
    next
      case False
      define body where "body = join ('','' @ line_start pretty (Suc lv)) (map (dump pretty (Suc lv)) xs)
        @ line_start pretty lv @ CHR '']'' # rest"
      have d: "dump pretty lv (JList xs) @ rest = CHR ''['' # line_start pretty (Suc lv) @ body"
        using False by (simp add: bracketed_def body_def)
      obtain y ys where xs: "xs = y # ys" using False by (cases xs) auto
      obtain tl where tl: "body = dump pretty (Suc lv) y @ tl" by (cases ys) (simp_all add: body_def xs join_Cons)
      have skip: "skip_space (line_start pretty (Suc lv) @ body) = body"
        unfolding tl by (rule skip_to_value [OF _ line_start_space]) (use all xs in simp)
      obtain c cs where "dump pretty (Suc lv) y = c # cs" "starts_value c" using dump_head all xs by fastforce
      then have "\<not> prefix '']'' body" by (auto simp: tl starts_value_def)
      moreover have "parse_items flt m body = Inr (xs, rest)"
        unfolding body_def by (rule items_read [OF False all]) (use n m d in \<open>simp add: body_def\<close>)
      ultimately show ?thesis unfolding d m by (simp add: value_head skip del: parse_value.simps)
    qed
  qed
next
  case (JObj ob)
  then have all: "\<forall>m \<in> set ob. reads_as pretty flt (snd m) \<and> readable (snd m)"
    by (auto elim: snds.cases)
  show ?case unfolding reads_as_def
  proof (intro allI impI)
    fix lv rest n assume n: "2 * length (dump pretty lv (JObj ob) @ rest) < n"
    then obtain m where m: "n = Suc m" by (cases n) auto
    show "parse_value flt n (dump pretty lv (JObj ob) @ rest) = Inr (JObj ob, rest)"
    proof (cases "ob = []")
      case True
      then show ?thesis by (simp add: m bracketed_def value_head skip_space_def json_space_def lf_def cr_def quote2_def del: parse_value.simps)
    next
      case False
      define body where "body = join ('','' @ line_start pretty (Suc lv)) (map (member pretty (Suc lv)) ob)
        @ line_start pretty lv @ CHR ''}'' # rest"
      have "(\<lambda>(k, v). dump_str k @ colon pretty @ dump pretty (Suc lv) v) = member pretty (Suc lv)"
        by (auto simp: member_def)
      then have d: "dump pretty lv (JObj ob) @ rest = CHR ''{'' # line_start pretty (Suc lv) @ body"
        using False by (simp add: bracketed_def body_def)
      obtain y ys where ob: "ob = y # ys" using False by (cases ob) auto
      obtain tl where tl: "body = quote2 # tl" by (cases ys) (simp_all add: body_def ob join_Cons member_def dump_str_def)
      have skip: "skip_space (line_start pretty (Suc lv) @ body) = body"
        unfolding tl by (rule skip_bracket) (simp add: json_space_def quote2_def lf_def cr_def)
      have "\<not> prefix ''}'' body" by (simp add: tl quote2_def)
      moreover have "parse_members flt m body = Inr (ob, rest)"
        unfolding body_def by (rule members_read [OF False all]) (use n m d in \<open>simp add: body_def\<close>)
      ultimately show ?thesis unfolding d m using JObj.prems
        by (simp add: value_head skip obj_of_distinct del: parse_value.simps)
    qed
  qed
qed (auto simp: reads_as_def parse_word_def quote2_def numeral_eq_Suc less_Suc_eq_0_disj elim!: less_natE)

text \<open>With any white space after it, as in a file that ends with a newline.\<close>

lemma loads_dump:
  assumes "readable v" "list_all json_space ws" "ws = [] \<or> hd ws = lf"
  shows "loads flt (dump pretty 0 v @ ws) = Inr v"
proof -
  have e: "ends_number ws" using assms(3) by (auto simp: ends_number_def)
  have s: "skip_space (dump pretty 0 v @ ws) = dump pretty 0 v @ ws"
    using skip_to_value [OF assms(1), of "[]"] by simp
  have w: "skip_space ws = []" using assms(2) by (auto simp: skip_space_def list_all_iff dropWhile_eq_Nil_conv)
  have "parse_value flt (fuel_for (dump pretty 0 v @ ws)) (dump pretty 0 v @ ws) = Inr (v, ws)"
    by (rule reads_asD [OF readable_reads [OF assms(1)] e]) (simp add: fuel_for_def)
  then show ?thesis by (simp add: loads_def s w del: parse_value.simps)
qed

end
