(* ===== verification/Store.thy ===== *)
theory Store
  imports Atomic Json Schema
begin

text \<open>
  \<^verbatim>\<open>smbpal/config/store.py\<close>: the configuration file. A document is a Python dict, so the keys of each of its objects are
  distinct (\<open>dicts\<close>); \<open>flt\<close> is \<open>float()\<close> as in \<open>Json\<close>.
\<close>

definition CONFIG_MODE :: int where "CONFIG_MODE = 384"
definition CONFIG_DIR_MODE :: int where "CONFIG_DIR_MODE = 488"

definition json_failure :: "string \<Rightarrow> json_error \<Rightarrow> py_error" where
  "json_failure file e =
     (case e of Malformed \<Rightarrow> ConfigInvalid (file @ '' is not valid JSON'') []
      | Too_many_digits \<Rightarrow> ValueError | Beyond_model \<Rightarrow> Beyond_latin1)"

definition read_config :: "(string \<Rightarrow> string) \<Rightarrow> string \<Rightarrow> string os \<Rightarrow> obj res" where
  "read_config flt file raw =
     (case raw of
        Inl e \<Rightarrow> if e = ENOENT then Inr empty_config else Inl (ConfigIOError (''cannot read '' @ file))
      | Inr t \<Rightarrow>
          (case loads flt t of
             Inl e \<Rightarrow> Inl (json_failure file e)
           | Inr doc \<Rightarrow> and_then (validate_or_raise doc file None) (\<lambda>d. Inr (as_obj d))))"

definition load_config :: "(string \<Rightarrow> string) \<Rightarrow> 'x system \<Rightarrow> string \<Rightarrow> 'x host \<Rightarrow> obj res" where
  "load_config flt sys file h = read_config flt file (read_text (faults_of sys) (components file) h)"

definition config_text :: "obj \<Rightarrow> string" where
  "config_text doc = dump True 0 (sort_keys (JObj doc)) @ [lf]"

definition save_config :: "'x system \<Rightarrow> string \<Rightarrow> obj \<Rightarrow> 'x host \<Rightarrow> unit res \<times> 'x host" where
  "save_config sys file doc h =
     then_do (validate_or_raise (JObj doc) ''the new config'' None, h) (\<lambda>_ h.
       raising (\<lambda>_. ConfigIOError (''cannot write '' @ file))
         (write_text (faults_of sys) (components file) (config_text doc) CONFIG_MODE CONFIG_DIR_MODE h))"

subsection \<open>Sorting the keys changes nothing that is looked up\<close>

fun dicts :: "json \<Rightarrow> bool" where
  "dicts (JList xs) = (\<forall>x \<in> set xs. dicts x)"
| "dicts (JObj ob) = (distinct (map fst ob) \<and> (\<forall>m \<in> set ob. dicts (snd m)))"
| "dicts v = True"

definition sorted_obj :: "obj \<Rightarrow> obj" where
  "sorted_obj ob = sort_key fst (map (\<lambda>(k, v). (k, sort_keys v)) ob)"

lemma sort_keys_JObj: "sort_keys (JObj ob) = JObj (sorted_obj ob)"
  by (simp add: sorted_obj_def)

lemma distinct_fst_sort: "distinct (map fst (sort_key fst xs)) \<longleftrightarrow> distinct (map fst xs)"
  by (simp add: distinct_map)

lemma map_of_sorted:
  assumes "distinct (map fst ob)"
  shows "map_of (sorted_obj ob) k = map_option sort_keys (map_of ob k)"
proof -
  let ?m = "map (\<lambda>(k, v). (k, sort_keys v)) ob"
  have f: "map fst ?m = map fst ob" by auto
  have d: "distinct (map fst ?m)" unfolding f by (rule assms)
  then have s: "distinct (map fst (sort_key fst ?m))" unfolding distinct_fst_sort .
  have "map_of (sort_key fst ?m) k = Some v \<longleftrightarrow> map_of ?m k = Some v" for v
    unfolding map_of_eq_Some_iff [OF s] map_of_eq_Some_iff [OF d] by simp
  then have "map_of (sort_key fst ?m) k = map_of ?m k" by (metis option.exhaust)
  then show ?thesis by (simp add: sorted_obj_def map_of_map)
qed

lemma get_sorted: "distinct (map fst ob) \<Longrightarrow> get (sorted_obj ob) k = sort_keys (get ob k)"
  by (simp add: get_def map_of_sorted split: option.splits)

lemma keys_sorted: "set (keys (sorted_obj ob)) = set (keys ob)"
  by (force simp: sorted_obj_def)

lemma sort_keys_shape [simp]:
  "sort_keys v = JNull \<longleftrightarrow> v = JNull" "sort_keys v = JStr s \<longleftrightarrow> v = JStr s" "sort_keys v = JInt i \<longleftrightarrow> v = JInt i"
  "sort_keys v = JBool b \<longleftrightarrow> v = JBool b"
  by (cases v; simp)+

lemma opt_str_sorted: "opt_str P (sort_keys v) = opt_str P v" "opt_bool (sort_keys v) = opt_bool v"
  "str_of (sort_keys v) = str_of v"
  by (cases v; simp add: opt_str_def opt_bool_def str_of_def)+

lemma items_sorted: "distinct (map fst ob) \<Longrightarrow> items (sorted_obj ob) key = map sort_keys (items ob key)"
  by (auto simp: items_def map_of_sorted split: option.splits json.splits)

lemma fields_ok_sorted: "fields_ok (sorted_obj ob) allowed required = fields_ok ob allowed required"
  unfolding fields_ok_def keys_sorted ..

lemma share_ok_sorted: "distinct (map fst r) \<Longrightarrow> share_ok (sorted_obj r) = share_ok r"
  by (simp add: share_ok_def fields_ok_sorted get_sorted opt_str_sorted)

lemma connection_ok_sorted: "distinct (map fst r) \<Longrightarrow> connection_ok (sorted_obj r) = connection_ok r"
  by (simp add: connection_ok_def fields_ok_sorted get_sorted opt_str_sorted)

lemma fields_of_sorted:
  "\<forall>v \<in> set vs. dicts v \<Longrightarrow> fields_of k (map sort_keys vs) = fields_of k vs"
proof (induction vs)
  case (Cons v vs)
  then show ?case
    by (cases v) (simp_all add: fields_of_def sort_keys_JObj get_sorted opt_str_sorted del: sort_keys.simps(2))
qed simp

lemma list_ok_sorted:
  assumes "dicts (JObj ob)" and P: "\<And>r. distinct (map fst r) \<Longrightarrow> P (sorted_obj r) = P r"
  shows "list_ok (sorted_obj ob) key P = list_ok ob key P"
proof (cases "map_of ob key")
  case None
  with assms(1) show ?thesis by (simp add: list_ok_def map_of_sorted)
next
  case (Some v)
  then have "dicts v" using assms(1) by (auto dest!: map_of_SomeD)
  with Some assms(1) show ?thesis
  proof (cases v)
    case (JList vs)
    have "obj_sat P (sort_keys u) = obj_sat P u" if "u \<in> set vs" for u
    proof (cases u)
      case (JObj r)
      then have "distinct (map fst r)" using that \<open>dicts v\<close> JList by auto
      with JObj P show ?thesis by (simp add: sort_keys_JObj del: sort_keys.simps(2))
    qed simp_all
    with Some JList assms(1) show ?thesis by (simp add: list_ok_def map_of_sorted list_all_iff)
  qed (simp_all add: list_ok_def map_of_sorted)
qed

lemma dicts_items: "dicts (JObj ob) \<Longrightarrow> \<forall>v \<in> set (items ob key). dicts v"
  by (auto simp: items_def split: option.splits json.splits dest!: map_of_SomeD)

lemma valid_sorted: "dicts (JObj ob) \<Longrightarrow> valid_config (JObj (sorted_obj ob)) = valid_config (JObj ob)"
proof -
  assume d: "dicts (JObj ob)"
  then have k: "distinct (map fst ob)" by simp
  have "ids_of (sorted_obj ob) = ids_of ob" "names_of (sorted_obj ob) = names_of ob"
    using dicts_items [OF d] by (simp_all add: ids_of_def names_of_def items_sorted [OF k] fields_of_sorted)
  moreover have "list_ok (sorted_obj ob) ''shares'' share_ok = list_ok ob ''shares'' share_ok"
    "list_ok (sorted_obj ob) ''connections'' connection_ok = list_ok ob ''connections'' connection_ok"
    by (rule list_ok_sorted [OF d]; rule share_ok_sorted connection_ok_sorted; assumption)+
  ultimately show ?thesis
    unfolding valid_config_def json.case keys_sorted using k by (simp add: get_sorted del: set_keys)
qed

subsection \<open>A valid document can be written and read\<close>

lemma known_value:
  assumes "fields_ok r allowed required" "(k, v) \<in> set r" "distinct (map fst r)" "\<forall>k \<in> set allowed. readable (get r k)"
  shows "readable v"
proof -
  have "k \<in> set allowed" using assms(1,2) by (force simp: fields_ok_def)
  moreover have "get r k = v" using assms(2,3) by (simp add: get_def)
  ultimately show ?thesis using assms(4) by blast
qed

lemma opt_readable: "opt_str P v \<Longrightarrow> readable v" "opt_bool v \<Longrightarrow> readable v"
  by (cases v; simp add: opt_str_def opt_bool_def)+

lemma share_readable: "share_ok r \<Longrightarrow> distinct (map fst r) \<Longrightarrow> readable (JObj r)"
proof -
  assume s: "share_ok r" and d: "distinct (map fst r)"
  have "\<forall>k \<in> set share_keys. readable (get r k)"
    using s by (auto simp: share_ok_def share_keys_def intro: opt_readable)
  then have "\<forall>m \<in> set r. readable (snd m)" using known_value [OF _ _ d] s by (fastforce simp: share_ok_def)
  with d show ?thesis by simp
qed

lemma connection_readable: "connection_ok r \<Longrightarrow> distinct (map fst r) \<Longrightarrow> readable (JObj r)"
proof -
  assume s: "connection_ok r" and d: "distinct (map fst r)"
  have "\<forall>k \<in> set connection_keys. readable (get r k)"
    using s by (auto simp: connection_ok_def connection_keys_def intro: opt_readable)
  then have "\<forall>m \<in> set r. readable (snd m)" using known_value [OF _ _ d] s by (fastforce simp: connection_ok_def)
  with d show ?thesis by simp
qed

lemma list_readable:
  assumes "list_ok ob key P" "map_of ob key = Some v" "dicts v"
    "\<And>r. P r \<Longrightarrow> distinct (map fst r) \<Longrightarrow> readable (JObj r)"
  shows "readable v"
proof -
  from assms(1,2) obtain vs where vs: "v = JList vs" "\<forall>u \<in> set vs. obj_sat P u"
    by (cases v) (simp_all add: list_ok_def list_all_iff)
  have "readable u" if "u \<in> set vs" for u
  proof -
    have "obj_sat P u" using vs(2) that ..
    then obtain r where r: "u = JObj r" "P r" unfolding obj_sat_iff by blast
    moreover have "distinct (map fst r)" using assms(3) vs that r by auto
    ultimately show ?thesis using assms(4) by blast
  qed
  with vs show ?thesis by simp
qed

lemma valid_readable: "valid_config (JObj ob) \<Longrightarrow> dicts (JObj ob) \<Longrightarrow> readable (JObj ob)"
proof -
  assume v: "valid_config (JObj ob)" and d: "dicts (JObj ob)"
  have "readable x" if "(k, x) \<in> set ob" for k x
  proof -
    have x: "map_of ob k = Some x" "dicts x" using that d by auto
    have "k \<in> {''version'', ''shares'', ''connections''}" using that v by (force simp: valid_config_def top_keys_def)
    then consider "k = ''version''" | "k = ''shares''" | "k = ''connections''" by blast
    then show ?thesis
    proof cases
      case 1
      then have "x = JInt 1" using v x by (simp add: valid_config_def get_def)
      moreover have "nat_str 1 = ''1''" by code_simp
      ultimately show ?thesis by (simp add: DIGIT_LIMIT_def)
    next
      case 2
      then show ?thesis using list_readable [of ob k share_ok x] v x share_readable by (simp add: valid_config_def)
    next
      case 3
      then show ?thesis using list_readable [of ob k connection_ok x] v x connection_readable
        by (simp add: valid_config_def)
    qed
  qed
  with d show ?thesis by auto
qed

lemma dicts_sorted: "dicts v \<Longrightarrow> dicts (sort_keys v)"
proof (induction v)
  case (JObj ob)
  have f: "map fst (map (\<lambda>(k, v). (k, sort_keys v)) ob) = map fst ob" by auto
  have "distinct (map fst (sorted_obj ob))"
    unfolding sorted_obj_def distinct_fst_sort f using JObj.prems by simp
  moreover have "\<forall>m \<in> set (sorted_obj ob). dicts (snd m)"
    using JObj by (fastforce simp: sorted_obj_def)
  ultimately show ?case unfolding sort_keys_JObj by simp
qed simp_all

lemma config_text_reads:
  assumes "valid_config (JObj doc)" "dicts (JObj doc)"
  shows "loads flt (config_text doc) = Inr (JObj (sorted_obj doc))" "valid_config (JObj (sorted_obj doc))"
proof -
  show v: "valid_config (JObj (sorted_obj doc))" using assms valid_sorted by blast
  have "dicts (JObj (sorted_obj doc))" using dicts_sorted [OF assms(2)] by (simp only: sort_keys_JObj)
  from valid_readable [OF v this] have "readable (JObj (sorted_obj doc))" .
  from loads_dump [OF this, of "[lf]"] show "loads flt (config_text doc) = Inr (JObj (sorted_obj doc))"
    by (simp add: config_text_def sort_keys_JObj json_space_def del: sort_keys.simps)
qed

subsection \<open>The file on disk\<close>

text \<open>The characters of a written document; the indented form has newlines besides.\<close>

definition plain :: "bool \<Rightarrow> char \<Rightarrow> bool" where
  "plain pretty c = (32 \<le> code c \<and> code c \<le> 126 \<or> pretty \<and> c = lf)"

lemma hex_digit_printable: "n < 16 \<Longrightarrow> plain pretty (hex_digit n)"
  by (auto simp: plain_def hex_digit_def)

lemma escape_printable: "list_all (plain pretty) (escape_code c)"
proof -
  have "plain pretty (hex_digit (code c div 16))" "plain pretty (hex_digit (code c mod 16))"
    using code_less [of c] by (simp_all add: hex_digit_printable less_mult_imp_div_less)
  moreover have "list_all (plain pretty) [backslash, quote2, CHR ''n'', CHR ''r'', CHR ''t'', CHR ''f'', CHR ''b'', CHR ''u'', CHR ''0'']"
    by code_simp
  moreover have "32 \<le> code c \<Longrightarrow> code c \<le> 126 \<Longrightarrow> plain pretty c" by (simp add: plain_def)
  ultimately show ?thesis by (simp add: escape_code_def hex2_def)
qed

lemma dump_str_printable: "list_all (plain pretty) (dump_str s)"
proof -
  have "plain pretty quote2" by code_simp
  moreover have "list_all (plain pretty) (concat (map escape_code s))"
    by (induction s) (simp_all add: escape_printable)
  ultimately show ?thesis by (simp add: dump_str_def)
qed

lemma int_str_printable: "list_all (plain pretty) (int_str i)"
proof -
  have "plain pretty (CHR ''-'')" by code_simp
  moreover have "list_all (plain pretty) (nat_str n)" for n
    using nat_str_digits [of n] by (auto simp: list_all_iff plain_def is_digit_def)
  ultimately show ?thesis by (simp add: int_str_def)
qed

lemma join_printable: "list_all (plain pretty) sep \<Longrightarrow> \<forall>w \<in> set ws. list_all (plain pretty) w \<Longrightarrow> list_all (plain pretty) (join sep ws)"
proof (induction ws)
  case (Cons w ws)
  then show ?case by (cases "ws = []") (simp_all add: join_Cons)
qed simp

lemma bracketed_printable:
  assumes "list_all (plain pretty) l" "list_all (plain pretty) r" "\<forall>w \<in> set parts. list_all (plain pretty) w"
  shows "list_all (plain pretty) (bracketed pretty n l r parts)"
proof -
  have "list_all (plain pretty) '',''" "plain pretty (CHR '' '')" "plain True lf" by code_simp+
  then have "list_all (plain pretty) (line_start pretty k)" for k by (auto simp: line_start_def list_all_iff)
  with assms \<open>list_all (plain pretty) '',''\<close> show ?thesis by (simp add: bracketed_def join_printable)
qed

lemma dump_printable: "readable v \<Longrightarrow> list_all (plain pretty) (dump pretty n v)"
proof (induction v arbitrary: n)
  case JNull show ?case by code_simp
next
  case (JBool b)
  have "list_all (plain pretty) ''true''" "list_all (plain pretty) ''false''" by code_simp+
  then show ?case by simp
next
  case (JList xs)
  have "list_all (plain pretty) ''[''" "list_all (plain pretty) '']''" by code_simp+
  with JList show ?case by (auto intro!: bracketed_printable)
next
  case (JObj ob)
  have "list_all (plain pretty) ''{''" "list_all (plain pretty) ''}''" "list_all (plain pretty) '': ''" "list_all (plain pretty) '':''" by code_simp+
  then have "list_all (plain pretty) ''{''" "list_all (plain pretty) ''}''" "list_all (plain pretty) (colon pretty)"
    by (cases pretty; simp add: colon_def)+
  with JObj show ?case by (fastforce intro!: bracketed_printable simp: dump_str_printable)
qed (simp_all add: int_str_printable dump_str_printable)

lemma config_text_universal:
  "valid_config (JObj doc) \<Longrightarrow> dicts (JObj doc) \<Longrightarrow> universal (config_text doc) = config_text doc"
proof (rule universal_id)
  assume v: "valid_config (JObj doc)" "dicts (JObj doc)"
  have "readable (JObj (sorted_obj doc))"
    using valid_readable [OF config_text_reads(2) [OF v]] dicts_sorted [OF v(2)] by (simp only: sort_keys_JObj)
  from dump_printable [OF this] have "list_all (plain True) (config_text doc)"
    by (simp add: config_text_def sort_keys_JObj plain_def del: sort_keys.simps)
  moreover have "\<not> plain True cr" by code_simp
  ultimately show "cr \<notin> set (config_text doc)" by (auto simp: list_all_iff)
qed

lemma load_of_written:
  assumes "look h (components file) = Some (Regular (config_text doc) m)"
    "valid_config (JObj doc)" "dicts (JObj doc)" "faults_of sys (Read (components file)) h = None"
  shows "load_config flt sys file h = Inr (sorted_obj doc)"
  using assms config_text_reads [OF assms(2,3)]
  by (simp add: load_config_def read_config_def read_text_def config_text_universal validate_or_raise_Inr
      validate_or_raise_def validate_accepts_iff [THEN iffD2])

lemma save_done:
  assumes "save_config sys file doc h = (Inr u, h')" "components file \<noteq> []"
  shows "valid_config (JObj doc)" "look h' (components file) = Some (Regular (config_text doc) CONFIG_MODE)"
    "same_but (components file) h h'"
proof -
  from assms(1) obtain d where v: "validate_or_raise (JObj doc) ''the new config'' None = Inr d"
    by (cases "validate_or_raise (JObj doc) ''the new config'' None") (auto simp: save_config_def)
  then show "valid_config (JObj doc)" by (simp add: validate_or_raise_Inr)
  have w: "write_text (faults_of sys) (components file) (config_text doc) CONFIG_MODE CONFIG_DIR_MODE h = (Inr u, h')"
    using assms(1) v by (simp add: save_config_def)
  show "look h' (components file) = Some (Regular (config_text doc) CONFIG_MODE)" "same_but (components file) h h'"
    using write_text_done [OF w assms(2)] by auto
qed

lemma save_failed:
  assumes "save_config sys file doc h = (Inl e, h')" "components file \<noteq> []"
  shows "look h' (components file) = look h (components file)"
proof (cases "validate_or_raise (JObj doc) ''the new config'' None")
  case (Inr d)
  with assms(1) have "\<exists>e'. write_text (faults_of sys) (components file) (config_text doc) CONFIG_MODE CONFIG_DIR_MODE h
      = (Inl e', h')"
    by (cases "write_text (faults_of sys) (components file) (config_text doc) CONFIG_MODE CONFIG_DIR_MODE h";
        cases "fst (write_text (faults_of sys) (components file) (config_text doc) CONFIG_MODE CONFIG_DIR_MODE h)")
      (auto simp: save_config_def raising_def)
  then show ?thesis using write_text_failed assms(2) by blast
qed (use assms(1) in \<open>simp add: save_config_def\<close>)

lemma load_same_file:
  assumes "look h' (components file) = look h (components file)" "\<And>x. faults_of sys (Read (components file)) x = None"
  shows "load_config flt sys file h' = load_config flt sys file h"
  using assms by (simp add: load_config_def read_text_def)

text \<open>C25: The configuration file is what was last saved: after a save that returns, a load gives the document back, with
  only the order of its keys changed, so every field reads the same and the document is still valid; the file has mode 0600.
  A save that fails, because the document is invalid or a system call fails, leaves what a load gives as it was, and an invalid document
  is refused before anything on the machine changes.\<close>

theorem saved_config_loads_back:
  assumes "save_config sys file doc h = (r, h')" and "components file \<noteq> []" and "dicts (JObj doc)"
    and "\<And>x. faults_of sys (Read (components file)) x = None"
  shows "(\<forall>u. r = Inr u \<longrightarrow> load_config flt sys file h' = Inr (sorted_obj doc) \<and> valid_config (JObj (sorted_obj doc))
      \<and> (\<forall>k. get (sorted_obj doc) k = sort_keys (get doc k))
      \<and> (\<exists>txt. look h' (components file) = Some (Regular txt 384)))
    \<and> (\<forall>e. r = Inl e \<longrightarrow> load_config flt sys file h' = load_config flt sys file h)
    \<and> (\<not> valid_config (JObj doc) \<longrightarrow> h' = h \<and> (\<exists>e. r = Inl e))"
proof (intro conjI allI impI)
  fix u assume "r = Inr u"
  note s = save_done [OF assms(1) [unfolded this] assms(2)]
  show "load_config flt sys file h' = Inr (sorted_obj doc)" by (rule load_of_written [OF s(2,1) assms(3,4)])
  show "valid_config (JObj (sorted_obj doc))" using config_text_reads [OF s(1) assms(3)] by blast
  show "get (sorted_obj doc) k = sort_keys (get doc k)" for k using assms(3) by (simp add: get_sorted)
  show "\<exists>txt. look h' (components file) = Some (Regular txt 384)" using s(2) by (simp add: CONFIG_MODE_def)
next
  fix e assume "r = Inl e"
  from save_failed [OF assms(1) [unfolded this] assms(2)]
  show "load_config flt sys file h' = load_config flt sys file h" using assms(4) by (rule load_same_file)
next
  assume "\<not> valid_config (JObj doc)"
  then obtain e where "validate_or_raise (JObj doc) ''the new config'' None = Inl e"
    using validate_or_raise_Inr by (metis sum.exhaust)
  with assms(1) show "h' = h" "\<exists>e. r = Inl e" by (auto simp: save_config_def)
qed

definition etc_system :: "unit system" where
  "etc_system = \<lparr>faults_of = (\<lambda>_ _. None), exec_of = (\<lambda>_ h. (Inl (CommandFailed ''none''), h)),
     accounts_of = \<lparr>by_name = (\<lambda>_. None), by_uid = (\<lambda>_. None), all_groups = []\<rparr>\<rparr>"

definition etc_host :: "unit host" where
  "etc_host = \<lparr>files = [([''etc''], Directory 0 0 493)], mountinfo = None, ext = ()\<rparr>"

definition one_share :: obj where
  "one_share = [(''version'', JInt 1), (''shares'', JList [JObj [(''type'', JStr ''os''), (''id'', JStr ''media''),
     (''name'', JStr ''Media''), (''path'', JStr ''/srv/media'')]])]"

theorem saved_config_loads_back_witness:
  "\<exists>h'. save_config etc_system ''/etc/config.json'' one_share etc_host = (Inr (), h')
     \<and> load_config id etc_system ''/etc/config.json'' h' = Inr (sorted_obj one_share)
     \<and> map fst one_share = [''version'', ''shares''] \<and> map fst (sorted_obj one_share) = [''shares'', ''version'']"
proof -
  have r: "fst (save_config etc_system ''/etc/config.json'' one_share etc_host) = Inr ()"
    "components ''/etc/config.json'' \<noteq> []" "dicts (JObj one_share)"
    "map fst one_share = [''version'', ''shares'']" "map fst (sorted_obj one_share) = [''shares'', ''version'']"
    by code_simp+
  obtain h' where s: "save_config etc_system ''/etc/config.json'' one_share etc_host = (Inr (), h')"
    using r(1) by (cases "save_config etc_system ''/etc/config.json'' one_share etc_host") auto
  have "faults_of etc_system (Read (components ''/etc/config.json'')) x = None" for x by (simp add: etc_system_def)
  note p = conjunct1 [OF saved_config_loads_back [OF s r(2,3) this, of id]]
  from conjunct1 [OF p [THEN spec, THEN mp, OF refl]] s r(4,5) show ?thesis by (intro exI conjI)
qed

end
