(* ===== verification/Protocol.thy ===== *)
theory Protocol
  imports Store
begin

text \<open>
  \<^verbatim>\<open>smbpal/ipc/protocol.py\<close>, and the framing of \<^verbatim>\<open>smbpal/ipc/server.py\<close>: what arrives on a socket cut into lines, a line
  read as a request, a reply written as a line. A byte string is a \<^typ>\<open>string\<close> whose characters are the bytes.
\<close>

definition PROTOCOL_VERSION :: int where "PROTOCOL_VERSION = 1"
definition MAX_FRAME_BYTES :: int where "MAX_FRAME_BYTES = 1024 * 1024"
definition AUTH_FORM_BYTES :: int where "AUTH_FORM_BYTES = 32"
definition READ_CHUNK :: int where "READ_CHUNK = 65536"

subsection \<open>UTF-8\<close>

datatype utf8_error = Not_utf8 | Above_latin1

definition in_bytes :: "nat \<Rightarrow> nat \<Rightarrow> char \<Rightarrow> bool" where
  "in_bytes lo hi c = (lo \<le> code c \<and> code c \<le> hi)"

definition above :: "utf8_error + string \<Rightarrow> utf8_error + string" where
  "above r = (case r of Inl Not_utf8 \<Rightarrow> Inl Not_utf8 | _ \<Rightarrow> Inl Above_latin1)"

definition then_char :: "char \<Rightarrow> utf8_error + string \<Rightarrow> utf8_error + string" where
  "then_char c r = (case r of Inl e \<Rightarrow> Inl e | Inr s \<Rightarrow> Inr (c # s))"

text \<open>The second byte of the longer forms, as the standard restricts it.\<close>

definition second_of_three :: "char \<Rightarrow> char \<Rightarrow> bool" where
  "second_of_three b c = in_bytes (if code b = 224 then 160 else 128) (if code b = 237 then 159 else 191) c"

definition second_of_four :: "char \<Rightarrow> char \<Rightarrow> bool" where
  "second_of_four b c = in_bytes (if code b = 240 then 144 else 128) (if code b = 244 then 143 else 191) c"

fun decode_utf8 :: "string \<Rightarrow> utf8_error + string" where
  "decode_utf8 [] = Inr []"
| "decode_utf8 (b # bs) =
     (if code b < 128 then then_char b (decode_utf8 bs)
      else if in_bytes 194 223 b then
        (case bs of
           c # cs \<Rightarrow>
             if in_bytes 128 191 c
             then (if code b < 196 then then_char (char_of ((code b - 192) * 64 + (code c - 128))) (decode_utf8 cs)
                   else above (decode_utf8 cs))
             else Inl Not_utf8
         | [] \<Rightarrow> Inl Not_utf8)
      else if in_bytes 224 239 b then
        (case bs of
           c # d # ds \<Rightarrow> if second_of_three b c \<and> in_bytes 128 191 d then above (decode_utf8 ds) else Inl Not_utf8
         | _ \<Rightarrow> Inl Not_utf8)
      else if in_bytes 240 244 b then
        (case bs of
           c # d # e # es \<Rightarrow>
             if second_of_four b c \<and> in_bytes 128 191 d \<and> in_bytes 128 191 e then above (decode_utf8 es) else Inl Not_utf8
         | _ \<Rightarrow> Inl Not_utf8)
      else Inl Not_utf8)"

subsection \<open>Requests\<close>

record request =
  rq_id :: string
  rq_method :: string
  rq_params :: obj
  rq_auth :: "string option"

text \<open>\<open>bytes.fromhex\<close>: pairs of hexadecimal digits, with ASCII white space allowed between pairs.\<close>

definition ascii_space :: "char \<Rightarrow> bool" where
  "ascii_space c = (c \<in> {CHR '' '', CHR 0x09, lf, cr, CHR 0x0B, CHR 0x0C})"

fun from_hex :: "string \<Rightarrow> string option" where
  "from_hex [] = Some []"
| "from_hex (c # cs) =
     (if ascii_space c then from_hex cs
      else case cs of
        [] \<Rightarrow> None
      | d # ds \<Rightarrow>
          (case (hex_of c, hex_of d) of
             (Some x, Some y) \<Rightarrow> map_option ((#) (char_of (16 * x + y))) (from_hex ds)
           | _ \<Rightarrow> None))"

text \<open>\<open>version != 1\<close>: in Python \<open>True\<close> and \<open>1.0\<close> equal 1.\<close>

definition is_one :: "json \<Rightarrow> bool" where
  "is_one v = (v = JInt 1 \<or> v = JBool True \<or> v = JFloat ''1.0'')"

definition non_empty_str :: "json \<Rightarrow> string option" where
  "non_empty_str v = (case v of JStr s \<Rightarrow> if s = [] then None else Some s | _ \<Rightarrow> None)"

definition parse_auth :: "json \<Rightarrow> string option res" where
  "parse_auth v =
     (case v of
        JNull \<Rightarrow> Inr None
      | JStr s \<Rightarrow>
          (case from_hex s of
             None \<Rightarrow> Inl (BadRequest (quote1 # ''auth'' @ quote1 # '' is not valid hex''))
           | Some form \<Rightarrow>
               if int (length form) \<noteq> AUTH_FORM_BYTES
               then Inl (BadRequest (quote1 # ''auth'' @ quote1 # '' must be '' @ int_str AUTH_FORM_BYTES
                      @ '' bytes as hex, got '' @ nat_str (length form)))
               else Inr (Some form))
      | _ \<Rightarrow> Inl (BadRequest (quote1 # ''auth'' @ quote1 # '' must be a hex string when present'')))"

definition parse_params :: "obj \<Rightarrow> obj res" where
  "parse_params doc =
     (case map_of doc ''params'' of
        None \<Rightarrow> Inr []
      | Some JNull \<Rightarrow> Inr []
      | Some (JObj ps) \<Rightarrow> Inr ps
      | Some _ \<Rightarrow> Inl (BadRequest (quote1 # ''params'' @ quote1 # '' must be an object when present'')))"

definition request_of :: "obj \<Rightarrow> request res" where
  "request_of doc =
     (if \<not> is_one (get doc ''v'')
      then Inl (UnsupportedVersion (''this daemon speaks protocol version '' @ int_str PROTOCOL_VERSION
             @ '', the request declared '' @ repr (get doc ''v'')))
      else case non_empty_str (get doc ''id'') of
        None \<Rightarrow> Inl (BadRequest (''request needs a non-empty string '' @ quote1 # ''id'' @ [quote1]))
      | Some i \<Rightarrow>
          (case non_empty_str (get doc ''method'') of
             None \<Rightarrow> Inl (BadRequest (''request needs a non-empty string '' @ quote1 # ''method'' @ [quote1]))
           | Some m \<Rightarrow>
               and_then (parse_params doc) (\<lambda>ps.
               and_then (parse_auth (get doc ''auth'')) (\<lambda>form.
                 Inr \<lparr>rq_id = i, rq_method = m, rq_params = ps, rq_auth = form\<rparr>))))"

definition parse_request :: "(string \<Rightarrow> string) \<Rightarrow> string \<Rightarrow> request res" where
  "parse_request flt line =
     (if int (length line) > MAX_FRAME_BYTES
      then Inl (BadRequest (''request is larger than the '' @ int_str MAX_FRAME_BYTES @ '' byte limit''))
      else case decode_utf8 line of
        Inl Not_utf8 \<Rightarrow> Inl (BadRequest ''request is not valid UTF-8'')
      | Inl Above_latin1 \<Rightarrow> Inl Beyond_latin1
      | Inr t \<Rightarrow>
          (case loads flt t of
             Inl Malformed \<Rightarrow> Inl (BadRequest ''request is not valid JSON'')
           | Inl Too_many_digits \<Rightarrow> Inl ValueError
           | Inl Beyond_model \<Rightarrow> Inl Beyond_latin1
           | Inr (JObj doc) \<Rightarrow> request_of doc
           | Inr _ \<Rightarrow> Inl (BadRequest ''request must be a JSON object'')))"

subsection \<open>Replies\<close>

definition error_message :: "py_error \<Rightarrow> string" where
  "error_message e = (case e of
      BadRequest m \<Rightarrow> m | UnsupportedVersion m \<Rightarrow> m | UnknownMethod m \<Rightarrow> m | InvalidParams m \<Rightarrow> m
    | ConfigInvalid m _ \<Rightarrow> m | ConfigIOError m \<Rightarrow> m | NotPermitted m \<Rightarrow> m | NeedsAuthorisation m _ \<Rightarrow> m
    | NotSupported m \<Rightarrow> m | NotFound m \<Rightarrow> m | AlreadyExists m \<Rightarrow> m | Unavailable m \<Rightarrow> m | DaemonUnreachable m \<Rightarrow> m
    | MountError m \<Rightarrow> m | SystemdError m \<Rightarrow> m | CredentialsError m \<Rightarrow> m | ApplyError m \<Rightarrow> m
    | GenerationRefused m \<Rightarrow> m | SmbConfError m \<Rightarrow> m | ReloadFailed m \<Rightarrow> m | ShareNotServed m \<Rightarrow> m
    | CommandFailed m \<Rightarrow> m | OwnershipError m \<Rightarrow> m | CredentialError m \<Rightarrow> m | AdvertiseError m \<Rightarrow> m | SmbpalError m \<Rightarrow> m
    | AgentUnreachable m \<Rightarrow> m | Reported _ m \<Rightarrow> m
    | _ \<Rightarrow> ''the daemon hit an internal error; see its journal'')"

text \<open>\<open>to_wire\<close>; the \<open>detail\<close> prose is an argument. An exception that is not SMBPal's is reported as an internal error, the
  way the dispatcher wraps it.\<close>

definition wire_code :: "py_error \<Rightarrow> string" where
  "wire_code e = (case error_code e of Some c \<Rightarrow> c | None \<Rightarrow> ''internal'')"

definition error_wire :: "string option \<Rightarrow> py_error \<Rightarrow> obj" where
  "error_wire detail e =
     [(''code'', JStr (wire_code e)), (''message'', JStr (error_message e))]
     @ (case detail of None \<Rightarrow> [] | Some d \<Rightarrow> [(''detail'', JStr d)])
     @ (case e of NeedsAuthorisation _ right \<Rightarrow> [(''right'', JStr right)] | _ \<Rightarrow> [])"

definition encode :: "obj \<Rightarrow> string" where
  "encode message = dump False 0 (JObj message) @ [lf]"

definition success_message :: "string \<Rightarrow> json \<Rightarrow> obj" where
  "success_message i result =
     [(''v'', JInt PROTOCOL_VERSION), (''id'', JStr i), (''ok'', JBool True), (''result'', result)]"

definition failure_message :: "string option \<Rightarrow> obj \<Rightarrow> obj" where
  "failure_message i error =
     [(''v'', JInt PROTOCOL_VERSION), (''id'', opt_json i), (''ok'', JBool False), (''error'', JObj error)]"

definition event_message :: "string \<Rightarrow> json \<Rightarrow> obj" where
  "event_message event data =
     [(''v'', JInt PROTOCOL_VERSION), (''event'', JStr event), (''data'', if data = JNull then JObj [] else data)]"

definition encode_success :: "string \<Rightarrow> json \<Rightarrow> string" where
  "encode_success i result = encode (success_message i result)"

definition encode_failure :: "string option \<Rightarrow> string option \<Rightarrow> py_error \<Rightarrow> string" where
  "encode_failure i detail e = encode (failure_message i (error_wire detail e))"

definition encode_event :: "string \<Rightarrow> json \<Rightarrow> string" where
  "encode_event event data = encode (event_message event data)"

subsection \<open>Framing\<close>

definition blank :: "string \<Rightarrow> bool" where
  "blank line = list_all ascii_space line"

text \<open>The inner loop of \<open>read_frames\<close>: the lines complete in the buffer, and what is left of it.\<close>

fun cut_lines :: "string \<Rightarrow> string list \<times> string" where
  "cut_lines [] = ([], [])"
| "cut_lines (c # cs) =
     (case cut_lines cs of
        (lines, rest) \<Rightarrow>
          if c = lf then ([] # lines, rest)
          else (case lines of [] \<Rightarrow> ([], c # rest) | l # ls \<Rightarrow> ((c # l) # ls, rest)))"

text \<open>The chunks \<open>recv\<close> returns, in order; an empty one is the end of the stream, and so is an error.\<close>

fun read_frames :: "string \<Rightarrow> string list \<Rightarrow> string list" where
  "read_frames buffer [] = []"
| "read_frames buffer (chunk # chunks) =
     (if chunk = [] then []
      else if int (length (buffer @ chunk)) > MAX_FRAME_BYTES then []
      else (case cut_lines (buffer @ chunk) of
              (lines, rest) \<Rightarrow> filter (\<lambda>l. \<not> blank l) lines @ read_frames rest chunks))"

subsection \<open>Frames do not depend on how the bytes arrive\<close>

definition lines_in :: "string \<Rightarrow> string list" where
  "lines_in s = butlast (split_char lf s)"

definition frames_in :: "string \<Rightarrow> string list" where
  "frames_in s = filter (\<lambda>l. \<not> blank l) (lines_in s)"

lemma split_char_cons_lf: "split_char d (d # s) = [] # split_char d s"
  by simp

lemma split_char_cons: "c \<noteq> d \<Longrightarrow> split_char d (c # s) = (c # hd (split_char d s)) # tl (split_char d s)"
  using split_char_ne [of d s] by (cases "split_char d s") auto

lemma cut_lines_split: "cut_lines s = (lines_in s, last (split_char lf s))"
proof (induction s)
  case (Cons c cs)
  obtain l ls where s: "split_char lf cs = l # ls" using split_char_ne [of lf cs] by (cases "split_char lf cs") auto
  from Cons.IH show ?case unfolding lines_in_def cut_lines.simps split_char.simps s
    by (cases "c = lf"; cases ls) simp_all
qed (simp add: lines_in_def)

lemma split_char_ends: "split_char lf (s @ t) = lines_in s @ split_char lf (last (split_char lf s) @ t)"
proof (induction s)
  case (Cons c cs)
  obtain l ls where s: "split_char lf cs = l # ls" using split_char_ne [of lf cs] by (cases "split_char lf cs") auto
  from Cons.IH show ?case unfolding lines_in_def append_Cons split_char.simps s
    by (cases "c = lf"; cases ls) simp_all
qed (simp add: lines_in_def)

lemma lines_in_append: "lines_in (s @ t) = lines_in s @ lines_in (last (split_char lf s) @ t)"
proof -
  have "butlast (split_char lf (s @ t)) = butlast (lines_in s @ split_char lf (last (split_char lf s) @ t))"
    by (subst split_char_ends) (rule refl)
  also have "\<dots> = lines_in s @ butlast (split_char lf (last (split_char lf s) @ t))"
    by (simp only: butlast_append split_char_ne if_False)
  finally show ?thesis by (simp only: lines_in_def)
qed

lemma split_of_rest: "split_char lf (last (split_char lf s)) = [last (split_char lf s)]"
proof -
  have "lf \<notin> set (last (split_char lf s))"
    using split_char_words [of "last (split_char lf s)" lf s] split_char_ne [of lf s] by simp
  then show ?thesis by (rule split_char_none)
qed

text \<open>The frames of the whole stream, in whatever chunks it comes, unless a line is longer than the limit allows.\<close>

lemma read_frames_all:
  assumes "\<forall>c \<in> set chunks. c \<noteq> [] \<and> int (length c) \<le> READ_CHUNK" "split_char lf buffer = [buffer]"
    "\<forall>l \<in> set (split_char lf (buffer @ concat chunks)). int (length l) \<le> MAX_FRAME_BYTES - READ_CHUNK"
  shows "read_frames buffer chunks = frames_in (buffer @ concat chunks)"
  using assms
proof (induction chunks arbitrary: buffer)
  case Nil
  then show ?case by (simp add: frames_in_def lines_in_def)
next
  case (Cons c cs)
  let ?b = "buffer @ c" and ?r = "last (split_char lf (buffer @ c))"
  have first: "hd (split_char lf (buffer @ t)) = buffer @ hd (split_char lf t)" for t
    using split_char_ne [of lf t] Cons.prems(2)
  proof (induction buffer)
    case (Cons b bs)
    obtain l ls where l: "split_char lf (bs @ t) = l # ls"
      using split_char_ne [of lf "bs @ t"] by (cases "split_char lf (bs @ t)") auto
    obtain m ms where m: "split_char lf bs = m # ms" using split_char_ne [of lf bs] by (cases "split_char lf bs") auto
    have "b \<noteq> lf" "split_char lf bs = [bs]" using Cons.prems(2) m by (auto split: if_splits)
    with Cons.IH Cons.prems(1) l show ?case by simp
  qed simp
  have "hd (split_char lf (buffer @ concat (c # cs))) \<in> set (split_char lf (buffer @ concat (c # cs)))"
    using split_char_ne by (rule hd_in_set)
  then have "int (length (hd (split_char lf (buffer @ concat (c # cs))))) \<le> MAX_FRAME_BYTES - READ_CHUNK"
    using Cons.prems(3) by blast
  then have "int (length buffer) \<le> MAX_FRAME_BYTES - READ_CHUNK" unfolding first by simp
  moreover have "int (length c) \<le> READ_CHUNK" "c \<noteq> []" using Cons.prems(1) by auto
  ultimately have fits: "\<not> int (length ?b) > MAX_FRAME_BYTES" by simp
  have rest: "split_char lf (?r @ concat cs) = drop (length (lines_in ?b)) (split_char lf (buffer @ concat (c # cs)))"
    using split_char_ends [of ?b "concat cs"] by simp
  have "read_frames ?r cs = frames_in (?r @ concat cs)"
  proof (rule Cons.IH)
    show "\<forall>l \<in> set (split_char lf (?r @ concat cs)). int (length l) \<le> MAX_FRAME_BYTES - READ_CHUNK"
      unfolding rest using Cons.prems(3) by (blast dest: in_set_dropD)
  qed (use Cons.prems(1) split_of_rest in auto)
  then show ?case using fits \<open>c \<noteq> []\<close> lines_in_append [of ?b "concat cs"]
    by (simp add: cut_lines_split frames_in_def)
qed

text \<open>Without that assumption: what is read is a beginning of the frames, each within the limit and on one line.\<close>

lemma read_frames_sound:
  assumes "split_char lf buffer = [buffer]"
  shows "prefix (read_frames buffer chunks) (frames_in (buffer @ concat chunks))
    \<and> (\<forall>f \<in> set (read_frames buffer chunks). int (length f) \<le> MAX_FRAME_BYTES \<and> lf \<notin> set f \<and> \<not> blank f)"
  using assms
proof (induction chunks arbitrary: buffer)
  case (Cons c cs)
  let ?b = "buffer @ c" and ?r = "last (split_char lf (buffer @ c))"
  show ?case
  proof (cases "c = [] \<or> int (length ?b) > MAX_FRAME_BYTES")
    case False
    have ih: "prefix (read_frames ?r cs) (frames_in (?r @ concat cs))"
      "\<forall>f \<in> set (read_frames ?r cs). int (length f) \<le> MAX_FRAME_BYTES \<and> lf \<notin> set f \<and> \<not> blank f"
      using Cons.IH [OF split_of_rest] by blast+
    have "int (length l) \<le> MAX_FRAME_BYTES \<and> lf \<notin> set l" if "l \<in> set (lines_in ?b)" for l
    proof -
      have l: "l \<in> set (split_char lf ?b)" using that by (auto simp: lines_in_def dest: in_set_butlastD)
      then obtain pre post where "split_char lf ?b = pre @ l # post" by (meson split_list)
      then have "?b = join [lf] (pre @ l # post)" using join_split_char [of lf ?b] by simp
      moreover have "length l \<le> length (join [lf] (pre @ l # post))" for pre :: "string list" and post
      proof (induction pre)
        case Nil then show ?case by (cases post) (simp_all add: join_Cons)
      next
        case (Cons x xs) then show ?case by (simp add: join_Cons)
      qed
      ultimately have "length l \<le> length ?b" by metis
      with False split_char_words [OF l] show ?thesis by simp
    qed
    with False ih lines_in_append [of ?b "concat cs"] show ?thesis
      by (auto simp: cut_lines_split frames_in_def)
  qed auto
qed simp

text \<open>C26: The requests a connection delivers do not depend on how its bytes are cut into chunks: as long as no line is longer than the
  frame limit less one chunk, they are the non-blank lines of the whole stream, in order. Whatever a client sends, they
  are a beginning of those, each is one line and none is longer than the limit.\<close>

theorem framing_ignores_chunking:
  "((\<forall>c \<in> set chunks. c \<noteq> [] \<and> int (length c) \<le> READ_CHUNK)
      \<and> (\<forall>l \<in> set (split_char lf (concat chunks)). int (length l) \<le> MAX_FRAME_BYTES - READ_CHUNK)
      \<longrightarrow> read_frames [] chunks = frames_in (concat chunks))
   \<and> prefix (read_frames [] chunks) (frames_in (concat chunks))
   \<and> (\<forall>f \<in> set (read_frames [] chunks). int (length f) \<le> MAX_FRAME_BYTES \<and> lf \<notin> set f \<and> \<not> blank f)"
  using read_frames_all [of chunks "[]"] read_frames_sound [of "[]" chunks] by auto

theorem framing_ignores_chunking_witness:
  "frames_in (concat [''ab'' @ [lf, lf] @ ''c'', ''d'' @ [lf]]) = [''ab'', ''cd'']
   \<and> read_frames [] [''ab'' @ [lf, lf] @ ''c'', ''d'' @ [lf]] = [''ab'', ''cd'']"
proof -
  let ?cs = "[''ab'' @ [lf, lf] @ ''c'', ''d'' @ [lf]]"
  have h: "(\<forall>c \<in> set ?cs. c \<noteq> [] \<and> int (length c) \<le> READ_CHUNK)
      \<and> (\<forall>l \<in> set (split_char lf (concat ?cs)). int (length l) \<le> MAX_FRAME_BYTES - READ_CHUNK)"
    "frames_in (concat ?cs) = [''ab'', ''cd'']" by code_simp+
  from framing_ignores_chunking [of ?cs] h(1) have "read_frames [] ?cs = frames_in (concat ?cs)" by blast
  with h(2) show ?thesis by simp
qed

subsection \<open>A reply is one frame\<close>

lemma plain_utf8: "list_all (plain False) s \<Longrightarrow> decode_utf8 s = Inr s"
  by (induction s) (auto simp: plain_def then_char_def)

definition one_frame :: "string \<Rightarrow> obj \<Rightarrow> bool" where
  "one_frame frame m =
     (frames_in frame = [butlast frame]
      \<and> (\<forall>flt. \<exists>t. decode_utf8 (butlast frame) = Inr t \<and> loads flt t = Inr (JObj m)))"

lemma encode_one_frame: "readable (JObj m) \<Longrightarrow> one_frame (encode m) m"
proof -
  assume r: "readable (JObj m)"
  let ?d = "dump False 0 (JObj m)"
  have p: "list_all (plain False) ?d" using dump_printable [OF r] .
  moreover have "\<not> plain False lf" by code_simp
  ultimately have n: "lf \<notin> set ?d" by (auto simp: list_all_iff)
  have "\<exists>cs. ?d = CHR ''{'' # cs" by (simp add: bracketed_def)
  moreover have "\<not> ascii_space (CHR ''{'')" by code_simp
  ultimately have "\<not> blank ?d" by (auto simp: blank_def)
  then have "frames_in (encode m) = [?d]"
    using split_char_append [OF n, of "[]"] by (simp add: frames_in_def lines_in_def encode_def)
  with plain_utf8 [OF p] loads_dump [OF r, of "[]"] show ?thesis
    by (simp add: one_frame_def encode_def)
qed

lemma one_digit: "nat_str (Suc 0) = ''1''"
  by code_simp

text \<open>C27: Every message the daemon writes is one frame: what arrives at the other end is one line, valid UTF-8 and
  JSON, and reads back as the message with its id, its verdict and its result; an error of any kind and with any text can be reported so.\<close>

theorem replies_are_single_frames:
  "(readable result \<longrightarrow> one_frame (encode_success i result) (success_message i result)
      \<and> one_frame (encode_event event result) (event_message event result))
   \<and> one_frame (encode_failure ri detail e) (failure_message ri (error_wire detail e))"
proof -
  have right: "(case e of NeedsAuthorisation m right \<Rightarrow> [(''right'', JStr right)] | _ \<Rightarrow> [])
      \<in> insert [] (range (\<lambda>r. [(''right'', JStr r)]))" by (cases e) auto
  have "readable (opt_json ri)" by (cases ri) (simp_all add: opt_json_def)
  moreover have "readable (JObj (error_wire detail e))"
    using right by (cases detail) (auto simp: error_wire_def)
  ultimately have "readable (JObj (failure_message ri (error_wire detail e)))"
    by (simp add: failure_message_def PROTOCOL_VERSION_def DIGIT_LIMIT_def one_digit)
  moreover have "readable (JObj (success_message i result))" "readable (JObj (event_message event result))" if "readable result"
    using that by (auto simp: success_message_def event_message_def PROTOCOL_VERSION_def DIGIT_LIMIT_def one_digit)
  ultimately show ?thesis
    by (simp add: encode_success_def encode_event_def encode_failure_def encode_one_frame del: readable.simps)
qed

theorem replies_are_single_frames_witness:
  "readable (JStr [lf, quote2]) \<and> one_frame (encode_success ''7'' (JStr [lf, quote2])) (success_message ''7'' (JStr [lf, quote2]))"
  using replies_are_single_frames [of "JStr [lf, quote2]" "''7''" "''e''" None None OSError] by simp

end
