(* ===== verification/Access.thy ===== *)
theory Access
  imports Protocol Systemd
begin

text \<open>
  Who may do what: the peer of a connection (\<^verbatim>\<open>smbpal/ipc/peer.py\<close>), polkit asked about it
  (\<^verbatim>\<open>smbpal/daemon/polkit.py\<close>), the grant of a macOS request (\<^verbatim>\<open>smbpal/system/authorization.py\<close>) and the
  \<open>Authoriser\<close> of \<^verbatim>\<open>smbpal/daemon/handlers.py\<close>. What \<^verbatim>\<open>/proc\<close> says of a process, what \<open>pkcheck\<close> answers and what the
  privileged helper says of a grant are arguments.
\<close>

record peer =
  pr_uid :: int
  pr_gid :: int
  pr_pid :: "int option"

definition describe_peer :: "peer \<Rightarrow> string" where
  "describe_peer p =
     ''uid='' @ int_str (pr_uid p) @ '' gid='' @ int_str (pr_gid p)
     @ (case pr_pid p of None \<Rightarrow> [] | Some pid \<Rightarrow> '' pid='' @ int_str pid)"

subsection \<open>polkit\<close>

definition MANAGE_SHARES :: string where "MANAGE_SHARES = ''org.smbpal.manage-shares''"
definition MANAGE_CONNECTIONS :: string where "MANAGE_CONNECTIONS = ''org.smbpal.manage-connections''"
definition USE_CONNECTIONS :: string where "USE_CONNECTIONS = ''org.smbpal.use-connections''"

text \<open>\<open>int()\<close> of a word: a sign, and digits with single underscores between them.\<close>

fun digit_groups :: "bool \<Rightarrow> string \<Rightarrow> string option" where
  "digit_groups after_digit [] = (if after_digit then Some [] else None)"
| "digit_groups after_digit (c # cs) =
     (if is_digit c then map_option ((#) c) (digit_groups True cs)
      else if c = CHR ''_'' \<and> after_digit then digit_groups False cs
      else None)"

definition py_int :: "string \<Rightarrow> int option" where
  "py_int w =
     (case w of
        [] \<Rightarrow> None
      | c # cs \<Rightarrow>
          if c = CHR ''-'' then map_option (\<lambda>ds. - int (digits_val ds)) (digit_groups False cs)
          else if c = CHR ''+'' then map_option (\<lambda>ds. int (digits_val ds)) (digit_groups False cs)
          else map_option (\<lambda>ds. int (digits_val ds)) (digit_groups False w))"

text \<open>\<open>bytes.split()\<close>: the words between runs of ASCII white space.\<close>

fun byte_words_from :: "string \<Rightarrow> string \<Rightarrow> string list" where
  "byte_words_from w [] = (if w = [] then [] else [rev w])"
| "byte_words_from w (c # cs) =
     (if ascii_space c then (if w = [] then byte_words_from [] cs else rev w # byte_words_from [] cs)
      else byte_words_from (c # w) cs)"

definition byte_words :: "string \<Rightarrow> string list" where "byte_words s = byte_words_from [] s"

text \<open>Field 22 of \<^verbatim>\<open>/proc/<pid>/stat\<close>, from the text after the last parenthesis; \<open>None\<close> for each of the errors \<open>check\<close> catches.\<close>

definition after_last_paren :: "string \<Rightarrow> string option" where
  "after_last_paren s =
     (if CHR '')'' \<in> set s then Some (rev (takeWhile (\<lambda>c. c \<noteq> CHR '')'') (rev s))) else None)"

definition start_time :: "string option \<Rightarrow> int option" where
  "start_time stat_file =
     (case stat_file of
        None \<Rightarrow> None
      | Some data \<Rightarrow>
          (case after_last_paren data of
             None \<Rightarrow> None
           | Some tail \<Rightarrow>
               (let fields = byte_words (drop 1 tail)
                in if length fields \<le> 19 then None else py_int (fields ! 19))))"

record polkit =
  pk_pkcheck :: string
  pk_interaction :: bool
  pk_proc :: "int \<Rightarrow> string option"
  pk_spawn :: "string list \<Rightarrow> spawned"

definition pkcheck_argv :: "polkit \<Rightarrow> int \<Rightarrow> int \<Rightarrow> int \<Rightarrow> string \<Rightarrow> string list" where
  "pkcheck_argv pk pid since uid action =
     [pk_pkcheck pk, ''--action-id'', action, ''--process'', int_str pid @ '','' @ int_str since @ '','' @ int_str uid]
     @ (if pk_interaction pk then [''--allow-user-interaction''] else [])"

definition polkit_check :: "polkit \<Rightarrow> peer \<Rightarrow> string \<Rightarrow> bool" where
  "polkit_check pk peer action =
     (case pr_pid peer of
        None \<Rightarrow> False
      | Some pid \<Rightarrow>
          (case start_time (pk_proc pk pid) of
             None \<Rightarrow> False
           | Some since \<Rightarrow>
               (case pk_spawn pk (pkcheck_argv pk pid since (pr_uid peer) action) of
                  Completed status _ _ \<Rightarrow> status = 0
                | _ \<Rightarrow> False)))"

subsection \<open>The rights of macOS\<close>

definition MAC_MANAGE_SHARES :: string where "MAC_MANAGE_SHARES = ''app.smbpal.manage-shares''"
definition MAC_MANAGE_CONNECTIONS :: string where "MAC_MANAGE_CONNECTIONS = ''app.smbpal.manage-connections''"
definition MAC_USE_CONNECTIONS :: string where "MAC_USE_CONNECTIONS = ''app.smbpal.use-connections''"
definition UNPROMPTED :: "string list" where "UNPROMPTED = [MAC_USE_CONNECTIONS]"

subsection \<open>The authoriser\<close>

datatype policy = Policy_polkit | Policy_root | Policy_group | Policy_helper

definition READ_ONLY :: "string list" where
  "READ_ONLY =
     [''ping'', ''version'', ''config.get'', ''status'', ''share.list'', ''connection.list'', ''connection.live'',
      ''credential.list'', ''connection.watch'', ''browse'', ''server.shares'']"

definition ACTIONS :: "(string \<times> string) list" where
  "ACTIONS =
     [(''share.add'', MANAGE_SHARES), (''share.remove'', MANAGE_SHARES), (''share.make_writable'', MANAGE_SHARES),
      (''apply'', MANAGE_SHARES), (''teardown'', MANAGE_SHARES), (''credential.set'', MANAGE_SHARES),
      (''credential.remove'', MANAGE_SHARES), (''connection.add'', MANAGE_CONNECTIONS),
      (''connection.remove'', MANAGE_CONNECTIONS), (''connection.set_credentials'', MANAGE_CONNECTIONS),
      (''connection.use_fallback'', MANAGE_CONNECTIONS), (''connection.connect'', USE_CONNECTIONS),
      (''connection.disconnect'', USE_CONNECTIONS)]"

definition MACOS_RIGHTS :: "(string \<times> string) list" where
  "MACOS_RIGHTS =
     [(MANAGE_SHARES, MAC_MANAGE_SHARES), (MANAGE_CONNECTIONS, MAC_MANAGE_CONNECTIONS),
      (USE_CONNECTIONS, MAC_USE_CONNECTIONS)]"

record authoriser =
  au_policy :: policy
  au_polkit :: polkit
  au_grant :: "string \<Rightarrow> string \<Rightarrow> bool"

definition refusal :: "string \<Rightarrow> py_error" where
  "refusal method = NotPermitted (method @ '' requires authorisation'')"

definition check_right :: "authoriser \<Rightarrow> string \<Rightarrow> string option \<Rightarrow> string \<Rightarrow> unit res" where
  "check_right au method auth right =
     (if right \<in> set UNPROMPTED then Inr ()
      else case auth of
        None \<Rightarrow> Inl (NeedsAuthorisation (method @ '' needs authorisation on macOS'') right)
      | Some form \<Rightarrow> if au_grant au right form then Inr () else Inl (refusal method))"

definition check_access :: "authoriser \<Rightarrow> peer \<Rightarrow> string \<Rightarrow> string option \<Rightarrow> unit res" where
  "check_access au peer method auth =
     (if method \<in> set READ_ONLY then Inr ()
      else if pr_uid peer = 0 then Inr ()
      else if au_policy au = Policy_group then Inr ()
      else if au_policy au = Policy_root then Inl (refusal method)
      else case map_of ACTIONS method of
        None \<Rightarrow> Inl (refusal method)
      | Some action \<Rightarrow>
          if au_policy au = Policy_helper
          then (case map_of MACOS_RIGHTS action of
                  None \<Rightarrow> Inl (refusal method)
                | Some right \<Rightarrow> check_right au method auth right)
          else if polkit_check (au_polkit au) peer action then Inr () else Inl (refusal method))"

subsection \<open>What an answer of the authoriser rests on\<close>

text \<open>polkit said yes about this very process: its number, the time it started, and the user the kernel reported.\<close>

definition polkit_allows :: "polkit \<Rightarrow> peer \<Rightarrow> string \<Rightarrow> bool" where
  "polkit_allows pk peer action =
     (\<exists>pid since out err. pr_pid peer = Some pid \<and> start_time (pk_proc pk pid) = Some since
        \<and> pk_spawn pk (pkcheck_argv pk pid since (pr_uid peer) action) = Completed 0 out err)"

definition may_act :: "authoriser \<Rightarrow> peer \<Rightarrow> string \<Rightarrow> string option \<Rightarrow> bool" where
  "may_act au peer method auth =
     (pr_uid peer = 0
      \<or> au_policy au = Policy_group
      \<or> au_policy au = Policy_polkit
          \<and> (\<exists>action. (method, action) \<in> set ACTIONS \<and> polkit_allows (au_polkit au) peer action)
      \<or> au_policy au = Policy_helper
          \<and> (\<exists>action right. (method, action) \<in> set ACTIONS \<and> (action, right) \<in> set MACOS_RIGHTS
               \<and> (right = MAC_USE_CONNECTIONS \<or> (\<exists>form. auth = Some form \<and> au_grant au right form))))"

lemma polkit_check_iff: "polkit_check pk peer action \<longleftrightarrow> polkit_allows pk peer action"
  by (auto simp: polkit_check_def polkit_allows_def split: option.splits spawned.splits)

lemma check_right_Inr:
  "check_right au method auth right = Inr u \<longleftrightarrow>
     right = MAC_USE_CONNECTIONS \<or> (\<exists>form. auth = Some form \<and> au_grant au right form)"
  by (auto simp: check_right_def UNPROMPTED_def split: option.splits)

lemma distinct_actions: "distinct (map fst ACTIONS)" and distinct_rights: "distinct (map fst MACOS_RIGHTS)"
  by code_simp+

lemma policy_cases: "au_policy au \<noteq> Policy_group \<Longrightarrow> au_policy au \<noteq> Policy_root \<Longrightarrow> au_policy au \<noteq> Policy_helper \<Longrightarrow>
    au_policy au = Policy_polkit"
  by (cases "au_policy au") simp_all

lemma check_access_Inr:
  "check_access au peer method auth = Inr u \<longleftrightarrow> method \<in> set READ_ONLY \<or> may_act au peer method auth"
proof (cases "method \<in> set READ_ONLY \<or> pr_uid peer = 0 \<or> au_policy au = Policy_group \<or> au_policy au = Policy_root")
  case True
  then show ?thesis by (auto simp: check_access_def may_act_def)
next
  case False
  note m = map_of_eq_Some_iff [OF distinct_actions] map_of_eq_Some_iff [OF distinct_rights]
  show ?thesis
  proof (cases "map_of ACTIONS method")
    case None
    then have "(method, action) \<notin> set ACTIONS" for action by (simp add: m(1) [symmetric])
    with False None show ?thesis by (simp add: check_access_def may_act_def)
  next
    case (Some action)
    then have a: "(method, b) \<in> set ACTIONS \<longleftrightarrow> b = action" for b by (auto simp: m(1) [symmetric])
    show ?thesis
    proof (cases "au_policy au = Policy_helper")
      case True
      show ?thesis
      proof (cases "map_of MACOS_RIGHTS action")
        case None
        then have "(action, r) \<notin> set MACOS_RIGHTS" for r using m(2) [of action r] by auto
        with False Some None True a show ?thesis by (simp add: check_access_def may_act_def)
      next
        case r: (Some right)
        then have "(action, b) \<in> set MACOS_RIGHTS \<longleftrightarrow> b = right" for b using m(2) [of action b] by auto
        with False Some r True a show ?thesis by (simp add: check_access_def may_act_def check_right_Inr)
      qed
    next
      case h: False
      with False Some a policy_cases [of au] show ?thesis
        by (simp add: check_access_def may_act_def polkit_check_iff)
    qed
  qed
qed

end
