(* ===== verification/Links.thy ===== *)
theory Links
  imports Access
begin

text \<open>
  The daemon's side of the macOS agents, \<^verbatim>\<open>smbpal/agent/client.py\<close>: the agents that dialled in, the requests that
  wait on them, and the states they reported. The dictionaries of \<open>AgentLinks\<close> are the fields of \<open>links\<close>. Every
  method holds the lock for all it does to them, except that a request waits between its two ends and that a reply is found under the
  lock and delivered after it, so the threads of the daemon interleave as the steps of \<open>link_step\<close>. A connection is its number and the peer
  the kernel reported.
\<close>

record connection =
  cn_number :: nat
  cn_peer :: peer

record pending =
  pd_connection :: connection
  pd_done :: bool
  pd_message :: "obj option"

record links =
  lk_by_uid :: "(int \<times> connection) list"
  lk_pending :: "(string \<times> pending) list"
  lk_counter :: nat
  lk_states :: "(int \<times> (string \<times> obj) list) list"

definition no_links :: links where
  "no_links = \<lparr>lk_by_uid = [], lk_pending = [], lk_counter = 1, lk_states = []\<rparr>"

definition conn_uid :: "connection \<Rightarrow> int" where "conn_uid c = pr_uid (cn_peer c)"

definition register :: "connection \<Rightarrow> links \<Rightarrow> links" where
  "register c l = l\<lparr>lk_by_uid := AList.update (conn_uid c) c (lk_by_uid l)\<rparr>"

definition agents_on :: "connection \<Rightarrow> links \<Rightarrow> int list" where
  "agents_on c l = map fst (filter (\<lambda>(_, r). r = c) (lk_by_uid l))"

definition wake_waiting :: "connection \<Rightarrow> (string \<times> pending) list \<Rightarrow> (string \<times> pending) list" where
  "wake_waiting c ps = map (\<lambda>(rid, p). (rid, if pd_connection p = c then p\<lparr>pd_done := True\<rparr> else p)) ps"

definition drop_link :: "connection \<Rightarrow> links \<Rightarrow> int list \<times> links" where
  "drop_link c l =
     (let gone = agents_on c l
      in (gone, l\<lparr>lk_by_uid := filter (\<lambda>(_, r). r \<noteq> c) (lk_by_uid l),
                  lk_states := filter (\<lambda>(uid, _). uid \<notin> set gone) (lk_states l),
                  lk_pending := wake_waiting c (lk_pending l)\<rparr>))"

definition states_of :: "int \<Rightarrow> links \<Rightarrow> (string \<times> obj) list" where
  "states_of uid l = (case map_of (lk_states l) uid of None \<Rightarrow> [] | Some rows \<Rightarrow> rows)"

definition rows_by_id :: "obj list \<Rightarrow> (string \<times> obj) list" where
  "rows_by_id rows = fold (\<lambda>r. AList.update (text_of r ''id'') r) rows []"

definition set_states :: "int \<Rightarrow> obj list \<Rightarrow> links \<Rightarrow> (obj option \<times> obj) list \<times> links" where
  "set_states uid rows l =
     (let previous = states_of uid l; current = rows_by_id rows
      in (map (\<lambda>(i, r). (map_of previous i, r)) (filter (\<lambda>(i, r). map_of previous i \<noteq> Some r) current),
          l\<lparr>lk_states := AList.update uid current (lk_states l)\<rparr>))"

definition agent_state_for :: "int \<Rightarrow> string \<Rightarrow> links \<Rightarrow> obj option" where
  "agent_state_for uid i l = map_of (states_of uid l) i"

definition agent_connected :: "int \<Rightarrow> links \<Rightarrow> bool" where
  "agent_connected uid l = (map_of (lk_by_uid l) uid \<noteq> None)"

definition is_registered :: "connection \<Rightarrow> links \<Rightarrow> bool" where
  "is_registered c l = (map_of (lk_by_uid l) (conn_uid c) = Some c)"

subsection \<open>Requests and replies\<close>

text \<open>The first half of \<open>reply\<close>, under the lock: the request that waits on this connection under that id.\<close>

definition waiting_on :: "connection \<Rightarrow> obj \<Rightarrow> links \<Rightarrow> string res" where
  "waiting_on c params l =
     (let refused = Inl (SmbpalError ''no request with that id is waiting on this connection'')
      in case get params ''rid'' of
           JStr rid \<Rightarrow>
             (case map_of (lk_pending l) rid of
                None \<Rightarrow> refused
              | Some p \<Rightarrow> if pd_connection p = c then Inr rid else refused)
         | _ \<Rightarrow> refused)"

text \<open>The second half: the message is set on the request it found. A request that has gone by then is not waited on
  any more, so setting it has no effect that is seen.\<close>

definition deliver :: "string \<Rightarrow> obj \<Rightarrow> links \<Rightarrow> links" where
  "deliver rid params l =
     (case map_of (lk_pending l) rid of
        None \<Rightarrow> l
      | Some p \<Rightarrow> l\<lparr>lk_pending := AList.update rid (p\<lparr>pd_message := Some params, pd_done := True\<rparr>) (lk_pending l)\<rparr>)"

definition reply_to :: "connection \<Rightarrow> obj \<Rightarrow> links \<Rightarrow> unit res \<times> links" where
  "reply_to c params l =
     (case waiting_on c params l of Inl e \<Rightarrow> (Inl e, l) | Inr rid \<Rightarrow> (Inr (), deliver rid params l))"

text \<open>\<open>request\<close>, up to the sending and from the end of the wait.\<close>

definition begin_request :: "int \<Rightarrow> links \<Rightarrow> (string \<times> connection) option \<times> links" where
  "begin_request uid l =
     (case map_of (lk_by_uid l) uid of
        None \<Rightarrow> (None, l)
      | Some c \<Rightarrow>
          (let rid = nat_str (lk_counter l)
           in (Some (rid, c),
               l\<lparr>lk_counter := Suc (lk_counter l),
                 lk_pending := AList.update rid \<lparr>pd_connection = c, pd_done = False, pd_message = None\<rparr> (lk_pending l)\<rparr>)))"

datatype reply_outcome = No_answer | Went_away | Answer obj

definition end_request :: "string \<Rightarrow> links \<Rightarrow> reply_outcome \<times> links" where
  "end_request rid l =
     (case map_of (lk_pending l) rid of
        None \<Rightarrow> (No_answer, l)
      | Some p \<Rightarrow>
          (if \<not> pd_done p then No_answer else case pd_message p of None \<Rightarrow> Went_away | Some m \<Rightarrow> Answer m,
           l\<lparr>lk_pending := AList.delete rid (lk_pending l)\<rparr>))"

definition request_event :: "string \<Rightarrow> string \<Rightarrow> obj \<Rightarrow> string" where
  "request_event rid method params =
     encode_event ''agent.request'' (JObj [(''rid'', JStr rid), (''method'', JStr method), (''params'', JObj params)])"

subsection \<open>The threads of the daemon\<close>

datatype link_event =
    Registered connection
  | Left connection
  | Asked string int connection
  | Replied connection string obj
  | Answered string int obj
  | Gave_up string int

text \<open>The links, the requests that wait (their id and whom they are for), the replies found but not yet delivered, and all that
  happened.\<close>

record link_state =
  ls_links :: links
  ls_asking :: "(string \<times> int) list"
  ls_delivering :: "(connection \<times> string \<times> obj) list"
  ls_trace :: "link_event list"

definition link_start :: link_state where
  "link_start = \<lparr>ls_links = no_links, ls_asking = [], ls_delivering = [], ls_trace = []\<rparr>"

inductive link_step :: "link_state \<Rightarrow> link_state \<Rightarrow> bool" where
  registers:
    "link_step s (s\<lparr>ls_links := register c (ls_links s), ls_trace := ls_trace s @ [Registered c]\<rparr>)"
| leaves:
    "link_step s (s\<lparr>ls_links := snd (drop_link c (ls_links s)), ls_trace := ls_trace s @ [Left c]\<rparr>)"
| reports:
    "link_step s (s\<lparr>ls_links := snd (set_states uid rows (ls_links s))\<rparr>)"
| asks:
    "begin_request uid (ls_links s) = (Some (rid, c), l) \<Longrightarrow>
      link_step s (s\<lparr>ls_links := l, ls_asking := (rid, uid) # ls_asking s, ls_trace := ls_trace s @ [Asked rid uid c]\<rparr>)"
| replies:
    "waiting_on c params (ls_links s) = Inr rid \<Longrightarrow>
      link_step s (s\<lparr>ls_delivering := (c, rid, params) # ls_delivering s, ls_trace := ls_trace s @ [Replied c rid params]\<rparr>)"
| delivers:
    "(c, rid, params) \<in> set (ls_delivering s) \<Longrightarrow>
      link_step s (s\<lparr>ls_links := deliver rid params (ls_links s),
                     ls_delivering := remove1 (c, rid, params) (ls_delivering s)\<rparr>)"
| answered:
    "(rid, uid) \<in> set (ls_asking s) \<Longrightarrow> end_request rid (ls_links s) = (Answer m, l) \<Longrightarrow>
      link_step s (s\<lparr>ls_links := l, ls_asking := remove1 (rid, uid) (ls_asking s),
                     ls_trace := ls_trace s @ [Answered rid uid m]\<rparr>)"
| gives_up: \<comment> \<open>the wait may run out just before an answer comes\<close>
    "(rid, uid) \<in> set (ls_asking s) \<Longrightarrow> end_request rid (ls_links s) = (r, l) \<Longrightarrow>
      link_step s (s\<lparr>ls_links := l, ls_asking := remove1 (rid, uid) (ls_asking s),
                     ls_trace := ls_trace s @ [Gave_up rid uid]\<rparr>)"

inductive link_reachable :: "link_state \<Rightarrow> bool" where
  start: "link_reachable link_start"
| step: "link_reachable s \<Longrightarrow> link_step s t \<Longrightarrow> link_reachable t"

subsection \<open>Only the owner's agent answers\<close>

definition links_ok :: "links \<Rightarrow> link_event set \<Rightarrow> bool" where
  "links_ok l tr =
     (distinct (map fst (lk_by_uid l))
      \<and> (\<forall>uid c. map_of (lk_by_uid l) uid = Some c \<longrightarrow> conn_uid c = uid \<and> Registered c \<in> tr)
      \<and> (\<forall>rid p. map_of (lk_pending l) rid = Some p \<longrightarrow>
           Asked rid (conn_uid (pd_connection p)) (pd_connection p) \<in> tr
           \<and> (\<forall>m. pd_message p = Some m \<longrightarrow> Replied (pd_connection p) rid m \<in> tr)))"

definition asked_ok :: "nat \<Rightarrow> link_event set \<Rightarrow> bool" where
  "asked_ok n tr =
     ((\<forall>rid uid c. Asked rid uid c \<in> tr \<longrightarrow> (\<exists>k < n. rid = nat_str k) \<and> conn_uid c = uid \<and> Registered c \<in> tr)
      \<and> (\<forall>rid uid c uid' c'. Asked rid uid c \<in> tr \<longrightarrow> Asked rid uid' c' \<in> tr \<longrightarrow> c' = c))"

definition answers_ok :: "link_event set \<Rightarrow> bool" where
  "answers_ok tr =
     (\<forall>rid uid m. Answered rid uid m \<in> tr \<longrightarrow>
        (\<exists>c. Asked rid uid c \<in> tr \<and> Replied c rid m \<in> tr))"

fun answered_ids :: "link_event list \<Rightarrow> string list" where
  "answered_ids [] = []"
| "answered_ids (Answered rid uid m # tr) = rid # answered_ids tr"
| "answered_ids (_ # tr) = answered_ids tr"

lemma answered_ids_append [simp]: "answered_ids (xs @ ys) = answered_ids xs @ answered_ids ys"
  by (induction xs rule: answered_ids.induct) simp_all

lemma in_answered_ids: "rid \<in> set (answered_ids tr) \<longleftrightarrow> (\<exists>uid m. Answered rid uid m \<in> set tr)"
  by (induction tr rule: answered_ids.induct) auto

definition link_inv :: "link_state \<Rightarrow> bool" where
  "link_inv s =
     (let l = ls_links s; tr = set (ls_trace s) in
      links_ok l tr \<and> asked_ok (lk_counter l) tr \<and> answers_ok tr
      \<and> (\<forall>(rid, uid) \<in> set (ls_asking s). \<exists>c. Asked rid uid c \<in> tr)
      \<and> (\<forall>(c, rid, m) \<in> set (ls_delivering s). Replied c rid m \<in> tr \<and> Asked rid (conn_uid c) c \<in> tr)
      \<and> distinct (map fst (ls_asking s)) \<and> distinct (answered_ids (ls_trace s))
      \<and> set (map fst (ls_asking s)) \<inter> set (answered_ids (ls_trace s)) = {})"

lemma links_ok_more: "links_ok l tr \<Longrightarrow> tr \<subseteq> tr' \<Longrightarrow> links_ok l tr'"
  unfolding links_ok_def by blast

lemma asked_ok_more: "asked_ok n tr \<Longrightarrow> (\<forall>e \<in> new. \<forall>rid uid c. e \<noteq> Asked rid uid c) \<Longrightarrow> asked_ok n (tr \<union> new)"
  unfolding asked_ok_def by blast

lemma answers_ok_more: "answers_ok tr \<Longrightarrow> (\<forall>e \<in> new. \<forall>rid uid m. e \<noteq> Answered rid uid m) \<Longrightarrow> answers_ok (tr \<union> new)"
  unfolding answers_ok_def by blast

lemma map_of_filter_val:
  assumes "map_of (filter (\<lambda>(_, r). P r) xs) k = Some v" and "distinct (map fst xs)"
  shows "map_of xs k = Some v"
proof -
  have "(k, v) \<in> set xs" using map_of_SomeD [OF assms(1)] by simp
  then show ?thesis by (rule map_of_is_SomeI [OF assms(2)])
qed

lemma map_of_wake: "map_of (wake_waiting c ps) rid = map_option (\<lambda>p. if pd_connection p = c then p\<lparr>pd_done := True\<rparr> else p) (map_of ps rid)"
proof (induction ps)
  case Nil
  show ?case by (simp add: wake_waiting_def)
next
  case (Cons a ps)
  then show ?case by (cases a) (simp only: wake_waiting_def list.map prod.case map_of.simps fun_upd_apply fst_conv snd_conv split: if_split, simp)
qed

lemma map_of_register: "map_of (lk_by_uid (register c l)) uid = (if uid = conn_uid c then Some c else map_of (lk_by_uid l) uid)"
  by (simp add: register_def update_conv)

lemma links_ok_register:
  assumes "links_ok l tr"
  shows "links_ok (register c l) (insert (Registered c) tr)"
proof -
  have d: "distinct (map fst (lk_by_uid (register c l)))"
    using assms by (simp add: links_ok_def register_def distinct_update)
  have k: "conn_uid d = uid \<and> Registered d \<in> insert (Registered c) tr"
    if "map_of (lk_by_uid (register c l)) uid = Some d" for uid d
    using that assms unfolding map_of_register links_ok_def by (cases "uid = conn_uid c") simp_all
  have p: "lk_pending (register c l) = lk_pending l" by (simp add: register_def)
  show ?thesis using d k assms unfolding links_ok_def p by simp
qed

lemma distinct_fst_filter: "distinct (map fst xs) \<Longrightarrow> distinct (map fst (filter P xs))"
  by (induction xs) auto

lemma links_ok_drop: "links_ok l tr \<Longrightarrow> links_ok (snd (drop_link c l)) tr"
  unfolding links_ok_def drop_link_def
  by (auto simp: Let_def map_of_wake distinct_fst_filter dest!: map_of_filter_val split: if_splits)

lemma links_ok_states: "links_ok (snd (set_states uid rows l)) tr = links_ok l tr"
  by (simp add: links_ok_def set_states_def Let_def)

lemma counter_kept [simp]:
  "lk_counter (register c l) = lk_counter l" "lk_counter (snd (drop_link c l)) = lk_counter l"
  "lk_counter (snd (set_states uid rows l)) = lk_counter l" "lk_counter (deliver rid m l) = lk_counter l"
  "lk_counter (snd (end_request rid l)) = lk_counter l"
  by (simp_all add: register_def drop_link_def set_states_def deliver_def end_request_def Let_def split: option.split)

lemma begin_request_Some:
  assumes "begin_request uid l = (Some (rid, c), l')"
  shows "map_of (lk_by_uid l) uid = Some c" "rid = nat_str (lk_counter l)" "lk_counter l' = Suc (lk_counter l)"
    "lk_by_uid l' = lk_by_uid l"
    "lk_pending l' = AList.update rid \<lparr>pd_connection = c, pd_done = False, pd_message = None\<rparr> (lk_pending l)"
  using assms by (auto simp: begin_request_def Let_def split: option.splits)

lemma links_ok_begin:
  assumes "links_ok l tr" and b: "begin_request uid l = (Some (rid, c), l')"
  shows "links_ok l' (insert (Asked rid uid c) tr)" "conn_uid c = uid" "Registered c \<in> tr"
proof -
  note b = begin_request_Some [OF b]
  from assms(1) b(1) show c: "conn_uid c = uid" "Registered c \<in> tr" by (simp_all add: links_ok_def)
  from assms(1) c show "links_ok l' (insert (Asked rid uid c) tr)"
    unfolding links_ok_def b(4,5) by auto
qed

lemma asked_ok_begin:
  assumes "asked_ok (lk_counter l) tr" and b: "begin_request uid l = (Some (rid, c), l')"
    and c: "conn_uid c = uid" "Registered c \<in> tr"
  shows "asked_ok (lk_counter l') (insert (Asked rid uid c) tr)"
proof -
  note b = begin_request_Some [OF b]
  have new: "Asked rid u d \<notin> tr" for u d
    using assms(1) unfolding asked_ok_def b(2) by force
  have "\<exists>k < Suc (lk_counter l). rid = nat_str k" unfolding b(2) by blast
  moreover have "\<exists>k < Suc (lk_counter l). r = nat_str k" if "Asked r u d \<in> tr" for r u d
    using assms(1) that less_SucI unfolding asked_ok_def by blast
  ultimately show ?thesis using assms(1) c new unfolding asked_ok_def b(3) by blast
qed

lemma waiting_on_Inr:
  "waiting_on c params l = Inr rid \<Longrightarrow> \<exists>p. map_of (lk_pending l) rid = Some p \<and> pd_connection p = c"
  by (auto simp: waiting_on_def Let_def split: json.splits option.splits if_splits)

lemma links_ok_deliver:
  assumes "links_ok l tr" "asked_ok n tr" "Replied c rid m \<in> tr" "Asked rid (conn_uid c) c \<in> tr"
  shows "links_ok (deliver rid m l) tr"
proof (cases "map_of (lk_pending l) rid")
  case (Some p)
  then have "Asked rid (conn_uid (pd_connection p)) (pd_connection p) \<in> tr" using assms(1) by (simp add: links_ok_def)
  with assms(2,4) have "pd_connection p = c" unfolding asked_ok_def by blast
  with assms Some show ?thesis by (auto simp: links_ok_def deliver_def)
qed (simp add: deliver_def assms(1))

lemma links_ok_end: "links_ok l tr \<Longrightarrow> links_ok (snd (end_request rid l)) tr"
  by (auto simp: links_ok_def end_request_def delete_conv restrict_map_def split: option.split if_splits)

lemma end_request_answer:
  "end_request rid l = (Answer m, l') \<Longrightarrow> \<exists>p. map_of (lk_pending l) rid = Some p \<and> pd_message p = Some m"
  by (auto simp: end_request_def split: option.splits if_splits)

lemma distinct_remove1_key:
  "distinct (map fst xs) \<Longrightarrow> (k, v) \<in> set xs \<Longrightarrow>
    distinct (map fst (remove1 (k, v) xs)) \<and> set (map fst (remove1 (k, v) xs)) = set (map fst xs) - {k}"
  by (induction xs) (auto simp: image_iff)

lemma link_inv_start: "link_inv link_start"
  by (simp add: link_inv_def link_start_def no_links_def links_ok_def asked_ok_def answers_ok_def)

text \<open>A step that adds neither a question nor an answer, and leaves the two work lists alone.\<close>

lemma link_inv_plain:
  assumes "link_inv s" and l: "links_ok l (set (ls_trace s) \<union> set new)" and n: "lk_counter l = lk_counter (ls_links s)"
    and q: "\<forall>e \<in> set new. \<forall>rid uid c. e \<noteq> Asked rid uid c" and a: "answered_ids new = []"
  shows "link_inv (s\<lparr>ls_links := l, ls_trace := ls_trace s @ new\<rparr>)"
proof -
  have na: "\<forall>e \<in> set new. \<forall>rid uid m. e \<noteq> Answered rid uid m" using a in_answered_ids [of _ new] by fastforce
  note i = assms(1) [unfolded link_inv_def Let_def]
  have "asked_ok (lk_counter l) (set (ls_trace s) \<union> set new)" unfolding n using i by (blast intro: asked_ok_more [OF _ q])
  moreover have "answers_ok (set (ls_trace s) \<union> set new)" using i by (blast intro: answers_ok_more [OF _ na])
  ultimately show ?thesis using i l a unfolding link_inv_def Let_def by auto
qed

lemma link_inv_asks:
  assumes "link_inv s" and b: "begin_request uid (ls_links s) = (Some (rid, c), l)"
  shows "link_inv (s\<lparr>ls_links := l, ls_asking := (rid, uid) # ls_asking s, ls_trace := ls_trace s @ [Asked rid uid c]\<rparr>)"
proof -
  note i = assms(1) [unfolded link_inv_def Let_def]
  have lo: "links_ok (ls_links s) (set (ls_trace s))" and ao: "asked_ok (lk_counter (ls_links s)) (set (ls_trace s))"
    and an: "answers_ok (set (ls_trace s))" using i by blast+
  note n = links_ok_begin [OF lo b]
  have fresh: "Asked rid u d \<notin> set (ls_trace s)" for u d
    using ao begin_request_Some(2) [OF b] unfolding asked_ok_def by force
  have na: "rid \<notin> set (map fst (ls_asking s))" using i fresh by (force simp: case_prod_beta)
  have nr: "rid \<notin> set (answered_ids (ls_trace s))" using an fresh unfolding in_answered_ids answers_ok_def by blast
  have an': "answers_ok (insert (Asked rid uid c) (set (ls_trace s)))" using answers_ok_more [OF an, of "{Asked rid uid c}"] by simp
  show ?thesis
    using i n(1) asked_ok_begin [OF ao b n(2,3)] an' na nr unfolding link_inv_def Let_def by auto
qed

lemma link_inv_replies:
  assumes "link_inv s" and w: "waiting_on c params (ls_links s) = Inr rid"
  shows "link_inv (s\<lparr>ls_delivering := (c, rid, params) # ls_delivering s, ls_trace := ls_trace s @ [Replied c rid params]\<rparr>)"
proof -
  obtain p where p: "map_of (lk_pending (ls_links s)) rid = Some p" "pd_connection p = c" using waiting_on_Inr [OF w] by metis
  have i: "link_inv (s\<lparr>ls_links := ls_links s, ls_trace := ls_trace s @ [Replied c rid params]\<rparr>)"
    by (rule link_inv_plain) (use assms(1) links_ok_more [of "ls_links s" "set (ls_trace s)"] in \<open>auto simp: link_inv_def Let_def\<close>)
  have "Asked rid (conn_uid c) c \<in> set (ls_trace s)"
    using assms(1) p unfolding link_inv_def links_ok_def Let_def by blast
  with i show ?thesis unfolding link_inv_def Let_def by auto
qed

lemma link_inv_delivers:
  assumes "link_inv s" and d: "(c, rid, params) \<in> set (ls_delivering s)"
  shows "link_inv (s\<lparr>ls_links := deliver rid params (ls_links s), ls_delivering := remove1 (c, rid, params) (ls_delivering s)\<rparr>)"
proof -
  note i = assms(1) [unfolded link_inv_def Let_def]
  have "Replied c rid params \<in> set (ls_trace s) \<and> Asked rid (conn_uid c) c \<in> set (ls_trace s)" using i d by fastforce
  then have "links_ok (deliver rid params (ls_links s)) (set (ls_trace s))" using i by (blast intro: links_ok_deliver)
  with i show ?thesis unfolding link_inv_def Let_def using set_remove1_subset [of "(c, rid, params)" "ls_delivering s"] by auto
qed

lemma asked_for:
  assumes "link_inv s" "(rid, uid) \<in> set (ls_asking s)"
  shows "(\<exists>c. Asked rid uid c \<in> set (ls_trace s)) \<and> rid \<notin> set (answered_ids (ls_trace s))"
proof -
  have "rid \<in> set (map fst (ls_asking s))" using assms(2) by (force simp: image_iff)
  then show ?thesis using assms unfolding link_inv_def Let_def by fastforce
qed

text \<open>The end of a wait, whatever is recorded of it.\<close>

lemma link_inv_ends:
  assumes "link_inv s" and r: "(rid, uid) \<in> set (ls_asking s)" and l: "l = snd (end_request rid (ls_links s))"
    and e: "(\<exists>u. e = Gave_up rid u) \<or> (\<exists>m c. e = Answered rid uid m \<and> Asked rid uid c \<in> set (ls_trace s) \<and> Replied c rid m \<in> set (ls_trace s))"
  shows "link_inv (s\<lparr>ls_links := l, ls_asking := remove1 (rid, uid) (ls_asking s), ls_trace := ls_trace s @ [e]\<rparr>)"
proof -
  note i = assms(1) [unfolded link_inv_def Let_def]
  let ?t = "set (ls_trace s)"
  have lo: "links_ok l (insert e ?t)" using i unfolding l by (blast intro: links_ok_end links_ok_more)
  have "asked_ok (lk_counter (ls_links s)) (?t \<union> {e})" using i e by (blast intro: asked_ok_more)
  then have ao: "asked_ok (lk_counter l) (insert e ?t)" unfolding l by simp
  have an: "answers_ok (insert e ?t)" using i e unfolding answers_ok_def by blast
  have d: "distinct (map fst (remove1 (rid, uid) (ls_asking s)))"
      "set (map fst (remove1 (rid, uid) (ls_asking s))) = set (map fst (ls_asking s)) - {rid}"
    using distinct_remove1_key [OF _ r] i by blast+
  have nr: "rid \<notin> set (answered_ids (ls_trace s))" using asked_for [OF assms(1) r] by blast
  have ids: "answered_ids [e] \<in> {[], [rid]}" using e by auto
  have di: "distinct (answered_ids (ls_trace s @ [e]))" "set (map fst (remove1 (rid, uid) (ls_asking s))) \<inter> set (answered_ids (ls_trace s @ [e])) = {}"
    unfolding d(2) using ids nr i by auto
  have w: "\<forall>(r, u) \<in> set (remove1 (rid, uid) (ls_asking s)). \<exists>c. Asked r u c \<in> insert e ?t"
    using i set_remove1_subset [of "(rid, uid)" "ls_asking s"] by blast
  have v: "\<forall>(c, r, m) \<in> set (ls_delivering s). Replied c r m \<in> insert e ?t \<and> Asked r (conn_uid c) c \<in> insert e ?t"
    using i by blast
  show ?thesis unfolding link_inv_def Let_def using lo ao an d(1) di w v by simp
qed

lemma link_inv_step:
  assumes "link_step s t" and i: "link_inv s"
  shows "link_inv t"
  using assms(1)
proof cases
  case (registers c)
  have "links_ok (register c (ls_links s)) (set (ls_trace s) \<union> set [Registered c])"
    using links_ok_register [of "ls_links s" "set (ls_trace s)" c] i by (simp add: link_inv_def Let_def)
  then show ?thesis unfolding registers by (intro link_inv_plain [OF i]) simp_all
next
  case (leaves c)
  have "links_ok (snd (drop_link c (ls_links s))) (set (ls_trace s) \<union> set [Left c])"
    using links_ok_more [OF links_ok_drop [of "ls_links s" "set (ls_trace s)" c]] i by (simp add: link_inv_def Let_def subset_insertI)
  then show ?thesis unfolding leaves by (intro link_inv_plain [OF i]) simp_all
next
  case (reports uid rows)
  have "links_ok (snd (set_states uid rows (ls_links s))) (set (ls_trace s) \<union> set [])"
    using i by (simp add: link_inv_def Let_def links_ok_states)
  from link_inv_plain [OF i this] show ?thesis unfolding reports by simp
next
  case (asks uid rid c l)
  show ?thesis unfolding asks(1) by (rule link_inv_asks [OF i asks(2)])
next
  case (replies c params rid)
  show ?thesis unfolding replies(1) by (rule link_inv_replies [OF i replies(2)])
next
  case (delivers c rid params)
  show ?thesis unfolding delivers(1) by (rule link_inv_delivers [OF i delivers(2)])
next
  case (answered rid uid m l)
  obtain p where p: "map_of (lk_pending (ls_links s)) rid = Some p" "pd_message p = Some m"
    using end_request_answer [OF answered(3)] by metis
  then have o: "Asked rid (conn_uid (pd_connection p)) (pd_connection p) \<in> set (ls_trace s)"
      "Replied (pd_connection p) rid m \<in> set (ls_trace s)"
    using i unfolding link_inv_def links_ok_def Let_def by blast+
  obtain c where c: "Asked rid uid c \<in> set (ls_trace s)" using asked_for [OF i answered(2)] by metis
  have "c = pd_connection p" using c o(1) i unfolding link_inv_def asked_ok_def Let_def by blast
  then show ?thesis unfolding answered(1)
    by (intro link_inv_ends [OF i answered(2)]) (use answered(3) c o in \<open>auto\<close>)
next
  case (gives_up rid uid r l)
  show ?thesis unfolding gives_up(1) by (intro link_inv_ends [OF i gives_up(2)]) (use gives_up(3) in \<open>auto\<close>)
qed

lemma link_inv_reachable: "link_reachable s \<Longrightarrow> link_inv s"
  by (induction rule: link_reachable.induct) (auto intro: link_inv_start link_inv_step)

text \<open>C28: whatever the threads of the daemon and the agents do, an answer that a request for a user got came over the one
  connection that request was sent on, that connection is one the kernel says is that user's and that had registered, and no request
  is answered twice.\<close>

theorem answers_come_from_the_owner:
  assumes "link_reachable s" and "Answered rid uid m \<in> set (ls_trace s)"
  shows "(\<exists>!c. Asked rid uid c \<in> set (ls_trace s))
    \<and> (\<exists>c. Asked rid uid c \<in> set (ls_trace s) \<and> Replied c rid m \<in> set (ls_trace s)
         \<and> Registered c \<in> set (ls_trace s) \<and> pr_uid (cn_peer c) = uid)
    \<and> distinct (answered_ids (ls_trace s))"
proof -
  note i = link_inv_reachable [OF assms(1), unfolded link_inv_def Let_def]
  obtain c where c: "Asked rid uid c \<in> set (ls_trace s)" "Replied c rid m \<in> set (ls_trace s)"
    using i assms(2) unfolding answers_ok_def by metis
  moreover have "conn_uid c = uid" "Registered c \<in> set (ls_trace s)" using i c(1) unfolding asked_ok_def by blast+
  moreover have "d = c" if "Asked rid uid d \<in> set (ls_trace s)" for d using i c(1) that unfolding asked_ok_def by blast
  ultimately show ?thesis using i unfolding conn_uid_def by blast
qed

text \<open>One request, from the registration of the agent to its answer.\<close>

definition example_agent :: connection where
  "example_agent = \<lparr>cn_number = 1, cn_peer = \<lparr>pr_uid = 501, pr_gid = 20, pr_pid = Some 77\<rparr>\<rparr>"

definition example_reply :: obj where "example_reply = [(''rid'', JStr ''1''), (''ok'', JBool True)]"

definition example_trace :: "link_event list" where
  "example_trace = [Registered example_agent, Asked ''1'' 501 example_agent, Replied example_agent ''1'' example_reply,
     Answered ''1'' 501 example_reply]"

definition example_links :: links where
  "example_links = \<lparr>lk_by_uid = [(501, example_agent)], lk_pending = [], lk_counter = 2, lk_states = []\<rparr>"

lemma example_reachable:
  "link_reachable \<lparr>ls_links = example_links, ls_asking = [], ls_delivering = [], ls_trace = example_trace\<rparr>"
proof -
  let ?l1 = "register example_agent no_links"
  let ?l2 = "snd (begin_request 501 ?l1)"
  let ?l3 = "deliver ''1'' example_reply ?l2"
  have one: "nat_str (Suc 0) = ''1''" by code_simp
  note eval = register_def no_links_def conn_uid_def example_agent_def begin_request_def deliver_def waiting_on_def
    example_reply_def end_request_def example_links_def Let_def get_def one
  have 1: "link_reachable \<lparr>ls_links = ?l1, ls_asking = [], ls_delivering = [], ls_trace = take 1 example_trace\<rparr>"
    using link_reachable.step [OF link_reachable.start registers [of link_start example_agent]]
    by (simp add: link_start_def example_trace_def)
  have b: "begin_request 501 ?l1 = (Some (''1'', example_agent), ?l2)" by (simp add: eval)
  have 2: "link_reachable \<lparr>ls_links = ?l2, ls_asking = [(''1'', 501)], ls_delivering = [], ls_trace = take 2 example_trace\<rparr>"
    using link_reachable.step [OF 1 asks] b by (simp add: example_trace_def)
  have w: "waiting_on example_agent example_reply ?l2 = Inr ''1''" by (simp add: eval)
  have 3: "link_reachable \<lparr>ls_links = ?l2, ls_asking = [(''1'', 501)], ls_delivering = [(example_agent, ''1'', example_reply)], ls_trace = take 3 example_trace\<rparr>"
    using link_reachable.step [OF 2 replies [of example_agent]] w by (simp add: example_trace_def)
  have 4: "link_reachable \<lparr>ls_links = ?l3, ls_asking = [(''1'', 501)], ls_delivering = [], ls_trace = take 3 example_trace\<rparr>"
    using link_reachable.step [OF 3 delivers [of example_agent "''1''" example_reply]] by simp
  have e: "end_request ''1'' ?l3 = (Answer example_reply, example_links)" by (simp add: eval)
  show ?thesis
    using link_reachable.step [OF 4 answered [of "''1''" 501 _ example_reply example_links]] e by (simp add: example_trace_def)
qed

theorem answers_come_from_the_owner_witness:
  "\<exists>c. Asked ''1'' 501 c \<in> set example_trace \<and> Replied c ''1'' example_reply \<in> set example_trace \<and> pr_uid (cn_peer c) = 501"
  using answers_come_from_the_owner [OF example_reachable, of "''1''" 501 example_reply] by (auto simp: example_trace_def)

end
