(* ===== verification/Accounts.thy ===== *)
theory Accounts
  imports Applier
begin

text \<open>
  \<^verbatim>\<open>smbpal/samba/passwd.py\<close>, the accounts Samba lets in, and \<^verbatim>\<open>smbpal/system/selinux.py\<close>, what SELinux
  lets Samba serve. A command that reads its standard input is run by the \<open>feed\<close> argument. What the kernel shows
  of SELinux (\<open>/sys/fs/selinux\<close> and the label of a path, \<open>None\<close> for what cannot be read) is a record.
\<close>

subsection \<open>SMB accounts\<close>

definition SMBPASSWD :: string where "SMBPASSWD = ''smbpasswd''"
definition PDBEDIT :: string where "PDBEDIT = ''pdbedit''"

definition user_start :: "char \<Rightarrow> bool" where "user_start c = (is_az c \<or> c = CHR ''_'')"
definition user_char :: "char \<Rightarrow> bool" where
  "user_char c = (is_az c \<or> is_digit c \<or> c = CHR ''_'' \<or> c = CHR ''-'')"

text \<open>\<open>_USERNAME\<close>.\<close>

definition posix_name :: "string \<Rightarrow> bool" where
  "posix_name u = (case u of [] \<Rightarrow> False | c # cs \<Rightarrow> user_start c \<and> length cs \<le> 31 \<and> list_all user_char cs)"

definition posix_user_exists :: "accounts \<Rightarrow> string \<Rightarrow> bool" where
  "posix_user_exists acc u = (by_name acc u \<noteq> None)"

definition require_posix_user :: "accounts \<Rightarrow> string \<Rightarrow> unit res" where
  "require_posix_user acc u =
     (if \<not> posix_name u then Inl (InvalidParams (repr_str u @ '' is not a valid POSIX user name''))
      else if \<not> posix_user_exists acc u then Inl (NotFound (''there is no system account called '' @ repr_str u))
      else Inr ())"

type_synonym 'w feed = "string list \<Rightarrow> string \<Rightarrow> 'w \<Rightarrow> command_result res \<times> 'w"

definition require_credential :: "string \<Rightarrow> command_result res \<times> 'w \<Rightarrow> unit res \<times> 'w" where
  "require_credential msg rw =
     (case rw of (r, w) \<Rightarrow> (and_then r (\<lambda>c. if cr_ok c then Inr () else Inl (CredentialError msg)), w))"

definition set_password :: "accounts \<Rightarrow> 'w feed \<Rightarrow> string \<Rightarrow> string \<Rightarrow> 'w \<Rightarrow> unit res \<times> 'w" where
  "set_password acc fd u password w =
     then_do (require_posix_user acc u, w) (\<lambda>_ w.
       if password = [] then (Inl (InvalidParams ''the password must not be empty''), w)
       else require_credential (''could not set the SMB password for '' @ repr_str u)
              (fd [SMBPASSWD, ''-a'', ''-s'', u] (password @ [lf] @ password @ [lf]) w))"

definition remove_user :: "'w exec \<Rightarrow> string \<Rightarrow> 'w \<Rightarrow> unit res \<times> 'w" where
  "remove_user ex u w =
     require_credential (''could not remove the SMB account for '' @ repr_str u) (ex [PDBEDIT, ''-x'', ''-u'', u] w)"

definition user_lines :: "string \<Rightarrow> string list" where
  "user_lines out =
     filter (\<lambda>n. n \<noteq> []) (map (\<lambda>l. py_strip (takeWhile (\<lambda>c. c \<noteq> CHR '':'') l)) (splitlines out))"

definition list_users :: "'w exec \<Rightarrow> 'w \<Rightarrow> string list res \<times> 'w" where
  "list_users ex w =
     (case ex [PDBEDIT, ''-L''] w of
        (r, w') \<Rightarrow>
          (and_then r (\<lambda>c. and_then (check_result [PDBEDIT, ''-L''] c) (\<lambda>c. Inr (user_lines (cr_stdout c)))), w'))"

subsection \<open>SELinux\<close>

record kernel =
  kn_enforce :: "string option"
  kn_boolean :: "string \<Rightarrow> string option"
  kn_label :: "string \<Rightarrow> string option"

definition SERVEABLE :: "string list" where
  "SERVEABLE = [''samba_share_t'', ''public_content_t'', ''public_content_rw_t'']"
definition EXPORT_ALL :: string where "EXPORT_ALL = ''samba_export_all_rw''"
definition HOME_DIRS :: string where "HOME_DIRS = ''samba_enable_home_dirs''"

definition enforcing :: "kernel \<Rightarrow> bool" where
  "enforcing k = (case kn_enforce k of None \<Rightarrow> False | Some t \<Rightarrow> py_strip t = ''1'')"

definition boolean_on :: "kernel \<Rightarrow> string \<Rightarrow> bool" where
  "boolean_on k name =
     (case kn_boolean k name of
        None \<Rightarrow> False
      | Some t \<Rightarrow> (case words t of [] \<Rightarrow> False | w # _ \<Rightarrow> w = ''1''))"

definition context_type :: "kernel \<Rightarrow> string \<Rightarrow> string option" where
  "context_type k p =
     (case kn_label k p of
        None \<Rightarrow> None
      | Some raw \<Rightarrow>
          (case split_char (CHR '':'') (rstrip_on (\<lambda>c. c = CHR 0x00) raw) of
             _ # _ # t # _ \<Rightarrow> Some t
           | _ \<Rightarrow> None))"

text \<open>\<open>re.escape\<close> and \<open>shlex.quote\<close>.\<close>

definition re_special :: "char \<Rightarrow> bool" where
  "re_special c = (c \<in> set ''()[]{}?*+-|^$.&~# '' \<union> {backslash, CHR 0x09, lf, cr, CHR 0x0B, CHR 0x0C})"

definition re_escape :: "string \<Rightarrow> string" where
  "re_escape s = concat (map (\<lambda>c. if re_special c then [backslash, c] else [c]) s)"

definition shell_safe :: "char \<Rightarrow> bool" where
  "shell_safe c = (is_az c \<or> is_AZ c \<or> is_digit c \<or> c \<in> set ''_@%+=:,./-'')"

definition shell_quote :: "string \<Rightarrow> string" where
  "shell_quote s =
     (if s = [] then [quote1, quote1]
      else if list_all shell_safe s then s
      else [quote1] @ concat (map (\<lambda>c. if c = quote1 then [quote1, quote2, quote1, quote2, quote1] else [c]) s) @ [quote1])"

definition served_pattern :: "string \<Rightarrow> string" where "served_pattern p = re_escape p @ ''(/.*)?''"

definition label_command :: "string \<Rightarrow> string" where
  "label_command p = ''sudo semanage fcontext -a -t samba_share_t '' @ shell_quote (served_pattern p)"

definition restore_command :: "string \<Rightarrow> string" where
  "restore_command p = ''sudo restorecon -Rv '' @ shell_quote p"

definition unserveable :: "kernel \<Rightarrow> string \<Rightarrow> obj option" where
  "unserveable k p =
     (if \<not> enforcing k then None
      else if boolean_on k EXPORT_ALL then None
      else case context_type k p of
        None \<Rightarrow> None
      | Some t \<Rightarrow>
          if t \<in> set SERVEABLE then None
          else if t \<in> {''user_home_t'', ''user_home_dir_t''} \<and> boolean_on k HOME_DIRS then None
          else Some [(''path'', JStr p), (''type'', JStr t), (''wanted'', JStr ''samba_share_t''),
                     (''label'', JStr (label_command p)), (''restore'', JStr (restore_command p))])"

subsection \<open>What the commands say\<close>

text \<open>One word as a POSIX shell reads it: outside quotes only characters without a meaning of their own, between
  single quotes everything, between double quotes everything but the characters that are special there.\<close>

datatype quoting = Outside | Single | Double

fun shell_word :: "quoting \<Rightarrow> string \<Rightarrow> string option" where
  "shell_word m [] = (if m = Outside then Some [] else None)"
| "shell_word Outside (c # cs) =
     (if c = quote1 then shell_word Single cs
      else if c = quote2 then shell_word Double cs
      else if shell_safe c then map_option ((#) c) (shell_word Outside cs)
      else None)"
| "shell_word Single (c # cs) =
     (if c = quote1 then shell_word Outside cs else map_option ((#) c) (shell_word Single cs))"
| "shell_word Double (c # cs) =
     (if c = quote2 then shell_word Outside cs
      else if c \<in> {backslash, CHR ''$'', CHR 0x60} then None
      else map_option ((#) c) (shell_word Double cs))"

text \<open>The one string a pattern without operators matches.\<close>

fun literal_pattern :: "string \<Rightarrow> string option" where
  "literal_pattern [] = Some []"
| "literal_pattern (c # cs) =
     (if c = backslash then (case cs of [] \<Rightarrow> None | d # ds \<Rightarrow> map_option ((#) d) (literal_pattern ds))
      else if re_special c then None
      else map_option ((#) c) (literal_pattern cs))"

lemma quotes_differ: "quote1 \<noteq> quote2" "quote1 \<notin> {backslash, CHR ''$'', CHR 0x60}" "\<not> shell_safe quote1" "\<not> shell_safe quote2"
  by code_simp+

lemma safe_word: "list_all shell_safe s \<Longrightarrow> shell_word Outside s = Some s"
  using quotes_differ(3,4) by (induction s) auto

lemma quoted_word:
  "shell_word Single (concat (map (\<lambda>c. if c = quote1 then [quote1, quote2, quote1, quote2, quote1] else [c]) s) @ [quote1]) = Some s"
  using quotes_differ(1,2) by (induction s) auto

lemma shell_quote_reads: "shell_word Outside (shell_quote s) = Some s"
  using quoted_word [of s] by (auto simp: shell_quote_def safe_word)

lemma re_escape_matches: "literal_pattern (re_escape s) = Some s"
proof (induction s)
  case (Cons c s)
  have "re_special backslash" by code_simp
  with Cons show ?case by (auto simp: re_escape_def)
qed (simp add: re_escape_def)

text \<open>Whatever characters a path has, the two commands a person is given to run are about that path: the shell
  reads one word after the options, \<open>restorecon\<close> is handed the path itself, and \<open>semanage\<close> a pattern whose literal part matches
  the path and nothing else.\<close>

theorem selinux_commands_name_the_path:
  "\<exists>label restore. label_command p = ''sudo semanage fcontext -a -t samba_share_t '' @ label
    \<and> restore_command p = ''sudo restorecon -Rv '' @ restore
    \<and> shell_word Outside restore = Some p
    \<and> (\<exists>pattern. shell_word Outside label = Some (pattern @ ''(/.*)?'') \<and> literal_pattern pattern = Some p)"
  by (simp add: label_command_def restore_command_def served_pattern_def shell_quote_reads re_escape_matches)

end
