(* ===== verification/Wire.thy ===== *)
theory Wire
  imports Accounts Mounting Pushed Volumes Links
begin

text \<open>
  What a reply says: the \<open>to_wire\<close> methods of \<^verbatim>\<open>samba/apply.py\<close>, \<^verbatim>\<open>shares/ownership.py\<close>, \<^verbatim>\<open>mounts/apply.py\<close>,
  \<^verbatim>\<open>mounts/inventory.py\<close> and \<^verbatim>\<open>state/machine.py\<close>, and the reading of a state an agent reports
  (\<^verbatim>\<open>daemon/handlers.py\<close>). A sentence meant for a person is a \<open>sentence\<close>, put into words by the \<open>say\<close> argument.
\<close>

datatype sentence =
    Not_writable unwritable
  | Why_read_only read_only_reason
  | State_says state_text
  | Finding_says finding_message
  | Hint_says hint
  | Recorded_only
  | Old_sessions_keep_permissions
  | Will_mount_again
  | Will_not_mount_again
  | Nothing_was_mounted
  | Stored_in_keychain
  | Replaced_in_keychain
  | Not_unmounted string string
  | Still_in_use string string
  | Not_mounted_by_us string string
  | Not_checked_yet
  | Agent_not_connected string
  | Landed_elsewhere string string

type_synonym say = "sentence \<Rightarrow> string"

definition with_keys :: "obj \<Rightarrow> obj \<Rightarrow> obj" where
  "with_keys ob new = fold (\<lambda>(k, v). AList.update k v) new ob"

definition opt_int :: "int option \<Rightarrow> json" where
  "opt_int v = (case v of None \<Rightarrow> JNull | Some i \<Rightarrow> JInt i)"

definition optional_bool :: "bool option \<Rightarrow> json" where
  "optional_bool v = (case v of None \<Rightarrow> JNull | Some b \<Rightarrow> JBool b)"

subsection \<open>Shares\<close>

fun octal :: "nat \<Rightarrow> string" where
  "octal n = (if n < 8 then [char_of (48 + n)] else octal (n div 8) @ [char_of (48 + n mod 8)])"

declare octal.simps [simp del]

text \<open>\<open>f"{mode:04o}"\<close>; a mode is not negative.\<close>

definition mode_text :: "int \<Rightarrow> string" where
  "mode_text m = (let s = octal (nat m) in replicate (4 - length s) (CHR ''0'') @ s)"

definition status_wire :: "say \<Rightarrow> dir_status \<Rightarrow> obj" where
  "status_wire say st =
     [(''path'', JStr (ds_path st)), (''exists'', JBool (ds_exists st)), (''is_dir'', JBool (ds_is_dir st)),
      (''owner'', opt_json (ds_owner_name st)), (''mode'', opt_json (map_option mode_text (ds_mode st))),
      (''writable'', optional_bool (ds_writable st)),
      (''why_not_writable'', opt_json (map_option (say \<circ> Not_writable) (ds_why_not st))),
      (''fixable'', JBool (ds_fixable st))]"

definition planned_share_wire :: "say \<Rightarrow> planned_share \<Rightarrow> obj" where
  "planned_share_wire say p =
     with_keys (ps_share p)
       [(''effective_read_only'', JBool (ps_read_only p)),
        (''read_only_reason'', opt_json (map_option (say \<circ> Why_read_only) (ps_reason p))),
        (''directory'', JObj (status_wire say (ps_status p)))]"

definition service_wire :: "service_status \<Rightarrow> obj" where
  "service_wire s =
     [(''unit'', opt_json (ss_unit s)), (''active'', JBool (ss_active s))]
     @ (case ss_installed s of None \<Rightarrow> [] | Some b \<Rightarrow> [(''installed'', JBool b)])"

subsection \<open>Connections\<close>

definition state_word :: "conn_state \<Rightarrow> string" where
  "state_word s = (case s of
      Idle \<Rightarrow> ''idle'' | Connecting \<Rightarrow> ''connecting'' | Connected \<Rightarrow> ''connected'' | Reconnecting \<Rightarrow> ''reconnecting''
    | Unreachable \<Rightarrow> ''unreachable'' | Unresolved \<Rightarrow> ''unresolved'' | Auth_failed \<Rightarrow> ''auth_failed''
    | Failed \<Rightarrow> ''failed'' | Disabled \<Rightarrow> ''disabled'' | Unknown \<Rightarrow> ''unknown'')"

definition probe_text :: "probe_word \<Rightarrow> string" where
  "probe_text w = (case w of
      P_mounted \<Rightarrow> ''mounted'' | P_unreachable \<Rightarrow> ''unreachable'' | P_not_mounted \<Rightarrow> ''not mounted''
    | P_checking \<Rightarrow> ''checking'' | P_unknown \<Rightarrow> ''unknown'')"

definition connection_text :: "connection_word \<Rightarrow> string" where
  "connection_text w = (case w of
      Probed p \<Rightarrow> probe_text p | Mounter.Occupied \<Rightarrow> ''mountpoint in use'' | No_credentials \<Rightarrow> ''no credentials'')"

definition planned_connection_wire :: "planned_connection \<Rightarrow> obj" where
  "planned_connection_wire p =
     with_keys (pc_connection p)
       [(''unit'', JStr (pc_mount_unit p)), (''state'', JStr (connection_text (pc_state p))),
        (''has_credentials'', JBool (pc_has_credentials p))]"

definition finding_wire :: "say \<Rightarrow> finding \<Rightarrow> obj" where
  "finding_wire say f =
     [(''kind'', JStr (case fi_kind f of Orphaned \<Rightarrow> ''orphaned'' | Unmanaged \<Rightarrow> ''unmanaged'')),
      (''mountpoint'', JStr (fi_mountpoint f)), (''source'', JStr (fi_source f)), (''mounted'', JBool (fi_mounted f)),
      (''connection_id'', opt_json (fi_connection_id f)), (''unit'', opt_json (fi_unit f)),
      (''message'', JStr (say (Finding_says (finding_text f))))]"

definition errno_json :: "nat option \<Rightarrow> json" where
  "errno_json e = opt_int (map_option int e)"

definition monitor_wire :: "say \<Rightarrow> connection_state \<Rightarrow> obj" where
  "monitor_wire say s =
     [(''id'', JStr (cs_id s)), (''state'', JStr (state_word (cs_state s))),
      (''message'', JStr (say (State_says (cs_message s)))), (''errno'', errno_json (cs_errno s)),
      (''retryable'', JBool (cs_retryable s)), (''read_only'', JBool (cs_read_only s)),
      (''is_problem'', JBool (is_problem s))]"

subsection \<open>A state an agent reports\<close>

definition MAX_STATE_MESSAGE :: nat where "MAX_STATE_MESSAGE = 500"

definition state_words :: "string list" where "state_words = map state_word STATES"
definition problem_words :: "string list" where "problem_words = map state_word PROBLEM_STATES"

definition clean_state :: "json \<Rightarrow> obj option" where
  "clean_state row =
     (case row of
        JObj r \<Rightarrow>
          (case (get r ''id'', get r ''state'') of
             (JStr i, JStr s) \<Rightarrow>
               if s \<notin> set state_words then None
               else Some [(''id'', JStr i), (''state'', JStr s),
                 (''message'', JStr (take MAX_STATE_MESSAGE (case get r ''message'' of JStr m \<Rightarrow> m | _ \<Rightarrow> []))),
                 (''retryable'', JBool (truthy (get r ''retryable''))),
                 (''mountpoint'', case get r ''mountpoint'' of JStr m \<Rightarrow> JStr m | _ \<Rightarrow> JNull)]
           | _ \<Rightarrow> None)
      | _ \<Rightarrow> None)"

text \<open>\<open>_wire_state\<close>, for a row that has an id and a state, as every row it is given has.\<close>

definition reported_wire :: "obj \<Rightarrow> obj" where
  "reported_wire row =
     [(''id'', get row ''id''), (''state'', get row ''state''),
      (''message'', case map_of row ''message'' of None \<Rightarrow> JStr [] | Some m \<Rightarrow> m), (''errno'', JNull),
      (''retryable'', JBool (truthy (get row ''retryable''))), (''read_only'', JBool False),
      (''is_problem'', JBool (text_of row ''state'' \<in> set problem_words))]"

subsection \<open>Reading parameters\<close>

definition require_str :: "obj \<Rightarrow> string \<Rightarrow> string res" where
  "require_str params key =
     (case get params key of
        JStr s \<Rightarrow> if s = [] then Inl (InvalidParams (quote1 # key @ quote1 # '' is required and must be a non-empty string''))
                 else Inr s
      | _ \<Rightarrow> Inl (InvalidParams (quote1 # key @ quote1 # '' is required and must be a non-empty string'')))"

definition optional_str :: "obj \<Rightarrow> string \<Rightarrow> string option res" where
  "optional_str params key =
     (case get params key of
        JNull \<Rightarrow> Inr None
      | JStr s \<Rightarrow> Inr (Some s)
      | _ \<Rightarrow> Inl (InvalidParams (quote1 # key @ quote1 # '' must be a string when present'')))"

definition optional_flag :: "obj \<Rightarrow> string \<Rightarrow> bool \<Rightarrow> bool res" where
  "optional_flag params key otherwise =
     (case get params key of
        JNull \<Rightarrow> Inr otherwise
      | JBool b \<Rightarrow> Inr b
      | _ \<Rightarrow> Inl (InvalidParams (quote1 # key @ quote1 # '' must be true or false when present'')))"

text \<open>\<open>a or b\<close> of an optional string.\<close>

definition given :: "string option \<Rightarrow> bool" where
  "given v = (case v of None \<Rightarrow> False | Some s \<Rightarrow> s \<noteq> [])"

definition or_str :: "string option \<Rightarrow> string option \<Rightarrow> string option" where
  "or_str v w = (if given v then v else w)"

lemma clean_state_known:
  "clean_state row = Some r \<Longrightarrow>
    (\<exists>i s. map_of r ''id'' = Some (JStr i) \<and> map_of r ''state'' = Some (JStr s) \<and> s \<in> set state_words)"
  by (auto simp: clean_state_def split: json.splits if_splits)

end
