(* ===== verification/Daemon.thy ===== *)
theory Daemon
  imports Wire Access
begin

text \<open>
  The \<open>Dispatcher\<close> of \<^verbatim>\<open>smbpal/daemon/handlers.py\<close>: what it is built with (\<open>daemon\<close>), what changes while it
  runs (\<open>run\<close>), the save-then-apply of \<open>_commit\<close> and the methods about shares. The applier is a \<open>backend\<close>, because the
  dispatcher is given a Samba one or a macOS one; \<open>samba_backend\<close> is \<^verbatim>\<open>samba/apply.py\<close>'s.

  A method is a function from a run to an answer and the run after it, so a theorem is about requests that do not
  overlap. The threads of the server do not take turns: see \<open>overlapping_adds_lose_one\<close>.
\<close>

subsection \<open>The applier, as the dispatcher sees it\<close>

record share_row =
  sr_share :: obj
  sr_read_only :: bool
  sr_wire :: obj

record served =
  sv_rows :: "share_row list"
  sv_names :: "string list"
  sv_advertising :: bool

type_synonym ('a, 'w) act = "'w \<Rightarrow> 'a res \<times> 'w"

record 'x backend =
  be_plan :: "obj \<Rightarrow> (share_row list, 'x host) act"
  be_apply :: "obj \<Rightarrow> string option \<Rightarrow> (served, 'x host) act"
  be_teardown :: "string option \<Rightarrow> (obj, 'x host) act"
  be_effective :: "((string \<times> string) list, 'x host) act"
  be_unmanaged :: "string list \<Rightarrow> ((string \<times> string) list, 'x host) act"
  be_service :: "(obj, 'x host) act"
  be_make_writable :: "(obj \<Rightarrow> string option \<Rightarrow> (dir_status, 'x host) act) option"
  be_can_sign_in :: "(obj \<Rightarrow> (bool option, 'x host) act) option"
  be_unsupported :: "string list"
  be_only_when_shares_change :: bool

definition samba_row :: "say \<Rightarrow> planned_share \<Rightarrow> share_row" where
  "samba_row say p = \<lparr>sr_share = ps_share p, sr_read_only = ps_read_only p, sr_wire = planned_share_wire say p\<rparr>"

definition samba_apply :: "'x system \<Rightarrow> say \<Rightarrow> applier \<Rightarrow> obj \<Rightarrow> string option \<Rightarrow> (served, 'x host) act" where
  "samba_apply sys say ap config grant h =
     then_do (apply_shares sys ap config h) (\<lambda>report h.
       (Inr \<lparr>sv_rows = map (samba_row say) (ar_shares report), sv_names = ar_served report,
             sv_advertising = ar_advertising report\<rparr>, h))"

definition samba_teardown :: "'x system \<Rightarrow> applier \<Rightarrow> string option \<Rightarrow> (obj, 'x host) act" where
  "samba_teardown sys ap grant h =
     then_do (teardown_shares sys ap h) (\<lambda>report h.
       (Inr [(''smb_conf'', JStr (smb_conf ap)), (''include_removed'', JBool (td_include_removed report)),
             (''smbpal_conf_removed'', JBool (td_conf_removed report))], h))"

definition samba_backend :: "'x system \<Rightarrow> say \<Rightarrow> applier \<Rightarrow> 'x backend" where
  "samba_backend sys say ap =
     \<lparr>be_plan = (\<lambda>config h. (and_then (plan_shares sys config h) (\<lambda>ps. Inr (map (samba_row say) ps)), h)),
      be_apply = samba_apply sys say ap,
      be_teardown = samba_teardown sys ap,
      be_effective = effective_shares (exec_of sys),
      be_unmanaged = unmanaged_shares (exec_of sys),
      be_service = (\<lambda>h. case service_state (exec_of sys) h of (r, h) \<Rightarrow> (and_then r (\<lambda>s. Inr (service_wire s)), h)),
      be_make_writable = None, be_can_sign_in = None, be_unsupported = [], be_only_when_shares_change = False\<rparr>"

definition served_wire :: "served \<Rightarrow> obj" where
  "served_wire s =
     [(''shares'', JList (map (JObj \<circ> sr_wire) (sv_rows s))), (''served'', JList (map JStr (sv_names s))),
      (''advertising'', JBool (sv_advertising s))]"

subsection \<open>The daemon and its run\<close>

text \<open>How an agent is reached: over the link it dialled, or by dialling its socket. \<open>dm_ask\<close> is one exchange with the agent of
  a user, whichever way. \<open>dm_discover\<close>, \<open>dm_list_shares\<close> and \<open>dm_identity\<close> are \<^verbatim>\<open>smbpal/discovery\<close>; \<open>dm_seconds\<close> is the
  number a float's text denotes, \<open>None\<close> for \<open>nan\<close>.\<close>

datatype agents = Linked | Dialled

record 'x daemon =
  dm_system :: "'x system"
  dm_float :: "string \<Rightarrow> string"
  dm_seconds :: "string \<Rightarrow> rat option"
  dm_config :: string
  dm_authoriser :: authoriser
  dm_serving :: bool
  dm_backend :: "'x backend option"
  dm_mounter :: "mounter option"
  dm_agents :: "agents option"
  dm_ask :: "int \<Rightarrow> string \<Rightarrow> obj \<Rightarrow> (json, 'x host) act"
  dm_broadcasts :: bool
  dm_feed :: "'x host feed"
  dm_kernel :: "'x host \<Rightarrow> kernel"
  dm_platform :: string
  dm_version :: string
  dm_pid :: int
  dm_identity :: "'x host \<Rightarrow> obj"
  dm_discover :: "rat \<Rightarrow> (json list, 'x host) act"
  dm_list_shares :: "string \<Rightarrow> string \<Rightarrow> string \<Rightarrow> rat \<Rightarrow> (json list, 'x host) act"
  dm_say :: say
  dm_detail :: "py_error \<Rightarrow> string option"

record 'x run =
  rn_host :: "'x host"
  rn_monitor :: "monitor option"
  rn_links :: links
  rn_pushed :: "obj list"
  rn_audit :: "(string \<times> string \<times> peer) list"

definition on_host :: "('a, 'x host) act \<Rightarrow> ('a, 'x run) act" where
  "on_host act r = (case act (rn_host r) of (v, h) \<Rightarrow> (v, r\<lparr>rn_host := h\<rparr>))"

text \<open>\<open>except SmbpalError\<close>: an error of SMBPal's own is answered with \<open>v\<close>, any other goes on.\<close>

definition recover :: "'a \<Rightarrow> 'a res \<times> 'w \<Rightarrow> 'a res \<times> 'w" where
  "recover v rw =
     (case rw of (Inl e, w) \<Rightarrow> (if is_smbpal_error e then (Inr v, w) else (Inl e, w)) | r \<Rightarrow> r)"

definition loaded :: "'x daemon \<Rightarrow> 'x run \<Rightarrow> obj res" where
  "loaded d r = load_config (dm_float d) (dm_system d) (dm_config d) (rn_host r)"

definition save :: "'x daemon \<Rightarrow> obj \<Rightarrow> (unit, 'x run) act" where
  "save d doc = on_host (save_config (dm_system d) (dm_config d) doc)"

definition audited :: "peer \<Rightarrow> string \<Rightarrow> string \<Rightarrow> 'x run \<Rightarrow> 'x run" where
  "audited peer method subject r = r\<lparr>rn_audit := rn_audit r @ [(method, subject, peer)]\<rparr>"

definition forget_state :: "string \<Rightarrow> 'x run \<Rightarrow> 'x run" where
  "forget_state i r = r\<lparr>rn_monitor := map_option (forget i) (rn_monitor r)\<rparr>"

subsection \<open>Save, then apply\<close>

definition share_applier :: "'x daemon \<Rightarrow> obj \<Rightarrow> obj \<Rightarrow> 'x backend option" where
  "share_applier d previous updated =
     (case dm_backend d of
        None \<Rightarrow> None
      | Some b \<Rightarrow>
          if be_only_when_shares_change b \<and> get previous ''shares'' = get updated ''shares'' then None else Some b)"

definition apply_all ::
    "'x daemon \<Rightarrow> 'x backend option \<Rightarrow> obj \<Rightarrow> string option \<Rightarrow> obj \<Rightarrow> (served option, 'x run) act" where
  "apply_all d applier config grant before_it r =
     then_do (case applier of
                None \<Rightarrow> (Inr None, r)
              | Some b \<Rightarrow> then_do (on_host (be_apply b config grant) r) (\<lambda>s r. (Inr (Some s), r))) (\<lambda>report r.
     then_do (case dm_mounter d of
                None \<Rightarrow> (Inr (), r)
              | Some mo \<Rightarrow>
                  then_do (on_host (apply_mounts (dm_system d) mo config (Some before_it)) r) (\<lambda>_ r. (Inr (), r)))
       (\<lambda>_ r. (Inr report, r)))"

definition commit :: "'x daemon \<Rightarrow> obj \<Rightarrow> obj \<Rightarrow> string option \<Rightarrow> (served option, 'x run) act" where
  "commit d previous updated grant r =
     then_do (save d updated r) (\<lambda>_ r.
       if Option.is_none (dm_backend d) \<and> Option.is_none (dm_mounter d) then (Inr None, r)
       else
         (let applier = share_applier d previous updated in
          case apply_all d applier updated grant previous r of
            (Inr report, r) \<Rightarrow> (Inr report, r)
          | (Inl e, r) \<Rightarrow>
              then_do (save d previous r) (\<lambda>_ r. (Inl e, snd (apply_all d applier previous grant updated r)))))"

definition describe_share :: "'x daemon \<Rightarrow> obj \<Rightarrow> served option \<Rightarrow> obj" where
  "describe_share d share report =
     (case report of
        None \<Rightarrow>
          if Option.is_none (dm_backend d) \<and> Option.is_none (dm_mounter d)
          then with_keys share [(''applied'', JBool False), (''note'', JStr (dm_say d Recorded_only))]
          else share
      | Some s \<Rightarrow>
          (case find (\<lambda>row. get (sr_share row) ''id'' = get share ''id'') (sv_rows s) of
             None \<Rightarrow> share
           | Some row \<Rightarrow> sr_wire row))"

subsection \<open>What is asked of Samba\<close>

definition samba_state :: "'x daemon \<Rightarrow> (obj, 'x run) act" where
  "samba_state d r =
     (case dm_backend d of
        None \<Rightarrow> (Inr [(''unit'', JNull), (''active'', JBool False), (''installed'', JBool False)], r)
      | Some b \<Rightarrow>
          recover [(''unit'', JNull), (''active'', JBool True), (''installed'', JBool True)] (on_host (be_service b) r))"

definition smb_accounts :: "'x daemon \<Rightarrow> (string list option, 'x run) act" where
  "smb_accounts d r =
     recover None (then_do (on_host (list_users (exec_of (dm_system d))) r) (\<lambda>us r. (Inr (Some us), r)))"

definition can_sign_in :: "obj \<Rightarrow> string list option \<Rightarrow> bool option" where
  "can_sign_in share accounts =
     (case accounts of
        None \<Rightarrow> None
      | Some us \<Rightarrow>
          Some (if truthy (get share ''credential_ref'') then text_of share ''credential_ref'' \<in> set us else us \<noteq> []))"

definition configured_names :: "obj \<Rightarrow> string list" where
  "configured_names config = map (\<lambda>s. text_of s ''name'') (records config ''shares'')"

definition share_state :: "share_row \<Rightarrow> (string \<times> string) list option \<Rightarrow> string" where
  "share_state row effective =
     (if \<not> enabled (sr_share row) then ''disabled''
      else case effective of
        None \<Rightarrow> ''unknown''
      | Some served \<Rightarrow>
          if text_of (sr_share row) ''name'' \<in> set (map fst served)
          then (if sr_read_only row then ''read-only'' else ''serving'')
          else ''not served'')"

fun share_rows ::
    "(obj \<Rightarrow> (bool option, 'x host) act) option \<Rightarrow> string list option \<Rightarrow> (string \<times> string) list option
       \<Rightarrow> share_row list \<Rightarrow> (obj list, 'x run) act" where
  "share_rows ask accounts effective [] r = (Inr [], r)"
| "share_rows ask accounts effective (row # rows) r =
     then_do (case ask of
                None \<Rightarrow> (Inr (can_sign_in (sr_share row) accounts), r)
              | Some per_share \<Rightarrow> on_host (per_share (sr_share row)) r) (\<lambda>sign_in r.
     then_do (share_rows ask accounts effective rows r) (\<lambda>later r.
       (Inr (with_keys (sr_wire row)
               [(''can_sign_in'', optional_bool sign_in), (''state'', JStr (share_state row effective))] # later), r)))"

definition unmanaged_row :: "string \<times> string \<Rightarrow> obj" where
  "unmanaged_row s =
     [(''id'', JStr ''-''), (''name'', JStr (fst s)), (''path'', JStr (if snd s = [] then ''?'' else snd s)),
      (''enabled'', JBool True), (''state'', JStr ''unmanaged''), (''managed'', JBool False)]"

definition share_states :: "'x daemon \<Rightarrow> obj \<Rightarrow> (obj list, 'x run) act" where
  "share_states d config r =
     (case dm_backend d of
        None \<Rightarrow> (Inr (map (\<lambda>s. with_keys s [(''state'', JStr ''not applied'')]) (records config ''shares'')), r)
      | Some b \<Rightarrow>
          then_do (recover None (then_do (on_host (be_effective b) r) (\<lambda>served r. (Inr (Some served), r)))) (\<lambda>effective r.
          then_do (case be_can_sign_in b of None \<Rightarrow> smb_accounts d r | Some _ \<Rightarrow> (Inr None, r)) (\<lambda>accounts r.
          then_do (on_host (be_plan b config) r) (\<lambda>planned r.
          then_do (share_rows (be_can_sign_in b) accounts effective planned r) (\<lambda>rows r.
            case effective of
              None \<Rightarrow> (Inr rows, r)
            | Some _ \<Rightarrow>
                then_do (on_host (be_unmanaged b (configured_names config)) r) (\<lambda>others r.
                  (Inr (rows @ map unmanaged_row (sort_key fst others)), r)))))))"

subsection \<open>Methods about shares\<close>

definition share_list :: "'x daemon \<Rightarrow> request \<Rightarrow> peer \<Rightarrow> (json, 'x run) act" where
  "share_list d rq peer r =
     then_do (loaded d r, r) (\<lambda>config r.
       (Inr (case map_of config ''shares'' of None \<Rightarrow> JList [] | Some v \<Rightarrow> v), r))"

text \<open>Samba serves the last of two sections whose names differ in case only.\<close>

definition refuse_to_shadow :: "'x daemon \<Rightarrow> string \<Rightarrow> obj \<Rightarrow> (unit, 'x run) act" where
  "refuse_to_shadow d name config r =
     (case dm_backend d of
        None \<Rightarrow> (Inr (), r)
      | Some b \<Rightarrow>
          then_do (recover [] (on_host (be_unmanaged b (configured_names config)) r)) (\<lambda>others r.
            case find (\<lambda>(existing, _). py_lower existing = py_lower name) others of
              None \<Rightarrow> (Inr (), r)
            | Some (existing, _) \<Rightarrow>
                (Inl (AlreadyExists (''Samba is already serving a share called '' @ repr_str existing
                   @ '' that SMBPal did not create'')), r)))"

definition share_args_of :: "string \<Rightarrow> string \<Rightarrow> obj \<Rightarrow> share_args res" where
  "share_args_of name file params =
     and_then (optional_str params ''id'') (\<lambda>i.
     and_then (optional_flag params ''read_only'' False) (\<lambda>read_only.
     and_then (optional_str params ''credential_ref'') (\<lambda>user.
     and_then (optional_flag params ''enabled'' True) (\<lambda>on.
       Inr \<lparr>sa_name = name, sa_path = file, sa_id = i, sa_read_only = read_only, sa_credential_ref = user,
            sa_enabled = on\<rparr>))))"

definition selinux_of :: "'x daemon \<Rightarrow> string \<Rightarrow> 'x run \<Rightarrow> json" where
  "selinux_of d file r =
     (case unserveable (dm_kernel d (rn_host r)) file of None \<Rightarrow> JNull | Some problem \<Rightarrow> JObj problem)"

definition share_add :: "'x daemon \<Rightarrow> request \<Rightarrow> peer \<Rightarrow> (json, 'x run) act" where
  "share_add d rq peer r =
     then_do (require_str (rq_params rq) ''name'', r) (\<lambda>name r.
     then_do (require_str (rq_params rq) ''path'', r) (\<lambda>file r.
     then_do (loaded d r, r) (\<lambda>previous r.
     then_do (refuse_to_shadow d name previous r) (\<lambda>_ r.
     then_do (share_args_of name file (rq_params rq), r) (\<lambda>args r.
     then_do (add_share previous args, r) (\<lambda>(updated, share) r.
     then_do (commit d previous updated (rq_auth rq) r) (\<lambda>report r.
     let r = audited peer ''share.add'' (text_of share ''id'') r;
         described = describe_share d share report;
         selinux = selinux_of d (text_of share ''path'') r
     in then_do (samba_state d r) (\<lambda>samba r.
       (Inr (JObj (with_keys described [(''samba'', JObj samba), (''selinux'', selinux)])), r)))))))))"

definition share_remove :: "'x daemon \<Rightarrow> request \<Rightarrow> peer \<Rightarrow> (json, 'x run) act" where
  "share_remove d rq peer r =
     then_do (require_str (rq_params rq) ''ref'', r) (\<lambda>ref r.
     then_do (loaded d r, r) (\<lambda>previous r.
     then_do (remove_share previous ref, r) (\<lambda>(updated, share) r.
     then_do (commit d previous updated (rq_auth rq) r) (\<lambda>_ r.
       (Inr (JObj share), audited peer ''share.remove'' (text_of share ''id'') r)))))"

text \<open>\<open>apply\<close> passes no previous configuration: the sweep is over every unit of ours.\<close>

definition apply_everything :: "'x daemon \<Rightarrow> request \<Rightarrow> peer \<Rightarrow> (json, 'x run) act" where
  "apply_everything d rq peer r =
     (case dm_backend d of
        None \<Rightarrow> (Inl (SmbpalError ''this daemon was started with --no-apply''), r)
      | Some b \<Rightarrow>
          then_do (loaded d r, r) (\<lambda>config r.
          then_do (on_host (be_apply b config (rq_auth rq)) r) (\<lambda>report r.
          then_do (case dm_mounter d of
                     None \<Rightarrow> (Inr [], r)
                   | Some mo \<Rightarrow> on_host (apply_mounts (dm_system d) mo config None) r) (\<lambda>conns r.
            (Inr (JObj (served_wire report @ [(''connections'', JList (map (JObj \<circ> planned_connection_wire) conns))])),
             audited peer ''apply'' (nat_str (length (sv_names report)) @ '' share(s), '' @ nat_str (length conns)
               @ '' connection(s)'') r)))))"

definition tear_down :: "'x daemon \<Rightarrow> request \<Rightarrow> peer \<Rightarrow> (json, 'x run) act" where
  "tear_down d rq peer r =
     (if Option.is_none (dm_backend d) \<and> Option.is_none (dm_mounter d)
      then (Inl (SmbpalError ''this daemon was started with --no-apply''), r)
      else
        then_do (case dm_backend d of None \<Rightarrow> (Inr [], r) | Some b \<Rightarrow> on_host (be_teardown b (rq_auth rq)) r) (\<lambda>samba r.
        then_do (case dm_mounter d of None \<Rightarrow> (Inr [], r) | Some mo \<Rightarrow> on_host (teardown_mounts (dm_system d) mo) r) (\<lambda>gone r.
          (Inr (JObj (with_keys samba [(''units_removed'', JList (map JStr gone))])),
           audited peer ''teardown'' (nat_str (length gone) @ '' unit(s)'') r))))"

definition find_share :: "obj \<Rightarrow> string \<Rightarrow> obj res" where
  "find_share config ref =
     (case find (\<lambda>s. get s ''id'' = JStr ref \<or> py_lower (text_of s ''name'') = py_lower ref) (records config ''shares'') of
        None \<Rightarrow> Inl (NotFound (''no share called '' @ repr_str ref))
      | Some share \<Rightarrow> Inr share)"

definition grant_access :: "'x daemon \<Rightarrow> request \<Rightarrow> peer \<Rightarrow> obj \<Rightarrow> obj \<Rightarrow> (json, 'x run) act" where
  "grant_access d rq peer config share r =
     (let sys = dm_system d; done = audited peer ''share.make_writable'' (text_of share ''id'') in
      case Option.bind (dm_backend d) be_make_writable of
        Some widen \<Rightarrow>
          then_do (on_host (widen share (rq_auth rq)) r) (\<lambda>st r.
            (Inr (JObj [(''share'', JObj share), (''directory'', JObj (status_wire (dm_say d) st))]), done r))
      | None \<Rightarrow>
          then_do (serving_identity (accounts_of sys) (text_of share ''credential_ref''), r) (\<lambda>who r.
          then_do (on_host (make_writable (accounts_of sys) (faults_of sys) (text_of share ''path'') who) r) (\<lambda>st r.
          then_do (case dm_backend d of
                     None \<Rightarrow> (Inr (), done r)
                   | Some b \<Rightarrow> then_do (on_host (be_apply b config None) (done r)) (\<lambda>_ r. (Inr (), r))) (\<lambda>_ r.
            (Inr (JObj [(''share'', JObj share), (''directory'', JObj (status_wire (dm_say d) st)),
                        (''note'', JStr (dm_say d Old_sessions_keep_permissions))]), r)))))"

definition share_make_writable :: "'x daemon \<Rightarrow> request \<Rightarrow> peer \<Rightarrow> (json, 'x run) act" where
  "share_make_writable d rq peer r =
     then_do (require_str (rq_params rq) ''ref'', r) (\<lambda>ref r.
     then_do (loaded d r, r) (\<lambda>config r.
     then_do (find_share config ref, r) (\<lambda>share r.
       if \<not> truthy (get share ''credential_ref'')
       then (Inl (InvalidParams (''share '' @ repr (get share ''id'') @ '' has no user assigned'')), r)
       else grant_access d rq peer config share r)))"

end
