(* ===== verification/Connecting.thy ===== *)
theory Connecting
  imports Daemon
begin

text \<open>
  The methods of \<^verbatim>\<open>smbpal/daemon/handlers.py\<close> about connections, and the calls of \<^verbatim>\<open>smbpal/agent/client.py\<close> they make
  when the mounting is done by a user's own agent. An agent's answer is any JSON value: what Python raises on one of the
  wrong shape is written out.
\<close>

subsection \<open>Asking an agent\<close>

text \<open>\<open>result[key]\<close> and \<open>result.get(key, d)\<close>.\<close>

definition item_of :: "json \<Rightarrow> string \<Rightarrow> json res" where
  "item_of v key =
     (case v of
        JObj ob \<Rightarrow> (case map_of ob key of None \<Rightarrow> Inl (KeyError key) | Some w \<Rightarrow> Inr w)
      | _ \<Rightarrow> Inl TypeError)"

definition get_or :: "json \<Rightarrow> string \<Rightarrow> json \<Rightarrow> json res" where
  "get_or v key otherwise =
     (case v of
        JObj ob \<Rightarrow> (case map_of ob key of None \<Rightarrow> Inr otherwise | Some w \<Rightarrow> Inr w)
      | _ \<Rightarrow> Inl AttributeError)"

definition ask_agent :: "'x daemon \<Rightarrow> int \<Rightarrow> string \<Rightarrow> obj \<Rightarrow> (json, 'x run) act" where
  "ask_agent d uid method params = on_host (dm_ask d uid method params)"

definition agent_mount :: "'x daemon \<Rightarrow> int \<Rightarrow> string \<Rightarrow> string option \<Rightarrow> string \<Rightarrow> (string, 'x run) act" where
  "agent_mount d uid url user host r =
     then_do (ask_agent d uid ''agent.mount''
        ([(''url'', JStr url)] @ (if given user then [(''user'', opt_json user)] else [])
         @ (if host = [] then [] else [(''host'', JStr host)])) r) (\<lambda>result r.
       (and_then (item_of result ''mountpoint'') (\<lambda>m. Inr (py_str m)), r))"

definition agent_unmount :: "'x daemon \<Rightarrow> int \<Rightarrow> json \<Rightarrow> string \<Rightarrow> (bool, 'x run) act" where
  "agent_unmount d uid mountpoint url r =
     then_do (ask_agent d uid ''agent.unmount''
        ([(''mountpoint'', mountpoint)] @ (if url = [] then [] else [(''url'', JStr url)])) r) (\<lambda>result r.
       (and_then (get_or result ''unmounted'' (JBool True)) (\<lambda>v. Inr (truthy v)), r))"

definition agent_release :: "'x daemon \<Rightarrow> int \<Rightarrow> string \<Rightarrow> (obj, 'x run) act" where
  "agent_release d uid url r =
     then_do (ask_agent d uid ''agent.release'' [(''url'', JStr url)] r) (\<lambda>result r.
       (Inr (case result of JObj ob \<Rightarrow> ob | _ \<Rightarrow> []), r))"

definition agent_store :: "'x daemon \<Rightarrow> int \<Rightarrow> string \<Rightarrow> string \<Rightarrow> string \<Rightarrow> (string, 'x run) act" where
  "agent_store d uid host account password r =
     then_do (ask_agent d uid ''agent.credential_set''
        [(''host'', JStr host), (''account'', JStr account), (''password'', JStr password)] r) (\<lambda>result r.
       (and_then (item_of result ''outcome'') (\<lambda>v. Inr (py_str v)), r))"

definition agent_forget :: "'x daemon \<Rightarrow> int \<Rightarrow> string \<Rightarrow> string \<Rightarrow> (bool, 'x run) act" where
  "agent_forget d uid host account r =
     then_do (ask_agent d uid ''agent.credential_forget'' [(''host'', JStr host), (''account'', JStr account)] r)
       (\<lambda>result r. (and_then (item_of result ''removed'') (\<lambda>v. Inr (truthy v)), r))"

subsection \<open>Finding and rewriting a record\<close>

definition find_connection :: "obj \<Rightarrow> string \<Rightarrow> obj res" where
  "find_connection config ref =
     (case find (\<lambda>c. get c ''id'' = JStr ref \<or> get c ''mountpoint'' = JStr ref) (records config ''connections'') of
        None \<Rightarrow> Inl (NotFound (''no connection called '' @ repr_str ref))
      | Some c \<Rightarrow> Inr c)"

definition rewrite :: "obj \<Rightarrow> (obj \<Rightarrow> obj) \<Rightarrow> obj" where
  "rewrite config f = AList.update ''connections'' (JList (map (JObj \<circ> f) (records config ''connections''))) config"

definition same_id :: "obj \<Rightarrow> obj \<Rightarrow> bool" where
  "same_id c other = (get c ''id'' = get other ''id'')"

definition replace_connection :: "obj \<Rightarrow> obj \<Rightarrow> obj" where
  "replace_connection config connection = rewrite config (\<lambda>c. if same_id c connection then connection else c)"

definition host_of :: "obj \<Rightarrow> string" where "host_of c = text_of c ''host''"

definition url_of :: "obj \<Rightarrow> string" where "url_of c = smb_url (host_of c) (text_of c ''share'')"

text \<open>\<open>str.casefold\<close> below 256: the small letters, and two of them for the sharp s.\<close>

definition casefold :: "string \<Rightarrow> string" where
  "casefold s = concat (map (\<lambda>c. if code c = 223 then ''ss'' else [lower_char c]) s)"

definition same_credential :: "obj \<Rightarrow> string \<Rightarrow> string \<Rightarrow> bool" where
  "same_credential c host account =
     (casefold (host_of c) = casefold host \<and> get c ''credential_account'' = JStr account)"

definition keychain_mark :: "obj \<Rightarrow> string \<Rightarrow> string \<Rightarrow> string \<Rightarrow> string" where
  "keychain_mark config host account outcome =
     (if outcome = ''created'' then ''created''
      else if list_ex (\<lambda>c. get c ''keychain_credential'' = JStr ''created'' \<and> same_credential c host account)
                (records config ''connections'') then ''created''
      else outcome)"

definition keychain_note :: "'x daemon \<Rightarrow> string \<Rightarrow> string" where
  "keychain_note d outcome = dm_say d (if outcome = ''created'' then Stored_in_keychain else Replaced_in_keychain)"

definition owner_from :: "accounts \<Rightarrow> peer \<Rightarrow> string option" where
  "owner_from acc peer = (if pr_uid peer = 0 then None else by_uid acc (pr_uid peer))"

definition owner_uid :: "accounts \<Rightarrow> obj \<Rightarrow> int option" where
  "owner_uid acc c =
     (case get c ''owner'' of
        JStr who \<Rightarrow> if who = [] then None else map_option fst (by_name acc who)
      | _ \<Rightarrow> None)"

subsection \<open>Adding\<close>

definition connection_list :: "'x daemon \<Rightarrow> request \<Rightarrow> peer \<Rightarrow> (json, 'x run) act" where
  "connection_list d rq peer r =
     then_do (loaded d r, r) (\<lambda>config r.
       (Inr (case map_of config ''connections'' of None \<Rightarrow> JList [] | Some v \<Rightarrow> v), r))"

definition connection_args_of :: "'x daemon \<Rightarrow> peer \<Rightarrow> obj \<Rightarrow> 'x run \<Rightarrow> connection_args res" where
  "connection_args_of d peer params r =
     and_then (require_str params ''host'') (\<lambda>host.
     and_then (require_str params ''share'') (\<lambda>share.
     and_then (optional_str params ''mountpoint'') (\<lambda>mountpoint.
     and_then (optional_str params ''id'') (\<lambda>i.
     and_then (optional_str params ''credential_ref'') (\<lambda>ref.
     and_then (optional_str params ''auto_connect'') (\<lambda>auto.
     and_then (optional_str params ''owner'') (\<lambda>owner.
     and_then (optional_str params ''fallback_host'') (\<lambda>fallback.
       Inr \<lparr>ca_host = host, ca_share = share, ca_mountpoint = mountpoint, ca_id = i, ca_credential_ref = ref,
            ca_auto_connect = (case auto of Some a \<Rightarrow> if a = [] then ''on_this_network'' else a | None \<Rightarrow> ''on_this_network''),
            ca_owner = or_str owner (owner_from (accounts_of (dm_system d)) peer),
            ca_fallback_host = fallback,
            ca_in_use = (case dm_mounter d of None \<Rightarrow> [] | Some _ \<Rightarrow> occupied_mountpoints (mountinfo (rn_host r))),
            ca_style = Some (platform_style (Some (dm_platform d)))\<rparr>))))))))"

text \<open>The user name and the password that came with a connection: both or neither.\<close>

definition password_given :: "obj \<Rightarrow> (string \<times> string) option res" where
  "password_given params =
     and_then (optional_str params ''username'') (\<lambda>username.
       if \<not> given username then Inr None
       else case (username, non_empty_str (get params ''password'')) of
         (Some u, Some pw) \<Rightarrow> Inr (Some (u, pw))
       | _ \<Rightarrow> Inl (InvalidParams (quote1 # ''password'' @ quote1 # '' is required with '' @ quote1 # ''username'' @ [quote1])))"

record stored =
  st_config :: obj
  st_connection :: obj
  st_answer :: "obj option"
  st_file :: "string option"

definition store_with_agent ::
    "'x daemon \<Rightarrow> peer \<Rightarrow> obj \<Rightarrow> obj \<Rightarrow> obj \<Rightarrow> string \<times> string \<Rightarrow> (stored, 'x run) act" where
  "store_with_agent d peer previous updated connection up r =
     then_do (agent_store d (pr_uid peer) (host_of connection) (fst up) (snd up) r) (\<lambda>outcome r.
       let mark = keychain_mark previous (host_of connection) (fst up) outcome;
           c = with_keys connection [(''credential_account'', JStr (fst up)), (''keychain_credential'', JStr mark)]
       in (Inr \<lparr>st_config = replace_connection updated c, st_connection = c,
                st_answer = Some [(''username'', JStr (fst up)), (''keychain'', JStr mark),
                                  (''note'', JStr (keychain_note d mark))],
                st_file = None\<rparr>, r))"

definition store_in_file ::
    "'x daemon \<Rightarrow> obj \<Rightarrow> obj \<Rightarrow> obj \<Rightarrow> string \<times> string \<Rightarrow> (stored, 'x run) act" where
  "store_in_file d params updated connection up r =
     (case dm_mounter d of
        None \<Rightarrow> (Inl (SmbpalError (''this daemon was started with --no-apply, so it has nowhere to store a password; ''
                  @ ''nothing was added'')), r)
      | Some mo \<Rightarrow>
          (let ref = (if truthy (get connection ''credential_ref'') then text_of connection ''credential_ref''
                      else text_of connection ''id'');
               c = with_keys connection [(''credential_ref'', JStr ref)]
           in then_do (optional_str params ''domain'', r) (\<lambda>domain r.
              then_do (on_host (write_credentials (dm_system d) (credentials_dir mo) ref (fst up) (snd up) domain) r) (\<lambda>_ r.
                (Inr \<lparr>st_config = replace_connection updated c, st_connection = c,
                      st_answer = Some [(''username'', JStr (fst up))], st_file = Some ref\<rparr>, r)))))"

definition store_password ::
    "'x daemon \<Rightarrow> peer \<Rightarrow> obj \<Rightarrow> obj \<Rightarrow> obj \<Rightarrow> obj \<Rightarrow> (string \<times> string) option \<Rightarrow> (stored, 'x run) act" where
  "store_password d peer params previous updated connection up r =
     (case up of
        None \<Rightarrow> (Inr \<lparr>st_config = updated, st_connection = connection, st_answer = None, st_file = None\<rparr>, r)
      | Some up \<Rightarrow>
          if dm_agents d = None then store_in_file d params updated connection up r
          else store_with_agent d peer previous updated connection up r)"

definition forget_credentials :: "'x daemon \<Rightarrow> string \<Rightarrow> (unit, 'x run) act" where
  "forget_credentials d ref r =
     (case dm_mounter d of
        None \<Rightarrow> (Inr (), r)
      | Some mo \<Rightarrow> on_host (remove_credentials (dm_system d) (credentials_dir mo) ref) r)"

text \<open>A commit that fails takes the password file it wrote with it.\<close>

definition commit_or_forget :: "'x daemon \<Rightarrow> obj \<Rightarrow> stored \<Rightarrow> (unit, 'x run) act" where
  "commit_or_forget d previous s r =
     (case commit d previous (st_config s) None r of
        (Inr _, r) \<Rightarrow> (Inr (), r)
      | (Inl e, r) \<Rightarrow>
          (case st_file s of
             None \<Rightarrow> (Inl e, r)
           | Some ref \<Rightarrow> then_do (forget_credentials d ref r) (\<lambda>_ r. (Inl e, r))))"

definition connection_add :: "'x daemon \<Rightarrow> request \<Rightarrow> peer \<Rightarrow> (json, 'x run) act" where
  "connection_add d rq peer r =
     then_do (loaded d r, r) (\<lambda>previous r.
     then_do (connection_args_of d peer (rq_params rq) r, r) (\<lambda>args r.
     then_do (add_connection previous args, r) (\<lambda>(updated, connection) r.
     then_do (password_given (rq_params rq), r) (\<lambda>up r.
     then_do (store_password d peer (rq_params rq) previous updated connection up r) (\<lambda>s r.
     then_do (commit_or_forget d previous s r) (\<lambda>_ r.
       let c = st_connection s; i = text_of c ''id''
       in (Inr (JObj (case st_answer s of None \<Rightarrow> c | Some a \<Rightarrow> with_keys c [(''credentials'', JObj a)])),
           audited peer ''connection.add'' i (forget_state i r))))))))"

subsection \<open>Removing\<close>

text \<open>The values a Python \<open>for\<close> loop runs over.\<close>

definition iterated :: "json \<Rightarrow> json list res" where
  "iterated v =
     (case v of
        JList vs \<Rightarrow> Inr vs
      | JStr s \<Rightarrow> Inr (map (\<lambda>c. JStr [c]) s)
      | JObj ob \<Rightarrow> Inr (map (JStr \<circ> fst) ob)
      | _ \<Rightarrow> Inl TypeError)"

definition left_note :: "'x daemon \<Rightarrow> string \<Rightarrow> json \<Rightarrow> json res" where
  "left_note d share left =
     and_then (get_or left ''mountpoint'' (JStr [])) (\<lambda>place.
     and_then (get_or left ''reason'' JNull) (\<lambda>reason.
       Inr (JStr (dm_say d ((if reason = JStr ''busy'' then Still_in_use else Not_mounted_by_us) share (py_str place))))))"

definition release_answer :: "'x daemon \<Rightarrow> string \<Rightarrow> obj \<Rightarrow> obj res" where
  "release_answer d share released =
     and_then (iterated (case map_of released ''left'' of None \<Rightarrow> JList [] | Some v \<Rightarrow> v)) (\<lambda>left.
     and_then (map_res (left_note d share) left) (\<lambda>notes.
     and_then (iterated (case map_of released ''unmounted'' of None \<Rightarrow> JList [] | Some v \<Rightarrow> v)) (\<lambda>gone.
       Inr [(''unmounted'', JList gone), (''notes'', JList notes)])))"

definition release_mounts :: "'x daemon \<Rightarrow> obj \<Rightarrow> peer \<Rightarrow> (obj, 'x run) act" where
  "release_mounts d connection peer r =
     (let share = py_str (get connection ''share'') in
      case agent_release d (pr_uid peer) (url_of connection) r of
        (Inl e, r) \<Rightarrow>
          if is_smbpal_error e
          then (Inr [(''unmounted'', JList []),
                     (''notes'', JList [JStr (dm_say d (Not_unmounted share (error_message e)))])], r)
          else (Inl e, r)
      | (Inr released, r) \<Rightarrow> (release_answer d share released, r))"

definition sharing_item :: "obj \<Rightarrow> obj \<Rightarrow> obj list" where
  "sharing_item updated connection =
     (if truthy (get connection ''credential_account'')
      then filter (\<lambda>c. same_credential c (host_of connection) (text_of connection ''credential_account''))
             (records updated ''connections'')
      else [])"

definition created_by_us :: "obj \<Rightarrow> bool" where
  "created_by_us c = (get c ''keychain_credential'' = JStr ''created'')"

text \<open>The mark that says the Keychain item is ours to remove goes to the connections that still use it.\<close>

definition hand_on_mark :: "obj \<Rightarrow> obj \<Rightarrow> obj" where
  "hand_on_mark updated connection =
     (let sharing = sharing_item updated connection in
      if created_by_us connection \<and> sharing \<noteq> []
      then rewrite updated (\<lambda>c. if c \<in> set sharing then with_keys c [(''keychain_credential'', JStr ''created'')] else c)
      else updated)"

definition forget_item :: "'x daemon \<Rightarrow> peer \<Rightarrow> obj \<Rightarrow> obj \<Rightarrow> (unit, 'x run) act" where
  "forget_item d peer updated connection r =
     (if dm_agents d \<noteq> None \<and> created_by_us connection \<and> truthy (get connection ''credential_account'')
           \<and> sharing_item updated connection = []
      then then_do (agent_forget d (pr_uid peer) (host_of connection) (text_of connection ''credential_account'') r)
             (\<lambda>_ r. (Inr (), r))
      else (Inr (), r))"

definition forget_file :: "'x daemon \<Rightarrow> obj \<Rightarrow> (unit, 'x run) act" where
  "forget_file d connection r =
     (if truthy (get connection ''credential_ref'') then forget_credentials d (text_of connection ''credential_ref'') r
      else (Inr (), r))"

definition connection_remove :: "'x daemon \<Rightarrow> request \<Rightarrow> peer \<Rightarrow> (json, 'x run) act" where
  "connection_remove d rq peer r =
     then_do (require_str (rq_params rq) ''ref'', r) (\<lambda>ref r.
     then_do (loaded d r, r) (\<lambda>previous r.
     then_do (remove_connection previous ref, r) (\<lambda>(updated, connection) r.
     then_do (commit d previous (hand_on_mark updated connection) None r) (\<lambda>_ r.
     then_do (forget_file d connection r) (\<lambda>_ r.
     then_do (forget_item d peer updated connection r) (\<lambda>_ r.
     let i = text_of connection ''id''; r = audited peer ''connection.remove'' i (forget_state i r)
     in if dm_agents d = None then (Inr (JObj connection), r)
        else then_do (release_mounts d connection peer r) (\<lambda>what r.
               (Inr (JObj (with_keys connection what)), r))))))))"

subsection \<open>Passwords\<close>

definition store_in_keychain :: "'x daemon \<Rightarrow> peer \<Rightarrow> string \<Rightarrow> string \<Rightarrow> string \<Rightarrow> (json, 'x run) act" where
  "store_in_keychain d peer ref username password r =
     then_do (loaded d r, r) (\<lambda>previous r.
     then_do (find_connection previous ref, r) (\<lambda>connection r.
     then_do (agent_store d (pr_uid peer) (host_of connection) username password r) (\<lambda>outcome r.
     let mark = keychain_mark previous (host_of connection) username outcome;
         i = text_of connection ''id'';
         updated = rewrite previous (\<lambda>c. if same_id c connection
                     then with_keys c [(''credential_account'', JStr username), (''keychain_credential'', JStr mark)] else c)
     in then_do (save d updated r) (\<lambda>_ r.
          (Inr (JObj [(''id'', get connection ''id''), (''username'', JStr username), (''keychain'', JStr mark),
                      (''note'', JStr (keychain_note d mark))]),
           audited peer ''connection.set_credentials'' i (forget_state i r))))))"

definition store_for_cifs ::
    "'x daemon \<Rightarrow> mounter \<Rightarrow> request \<Rightarrow> peer \<Rightarrow> string \<Rightarrow> string \<Rightarrow> string \<Rightarrow> (json, 'x run) act" where
  "store_for_cifs d mo rq peer ref username password r =
     then_do (loaded d r, r) (\<lambda>previous r.
     then_do (find_connection previous ref, r) (\<lambda>connection r.
     then_do (optional_str (rq_params rq) ''domain'', r) (\<lambda>domain r.
     let name = (if truthy (get connection ''credential_ref'') then text_of connection ''credential_ref''
                 else text_of connection ''id'');
         i = text_of connection ''id''
     in then_do (on_host (write_credentials (dm_system d) (credentials_dir mo) name username password domain) r) (\<lambda>_ r.
        then_do (commit d previous (rewrite previous (\<lambda>c. if same_id c connection
                   then with_keys c [(''credential_ref'', JStr name)] else c)) None r) (\<lambda>_ r.
          (Inr (JObj [(''id'', get connection ''id''), (''username'', JStr username)]),
           audited peer ''connection.set_credentials'' i (forget_state i r)))))))"

definition password_required :: py_error where
  "password_required = InvalidParams (quote1 # ''password'' @ quote1 # '' is required and must be a non-empty string'')"

definition set_credentials :: "'x daemon \<Rightarrow> request \<Rightarrow> peer \<Rightarrow> (json, 'x run) act" where
  "set_credentials d rq peer r =
     then_do (require_str (rq_params rq) ''ref'', r) (\<lambda>ref r.
     then_do (require_str (rq_params rq) ''username'', r) (\<lambda>username r.
       case non_empty_str (get (rq_params rq) ''password'') of
         None \<Rightarrow> (Inl password_required, r)
       | Some password \<Rightarrow>
           if dm_agents d \<noteq> None then store_in_keychain d peer ref username password r
           else case dm_mounter d of
             None \<Rightarrow> (Inl (SmbpalError ''this daemon was started with --no-apply''), r)
           | Some mo \<Rightarrow> store_for_cifs d mo rq peer ref username password r))"

definition swapped :: "obj \<Rightarrow> obj" where
  "swapped c = with_keys c [(''host'', get c ''fallback_host''), (''fallback_host'', get c ''host'')]"

definition use_fallback :: "'x daemon \<Rightarrow> request \<Rightarrow> peer \<Rightarrow> (json, 'x run) act" where
  "use_fallback d rq peer r =
     then_do (require_str (rq_params rq) ''ref'', r) (\<lambda>ref r.
     then_do (loaded d r, r) (\<lambda>previous r.
     then_do (find_connection previous ref, r) (\<lambda>connection r.
       if \<not> truthy (get connection ''fallback_host'')
       then (Inl (InvalidParams (''connection '' @ repr (get connection ''id'') @ '' has no recorded fallback address'')), r)
       else then_do (commit d previous (replace_connection previous (swapped connection)) None r) (\<lambda>_ r.
              (Inr (JObj (swapped connection)), audited peer ''connection.use_fallback'' (text_of connection ''id'') r)))))"

subsection \<open>Connecting\<close>

definition unit_for :: "'x daemon \<Rightarrow> request \<Rightarrow> 'x run \<Rightarrow> (obj \<times> string) res" where
  "unit_for d rq r =
     (if dm_mounter d = None then Inl (SmbpalError ''this daemon was started with --no-apply'')
      else and_then (loaded d r) (\<lambda>config.
           and_then (require_str (rq_params rq) ''ref'') (\<lambda>ref.
           and_then (find_connection config ref) (\<lambda>c. Inr (c, mount_unit_name c)))))"

definition connection_for :: "'x daemon \<Rightarrow> request \<Rightarrow> 'x run \<Rightarrow> obj res" where
  "connection_for d rq r =
     and_then (loaded d r) (\<lambda>config. and_then (require_str (rq_params rq) ''ref'') (\<lambda>ref. find_connection config ref))"

definition account_for :: "obj \<Rightarrow> string option" where
  "account_for c =
     (if truthy (get c ''credential_account'') then Some (text_of c ''credential_account'') else None)"

definition without_key :: "string \<Rightarrow> obj \<Rightarrow> obj" where "without_key k ob = AList.delete k ob"

text \<open>A disconnect is recorded where the agent's loop reads it; a reconnect takes the key away again.\<close>

definition mark_disconnected :: "bool \<Rightarrow> obj \<Rightarrow> obj" where
  "mark_disconnected v c =
     (if truthy (get c ''disconnected'') = v then c
      else without_key ''disconnected'' c @ (if v then [(''disconnected'', JBool True)] else []))"

definition set_disconnected :: "'x daemon \<Rightarrow> obj \<Rightarrow> bool \<Rightarrow> (unit, 'x run) act" where
  "set_disconnected d connection v r =
     then_do (loaded d r, r) (\<lambda>previous r.
       if list_ex (\<lambda>c. same_id c connection \<and> truthy (get c ''disconnected'') \<noteq> v) (records previous ''connections'')
       then save d (rewrite previous (\<lambda>c. if same_id c connection then mark_disconnected v c else c)) r
       else (Inr (), r))"

definition record_landing :: "'x daemon \<Rightarrow> obj \<Rightarrow> string \<Rightarrow> (obj, 'x run) act" where
  "record_landing d connection landed r =
     (if get connection ''mountpoint'' = JStr landed then (Inr [], r)
      else then_do (loaded d r, r) (\<lambda>previous r.
           then_do (save d (rewrite previous (\<lambda>c. if same_id c connection
                       then with_keys c [(''mountpoint'', JStr landed)] else c)) r) (\<lambda>_ r.
             (Inr [(''asked_for'', get connection ''mountpoint''),
                   (''note'', JStr (dm_say d (Landed_elsewhere landed (py_str (get connection ''mountpoint'')))))], r))))"

definition connect_via_agent :: "'x daemon \<Rightarrow> request \<Rightarrow> peer \<Rightarrow> (json, 'x run) act" where
  "connect_via_agent d rq peer r =
     then_do (connection_for d rq r, r) (\<lambda>connection r.
     then_do (agent_mount d (pr_uid peer) (url_of connection) (account_for connection) (host_of connection) r) (\<lambda>landed r.
     then_do (set_disconnected d connection False (audited peer ''connection.connect'' (text_of connection ''id'') r)) (\<lambda>_ r.
     then_do (record_landing d connection landed r) (\<lambda>more r.
       (Inr (JObj (with_keys [(''id'', get connection ''id''), (''url'', JStr (url_of connection)),
                              (''mountpoint'', JStr landed)] more)), r)))))"

definition disconnect_via_agent :: "'x daemon \<Rightarrow> request \<Rightarrow> peer \<Rightarrow> (json, 'x run) act" where
  "disconnect_via_agent d rq peer r =
     then_do (connection_for d rq r, r) (\<lambda>connection r.
     then_do (agent_unmount d (pr_uid peer) (get connection ''mountpoint'') (url_of connection) r) (\<lambda>unmounted r.
     then_do (set_disconnected d connection True (audited peer ''connection.disconnect'' (text_of connection ''id'') r)) (\<lambda>_ r.
       (Inr (JObj [(''id'', get connection ''id''), (''mountpoint'', get connection ''mountpoint''),
                   (''unmounted'', JBool unmounted),
                   (''note'', JStr (dm_say d (if unmounted then Will_not_mount_again else Nothing_was_mounted)))]), r))))"

definition connection_connect :: "'x daemon \<Rightarrow> request \<Rightarrow> peer \<Rightarrow> (json, 'x run) act" where
  "connection_connect d rq peer r =
     (if dm_agents d \<noteq> None then connect_via_agent d rq peer r
      else
        then_do (unit_for d rq r, r) (\<lambda>(connection, unit) r.
        then_do (on_host (reset_failed (exec_of (dm_system d)) unit) r) (\<lambda>_ r.
        then_do (on_host (start (exec_of (dm_system d)) True unit) r) (\<lambda>_ r.
          (Inr (JObj [(''id'', get connection ''id''), (''unit'', JStr unit)]),
           audited peer ''connection.connect'' (text_of connection ''id'') r)))))"

definition connection_disconnect :: "'x daemon \<Rightarrow> request \<Rightarrow> peer \<Rightarrow> (json, 'x run) act" where
  "connection_disconnect d rq peer r =
     (if dm_agents d \<noteq> None then disconnect_via_agent d rq peer r
      else
        then_do (unit_for d rq r, r) (\<lambda>(connection, unit) r.
        then_do (on_host (stop (exec_of (dm_system d)) unit) r) (\<lambda>_ r.
          (Inr (JObj [(''id'', get connection ''id''), (''unit'', JStr unit),
                      (''note'', JStr (dm_say d Will_mount_again))]),
           audited peer ''connection.disconnect'' (text_of connection ''id'') r))))"

subsection \<open>What the agents say\<close>

definition no_report :: "string \<Rightarrow> obj \<Rightarrow> obj" where
  "no_report text c =
     [(''id'', get c ''id''), (''state'', JStr ''unknown''), (''message'', JStr text), (''retryable'', JBool False),
      (''mountpoint'', JNull)]"

definition agent_report :: "'x daemon \<Rightarrow> links \<Rightarrow> obj \<Rightarrow> obj" where
  "agent_report d l c =
     (let uid = owner_uid (accounts_of (dm_system d)) c;
          reported = Option.bind uid (\<lambda>u. agent_state_for u (text_of c ''id'') l)
      in case reported of
           Some row \<Rightarrow> row
         | None \<Rightarrow>
             if (case uid of None \<Rightarrow> False | Some u \<Rightarrow> agent_connected u l) then no_report (dm_say d Not_checked_yet) c
             else no_report (dm_say d (Agent_not_connected
                    (if truthy (get c ''owner'') then text_of c ''owner'' else ''its owner''))) c)"

definition agent_row :: "'x daemon \<Rightarrow> links \<Rightarrow> obj \<Rightarrow> obj" where
  "agent_row d l c =
     (let reported = agent_report d l c
      in with_keys c (reported_wire reported
           @ [(''mountpoint'', if truthy (get reported ''mountpoint'') then get reported ''mountpoint'' else get c ''mountpoint'')]))"

definition agent_rows :: "'x daemon \<Rightarrow> links \<Rightarrow> obj \<Rightarrow> obj list" where
  "agent_rows d l config = map (agent_row d l) (records config ''connections'')"

definition push_state :: "'x daemon \<Rightarrow> obj option \<Rightarrow> obj \<Rightarrow> 'x run \<Rightarrow> 'x run" where
  "push_state d previous row r =
     (if \<not> dm_broadcasts d then r
      else r\<lparr>rn_pushed := rn_pushed r @
             [with_keys (reported_wire row)
                [(''previous'', case previous of None \<Rightarrow> JNull | Some p \<Rightarrow> get p ''state''),
                 (''mountpoint'', get row ''mountpoint'')]]\<rparr>)"

definition owned_by :: "'x daemon \<Rightarrow> int \<Rightarrow> obj \<Rightarrow> (string \<times> obj) list" where
  "owned_by d uid config =
     fold (\<lambda>c. AList.update (text_of c ''id'') c)
       (filter (\<lambda>c. owner_uid (accounts_of (dm_system d)) c = Some uid) (records config ''connections'')) []"

definition accepted_rows :: "(string \<times> obj) list \<Rightarrow> json list \<Rightarrow> obj list" where
  "accepted_rows owned rows =
     filter (\<lambda>row. map_of owned (text_of row ''id'') \<noteq> None) (List.map_filter clean_state rows)"

definition agent_state :: "'x daemon \<Rightarrow> request \<Rightarrow> connection \<Rightarrow> (json, 'x run) act" where
  "agent_state d rq c r =
     (if \<not> is_registered c (rn_links r)
      then (Inl (NotPermitted ''only a registered agent reports connection state''), r)
      else case get (rq_params rq) ''states'' of
        JList rows \<Rightarrow>
          then_do (loaded d r, r) (\<lambda>config r.
            let owned = owned_by d (conn_uid c) config;
                accepted = accepted_rows owned rows;
                (changes, l) = set_states (conn_uid c) accepted (rn_links r);
                push = (\<lambda>(previous, current). push_state d previous
                          (with_keys (case map_of owned (text_of current ''id'') of None \<Rightarrow> [] | Some o' \<Rightarrow> o') current))
            in (Inr (JObj [(''accepted'', JInt (int (length accepted)))]), fold push changes (r\<lparr>rn_links := l\<rparr>)))
      | _ \<Rightarrow> (Inl (InvalidParams ''states must be a list''), r))"

definition agent_link :: "'x daemon \<Rightarrow> request \<Rightarrow> connection \<Rightarrow> (json, 'x run) act" where
  "agent_link d rq c r =
     (if dm_agents d \<noteq> Some Linked
      then (Inl (NotSupported (rq_method rq @ '' is for the macOS agent, and this daemon does not mount through one'')), r)
      else if rq_method rq = ''agent.register''
      then (Inr (JObj [(''uid'', JInt (conn_uid c))]),
            audited (cn_peer c) ''agent.register'' (int_str (conn_uid c)) (r\<lparr>rn_links := Links.register c (rn_links r)\<rparr>))
      else if rq_method rq = ''agent.state'' then agent_state d rq c r
      else case reply_to c (rq_params rq) (rn_links r) of
        (res, l) \<Rightarrow> (and_then res (\<lambda>_. Inr (JObj [])), r\<lparr>rn_links := l\<rparr>))"

text \<open>The hook the transport calls when a connection closes.\<close>

definition disconnected :: "'x daemon \<Rightarrow> connection \<Rightarrow> (unit, 'x run) act" where
  "disconnected d c r =
     (if dm_agents d \<noteq> Some Linked then (Inr (), r)
      else case drop_link c (rn_links r) of
        (gone, l) \<Rightarrow>
          (let r = r\<lparr>rn_links := l\<rparr> in
           if gone = [] then (Inr (), r)
           else then_do (loaded d r, r) (\<lambda>config r.
             (Inr (), fold (\<lambda>uid. fold (push_state d None)
                (filter (\<lambda>row. owner_uid (accounts_of (dm_system d)) row = Some uid) (agent_rows d l config))) gone r))))"

end
