(* ===== verification/Dispatch.thy ===== *)
theory Dispatch
  imports Connecting
begin

text \<open>
  The rest of the methods of \<^verbatim>\<open>smbpal/daemon/handlers.py\<close>, the table of them, and \<open>handle\<close>: a frame in, a frame out,
  and the order in which a request is refused.
\<close>

subsection \<open>Status\<close>

text \<open>What the unit directory holds, as the survey reads it.\<close>

definition unit_listing :: "'x system \<Rightarrow> mounter \<Rightarrow> 'x host \<Rightarrow> unit_files option res" where
  "unit_listing sys mo h =
     (let dir = components (unit_dir mo) in
      case is_dir_at (faults_of sys) dir h of
        Inl _ \<Rightarrow> Inl OSError
      | Inr there \<Rightarrow>
          if \<not> there then Inr None
          else (case faults_of sys (List_dir dir) h of
                  Some _ \<Rightarrow> Inl OSError
                | None \<Rightarrow> Inr (Some (map (\<lambda>n. (n, unit_text sys mo n h)) (names_in dir h)))))"

definition unaccounted :: "'x daemon \<Rightarrow> obj \<Rightarrow> 'x run \<Rightarrow> obj list res" where
  "unaccounted d config r =
     (case dm_mounter d of
        None \<Rightarrow> Inr []
      | Some mo \<Rightarrow>
          and_then (unit_listing (dm_system d) mo (rn_host r)) (\<lambda>dir.
            Inr (map (finding_wire (dm_say d)) (survey config dir (mountinfo (rn_host r))))))"

text \<open>The monitor's view of a connection, put over the plan's.\<close>

definition monitored_row :: "'x daemon \<Rightarrow> monitor \<Rightarrow> obj \<Rightarrow> obj" where
  "monitored_row d m row =
     (case Monitor.state_for m (text_of row ''id'') of
        None \<Rightarrow> row
      | Some st \<Rightarrow>
          with_keys row
            ([(''state'', JStr (state_word (cs_state st))), (''message'', JStr (dm_say d (State_says (cs_message st)))),
              (''errno'', errno_json (cs_errno st)), (''read_only'', JBool (cs_read_only st)),
              (''is_problem'', JBool (is_problem st))]
             @ (case fallback_hint row st of None \<Rightarrow> [] | Some t \<Rightarrow> [(''hint'', JStr (dm_say d (Hint_says t)))])))"

definition connection_states :: "'x daemon \<Rightarrow> obj \<Rightarrow> 'x run \<Rightarrow> obj list res" where
  "connection_states d config r =
     (case dm_mounter d of
        None \<Rightarrow>
          if dm_agents d = Some Linked then Inr (agent_rows d (rn_links r) config)
          else Inr (map (\<lambda>c. with_keys c [(''state'', JStr ''not applied'')]) (records config ''connections''))
      | Some mo \<Rightarrow>
          and_then (plan_mounts (dm_system d) mo config (rn_host r)) (\<lambda>planned.
            let rows = map planned_connection_wire planned
            in Inr (case rn_monitor r of None \<Rightarrow> rows | Some m \<Rightarrow> map (monitored_row d m) rows)))"

definition selinux_problems :: "'x daemon \<Rightarrow> obj \<Rightarrow> 'x run \<Rightarrow> json list" where
  "selinux_problems d config r =
     List.map_filter (\<lambda>s. if truthy (get s ''path'')
        then map_option JObj (unserveable (dm_kernel d (rn_host r)) (text_of s ''path'')) else None)
       (records config ''shares'')"

definition daemon_wire :: "'x daemon \<Rightarrow> obj" where
  "daemon_wire d =
     [(''version'', JStr (dm_version d)), (''protocol'', JInt PROTOCOL_VERSION), (''pid'', JInt (dm_pid d)),
      (''config'', JStr (dm_config d)), (''applying'', JBool (\<not> Option.is_none (dm_backend d)))]"

definition status :: "'x daemon \<Rightarrow> request \<Rightarrow> peer \<Rightarrow> (json, 'x run) act" where
  "status d rq peer r =
     then_do (loaded d r, r) (\<lambda>config r.
     let host = dm_identity d (rn_host r) in
     then_do (share_states d config r) (\<lambda>shares r.
     then_do (samba_state d r) (\<lambda>samba r.
     let selinux = selinux_problems d config r in
     then_do (connection_states d config r, r) (\<lambda>connections r.
     then_do (unaccounted d config r, r) (\<lambda>others r.
       (Inr (JObj [(''daemon'', JObj (daemon_wire d)), (''host'', JObj host), (''shares'', JList (map JObj shares)),
                   (''samba'', JObj samba), (''selinux'', JList selinux),
                   (''connections'', JList (map JObj connections)), (''unaccounted'', JList (map JObj others))]), r))))))"

definition connection_live :: "'x daemon \<Rightarrow> request \<Rightarrow> peer \<Rightarrow> (json, 'x run) act" where
  "connection_live d rq peer r =
     then_do (loaded d r, r) (\<lambda>config r.
     then_do (unaccounted d config r, r) (\<lambda>found r. (Inr (JList (map JObj found)), r)))"

definition connection_watch :: "'x daemon \<Rightarrow> request \<Rightarrow> peer \<Rightarrow> (json, 'x run) act" where
  "connection_watch d rq peer r =
     (case rn_monitor r of
        Some m \<Rightarrow> (Inr (JList (map (JObj \<circ> monitor_wire (dm_say d)) (snapshot m))), r)
      | None \<Rightarrow>
          if dm_agents d = Some Linked
          then then_do (loaded d r, r) (\<lambda>config r.
                 (Inr (JList (map (JObj \<circ> reported_wire) (agent_rows d (rn_links r) config))), r))
          else (Inl (SmbpalError ''this daemon is not watching connection state''), r))"

subsection \<open>SMB accounts\<close>

definition credential_list :: "'x daemon \<Rightarrow> request \<Rightarrow> peer \<Rightarrow> (json, 'x run) act" where
  "credential_list d rq peer r =
     then_do (on_host (list_users (exec_of (dm_system d))) r) (\<lambda>us r. (Inr (JList (map JStr us)), r))"

definition credential_set :: "'x daemon \<Rightarrow> request \<Rightarrow> peer \<Rightarrow> (json, 'x run) act" where
  "credential_set d rq peer r =
     then_do (require_str (rq_params rq) ''username'', r) (\<lambda>username r.
       case non_empty_str (get (rq_params rq) ''password'') of
         None \<Rightarrow> (Inl password_required, r)
       | Some password \<Rightarrow>
           then_do (on_host (set_password (accounts_of (dm_system d)) (dm_feed d) username password) r) (\<lambda>_ r.
             (Inr (JObj [(''username'', JStr username)]), audited peer ''credential.set'' username r)))"

definition credential_remove :: "'x daemon \<Rightarrow> request \<Rightarrow> peer \<Rightarrow> (json, 'x run) act" where
  "credential_remove d rq peer r =
     then_do (require_str (rq_params rq) ''username'', r) (\<lambda>username r.
     then_do (on_host (remove_user (exec_of (dm_system d)) username) r) (\<lambda>_ r.
       (Inr (JObj [(''username'', JStr username)]), audited peer ''credential.remove'' username r)))"

subsection \<open>Discovery\<close>

text \<open>A number of seconds held between 1 and 30. \<open>float\<close> of an integer fails from where doubles end; \<open>nan\<close> is not smaller
  than 30 and 1 is not smaller than it, so \<open>min\<close> and \<open>max\<close> make it 1.\<close>

definition held_between :: "rat \<Rightarrow> rat" where "held_between x = max 1 (min x 30)"

definition timeout_of :: "'x daemon \<Rightarrow> obj \<Rightarrow> rat res" where
  "timeout_of d params =
     (case map_of params ''timeout'' of
        None \<Rightarrow> Inr 5
      | Some (JInt i) \<Rightarrow> if 2 ^ 1024 - 2 ^ 970 \<le> \<bar>i\<bar> then Inl OverflowError else Inr (held_between (of_int i))
      | Some (JFloat t) \<Rightarrow> Inr (case dm_seconds d t of None \<Rightarrow> 1 | Some x \<Rightarrow> held_between x)
      | Some _ \<Rightarrow> Inl (InvalidParams (quote1 # ''timeout'' @ quote1 # '' must be a number of seconds'')))"

definition browse :: "'x daemon \<Rightarrow> request \<Rightarrow> peer \<Rightarrow> (json, 'x run) act" where
  "browse d rq peer r =
     then_do (timeout_of d (rq_params rq), r) (\<lambda>t r.
     then_do (on_host (dm_discover d t) r) (\<lambda>machines r. (Inr (JList machines), r)))"

definition text_or_empty :: "string option \<Rightarrow> string" where
  "text_or_empty v = (case v of None \<Rightarrow> [] | Some s \<Rightarrow> s)"

definition server_shares :: "'x daemon \<Rightarrow> request \<Rightarrow> peer \<Rightarrow> (json, 'x run) act" where
  "server_shares d rq peer r =
     then_do (require_str (rq_params rq) ''host'', r) (\<lambda>host r.
     then_do (case map_of (rq_params rq) ''timeout'' of
                Some (JInt _) \<Rightarrow> (Inr (), r)
              | _ \<Rightarrow> then_do (timeout_of d (rq_params rq), r) (\<lambda>_ r. (Inr (), r))) (\<lambda>_ r.
     then_do (optional_str (rq_params rq) ''username'', r) (\<lambda>username r.
     then_do (optional_str (rq_params rq) ''password'', r) (\<lambda>password r.
     then_do (timeout_of d (rq_params rq), r) (\<lambda>t r.
     then_do (on_host (dm_list_shares d host (text_or_empty username) (text_or_empty password) t) r) (\<lambda>shares r.
       (Inr (JList shares), r)))))))"

subsection \<open>The table\<close>

definition ping :: "'x daemon \<Rightarrow> request \<Rightarrow> peer \<Rightarrow> (json, 'x run) act" where
  "ping d rq peer r = (Inr (JObj [(''pong'', JBool True)]), r)"

definition version_of :: "'x daemon \<Rightarrow> request \<Rightarrow> peer \<Rightarrow> (json, 'x run) act" where
  "version_of d rq peer r =
     (Inr (JObj [(''version'', JStr (dm_version d)), (''protocol'', JInt PROTOCOL_VERSION)]), r)"

definition config_get :: "'x daemon \<Rightarrow> request \<Rightarrow> peer \<Rightarrow> (json, 'x run) act" where
  "config_get d rq peer r = then_do (loaded d r, r) (\<lambda>config r. (Inr (JObj config), r))"

definition METHODS :: "(string \<times> ('x daemon \<Rightarrow> request \<Rightarrow> peer \<Rightarrow> (json, 'x run) act)) list" where
  "METHODS =
     [(''ping'', ping), (''version'', version_of), (''status'', status), (''config.get'', config_get),
      (''share.list'', share_list), (''share.add'', share_add), (''share.remove'', share_remove),
      (''apply'', apply_everything), (''teardown'', tear_down), (''share.make_writable'', share_make_writable),
      (''credential.list'', credential_list), (''credential.set'', credential_set),
      (''credential.remove'', credential_remove), (''connection.list'', connection_list),
      (''connection.add'', connection_add), (''connection.remove'', connection_remove),
      (''connection.set_credentials'', set_credentials), (''connection.connect'', connection_connect),
      (''connection.disconnect'', connection_disconnect), (''connection.use_fallback'', use_fallback),
      (''connection.live'', connection_live), (''connection.watch'', connection_watch), (''browse'', browse),
      (''server.shares'', server_shares)]"

definition LINK_METHODS :: "string list" where
  "LINK_METHODS = [''agent.register'', ''agent.reply'', ''agent.state'']"

definition SERVING_METHODS :: "string list" where
  "SERVING_METHODS =
     [''share.add'', ''share.remove'', ''share.make_writable'', ''apply'', ''teardown'', ''credential.set'',
      ''credential.remove'']"

text \<open>A share is served as an account that exists. The only check made before the caller is asked to authorise.\<close>

definition require_account :: "'x daemon \<Rightarrow> request \<Rightarrow> unit res" where
  "require_account d rq =
     and_then (optional_str (rq_params rq) ''credential_ref'') (\<lambda>user.
       if \<not> given user then Inr ()
       else if Option.is_none (by_name (accounts_of (dm_system d)) (text_or_empty user))
       then Inl (NotFound (''there is no account called '' @ repr_str (text_or_empty user) @ '' on this machine''))
       else Inr ())"

definition precheck :: "'x daemon \<Rightarrow> request \<Rightarrow> unit res" where
  "precheck d rq = (if rq_method rq = ''share.add'' then require_account d rq else Inr ())"

definition unsupported :: "string \<Rightarrow> py_error" where
  "unsupported method = NotSupported (method @ '' is not supported on this platform yet'')"

definition refused_by_platform :: "'x daemon \<Rightarrow> string \<Rightarrow> bool" where
  "refused_by_platform d method =
     (method \<in> set (case dm_backend d of None \<Rightarrow> [] | Some b \<Rightarrow> be_unsupported b)
      \<or> \<not> dm_serving d \<and> method \<in> set SERVING_METHODS)"

definition answer :: "'x daemon \<Rightarrow> connection \<Rightarrow> request \<Rightarrow> (json, 'x run) act" where
  "answer d c rq r =
     (let method = rq_method rq; peer = cn_peer c in
      if method \<in> set LINK_METHODS then agent_link d rq c r
      else case map_of METHODS method of
        None \<Rightarrow> (Inl (UnknownMethod (''no such method: '' @ method)), r)
      | Some act \<Rightarrow>
          if refused_by_platform d method then (Inl (unsupported method), r)
          else then_do (precheck d rq, r) (\<lambda>_ r.
               then_do (check_access (dm_authoriser d) peer method (rq_auth rq), r) (\<lambda>_ r. act d rq peer r)))"

definition detail_for :: "'x daemon \<Rightarrow> py_error \<Rightarrow> string option" where
  "detail_for d e = (if is_smbpal_error e then dm_detail d e else None)"

definition handle :: "'x daemon \<Rightarrow> connection \<Rightarrow> string \<Rightarrow> 'x run \<Rightarrow> string \<times> 'x run" where
  "handle d c frame r =
     (case parse_request (dm_float d) frame of
        Inl e \<Rightarrow> (encode_failure None (detail_for d e) e, r)
      | Inr rq \<Rightarrow>
          (case answer d c rq r of
             (Inr result, r) \<Rightarrow> (encode_success (rq_id rq) result, r)
           | (Inl e, r) \<Rightarrow> (encode_failure (Some (rq_id rq)) (detail_for d e) e, r)))"

end
