(* ===== verification/Requests.thy ===== *)
theory Requests
  imports Dispatch
begin

text \<open>
  What a request to the daemon can do. The contract a serving backend keeps with the dispatcher is the locale
  \<open>share_backend\<close>; the lemmas of the dispatcher that rest on it are proved inside it and used through its
  interpretation on the Samba backend.
\<close>

subsection \<open>The contract of a backend\<close>

text \<open>\<open>own\<close> are the files the backend writes, \<open>quiet\<close> and \<open>ready\<close> what it needs of the programs it runs: that the
  questions it asks them change no file, and that no command changes a file behind its back.\<close>

locale share_backend =
  fixes make :: "'x system \<Rightarrow> 'x backend" and own :: "path set"
    and quiet :: "'x system \<Rightarrow> bool" and ready :: "'x system \<Rightarrow> bool"
  assumes plan_reads: "quiet sys \<Longrightarrow> files (snd (be_plan (make sys) config h)) = files h"
    and effective_reads: "quiet sys \<Longrightarrow> files (snd (be_effective (make sys) h)) = files h"
    and unmanaged_reads: "quiet sys \<Longrightarrow> files (snd (be_unmanaged (make sys) names h)) = files h"
    and service_reads: "quiet sys \<Longrightarrow> files (snd (be_service (make sys) h)) = files h"
    and sign_in_reads: "quiet sys \<Longrightarrow> be_can_sign_in (make sys) = Some ask \<Longrightarrow> files (snd (ask share h)) = files h"
    and apply_spares: "ready sys \<Longrightarrow> spared own h (snd (be_apply (make sys) config grant h))"

subsection \<open>The Samba backend keeps it\<close>

definition asks_quietly :: "'x system \<Rightarrow> bool" where
  "asks_quietly sys =
     (\<forall>argv h. argv \<in> {[''testparm'', ''-s''], [PDBEDIT, ''-L'']} \<union> range service_argv
        \<longrightarrow> files (snd (exec_of sys argv h)) = files h)"

definition own_files :: "applier \<Rightarrow> path set" where
  "own_files ap = {components (smb_conf ap), components (smbpal_conf ap), components (service_file ap)}"

definition samba_ready :: "applier \<Rightarrow> 'x system \<Rightarrow> bool" where
  "samba_ready ap sys = (commands_spare_files sys \<and> [] \<notin> own_files ap)"

lemma effective_reads_samba: "asks_quietly sys \<Longrightarrow> files (snd (effective_shares (exec_of sys) h)) = files h"
  unfolding effective_shares_def asks_quietly_def by (cases "exec_of sys [''testparm'', ''-s''] h") (simp, metis snd_conv)

lemma ask_services_quiet:
  "asks_quietly sys \<Longrightarrow> files (snd (ask_services (exec_of sys) l us h)) = files h"
proof (induction us arbitrary: l h)
  case (Cons u us)
  have q: "files (snd (exec_of sys (service_argv u) h)) = files h" using Cons.prems by (simp add: asks_quietly_def)
  obtain r h' where e: "exec_of sys (service_argv u) h = (r, h')" by fastforce
  with q have "files h' = files h" by simp
  then show ?case using Cons e by (cases r) (simp_all add: Let_def)
qed simp

lemma create_directory_spares: "spared a h (snd (create_directory acc flt p who h))"
proof (cases "make_dirs flt (dir_chain (components p) 493) h")
  case (Pair r h1)
  note m = make_dirs_keeps [OF Pair]
  have c: "spared a h1 (snd (chown flt (components p) u g h1))" for u g
    by (auto simp: chown_def attempt_def spared_def split: option.splits node.splits)
  obtain q h2 where q: "chown flt (components p) (si_uid who) (first_gid who) h1 = (q, h2)" by fastforce
  have "spared a h h1" using m by (simp add: spared_def)
  moreover have "spared a h1 h2" using c [of "si_uid who" "first_gid who"] q by simp
  ultimately have "spared a h h1" "spared a h h2" using spared_trans_same by blast+
  then show ?thesis using Pair q
    by (cases r; cases q) (simp_all add: create_directory_def Let_def)
qed

lemma create_missing_spares: "spared a h (snd (create_missing sys planned h))"
proof (induction planned arbitrary: h)
  case (Cons p ps)
  show ?case
  proof (cases "ds_exists (ps_status p) \<or> \<not> enabled (ps_share p)")
    case False
    show ?thesis
    proof (cases "identity_for (accounts_of sys) (ps_share p)")
      case (Some who)
      have "spared a h (snd (then_do (create_directory (accounts_of sys) (faults_of sys) (text_of (ps_share p) ''path'') who h)
          (\<lambda>_ h. create_missing sys ps h)))"
        by (rule then_do_spares [OF create_directory_spares]) (rule Cons.IH)
      then show ?thesis using False Some by simp
    qed (use False Cons.IH in simp)
  qed (use Cons.IH in simp)
qed simp

lemma write_file_spares:
  assumes "p \<in> a" "p \<noteq> []"
  shows "spared a h (snd (raising mk (write_text flt p t m dm h)))"
proof -
  obtain r h' where w: "write_text flt p t m dm h = (r, h')" by fastforce
  have "look h' q = Some n" if "q \<noteq> p" "look h q = Some n" for q n by (rule write_text_spares(1) [OF w assms(2) that])
  moreover have "q \<noteq> p" if "q \<notin> a" for q using that assms(1) by auto
  ultimately have "spared a h h'" unfolding spared_def by simp
  then show ?thesis by (simp add: raising_def w)
qed

lemma write_conf_spares: "components file \<in> a \<Longrightarrow> components file \<noteq> [] \<Longrightarrow> spared a h (snd (write_conf sys file t m h))"
  unfolding write_conf_def by (rule write_file_spares)

lemma unlink_spares: "p \<in> a \<Longrightarrow> spared a h (snd (raising mk (unlink flt p h)))"
  by (auto simp: raising_def unlink_def attempt_def spared_def split: option.split node.split)

lemma ensure_include_spares:
  "components (smb_conf ap) \<in> a \<Longrightarrow> components (smb_conf ap) \<noteq> [] \<Longrightarrow> spared a h (snd (ensure_include sys ap h))"
  by (auto simp: ensure_include_def write_conf_spares split: sum.split os_error.split)

lemma reconcile_spares:
  "components f \<in> a \<Longrightarrow> components f \<noteq> [] \<Longrightarrow> spared a h (snd (reconcile sys f n h))"
  unfolding reconcile_def publish_def withdraw_def Let_def
  by (auto intro!: then_do_spares write_file_spares unlink_spares split: sum.split)

lemma samba_queries_spare:
  assumes "commands_spare_files sys"
  shows "spared a h (snd (reload_config (exec_of sys) h))" "spared a h (snd (verify_present (exec_of sys) names h))"
  using exec_spares [OF assms]
  by (simp_all add: reload_config_def verify_present_def effective_shares_def split: prod.split) (metis snd_conv)+

lemma serve_spares:
  assumes "samba_ready ap sys"
  shows "spared (own_files ap) h (snd (serve sys ap planned h))"
proof -
  have c: "commands_spare_files sys" and p: "components (smb_conf ap) \<noteq> []" "components (smbpal_conf ap) \<noteq> []"
    "components (service_file ap) \<noteq> []" using assms by (auto simp: samba_ready_def own_files_def)
  show ?thesis
    unfolding serve_def Let_def
    by (intro then_do_spares write_conf_spares ensure_include_spares reconcile_spares samba_queries_spare [OF c])
      (simp_all add: p own_files_def)
qed

lemma apply_shares_spares: "samba_ready ap sys \<Longrightarrow> spared (own_files ap) h (snd (apply_shares sys ap config h))"
  unfolding apply_shares_def by (intro then_do_spares create_missing_spares serve_spares) simp_all

interpretation samba: share_backend "\<lambda>sys. samba_backend sys say ap" "own_files ap" asks_quietly "samba_ready ap" for say ap
proof
  fix sys :: "'a system" and config h names ask share grant
  show "asks_quietly sys \<Longrightarrow> files (snd (be_effective (samba_backend sys say ap) h)) = files h"
    by (simp add: samba_backend_def effective_reads_samba)
  then show "asks_quietly sys \<Longrightarrow> files (snd (be_unmanaged (samba_backend sys say ap) names h)) = files h"
    by (cases "effective_shares (exec_of sys) h") (simp add: samba_backend_def unmanaged_shares_def)
  show "asks_quietly sys \<Longrightarrow> files (snd (be_service (samba_backend sys say ap) h)) = files h"
    using ask_services_quiet [of sys None SERVICE_UNITS h]
    by (cases "ask_services (exec_of sys) None SERVICE_UNITS h") (simp add: samba_backend_def service_state_def)
  show "samba_ready ap sys \<Longrightarrow> spared (own_files ap) h (snd (be_apply (samba_backend sys say ap) config grant h))"
    unfolding samba_backend_def samba_apply_def backend.simps
    by (intro then_do_spares apply_shares_spares) simp_all
qed (simp_all add: samba_backend_def)

subsection \<open>A commit is all or nothing\<close>

lemma on_host_host: "rn_host (snd (on_host act r)) = snd (act (rn_host r))"
  by (simp add: on_host_def split: prod.split)

lemma on_host_fst: "fst (on_host act r) = fst (act (rn_host r))"
  by (simp add: on_host_def split: prod.split)

text \<open>The files a commit may write besides the configuration.\<close>

definition unit_keys :: "'x daemon \<Rightarrow> path set" where
  "unit_keys d = (case dm_mounter d of None \<Rightarrow> {} | Some mo \<Rightarrow> range (unit_key mo))"

lemma apply_mounts_spares:
  assumes "commands_spare_files sys"
  shows "spared (range (unit_key mo)) h (snd (apply_mounts sys mo config previous h))"
proof -
  have "q \<in> range (unit_key mo)" if "applied_or_stale mo config previous q s" for q s
    using that by (auto simp: applied_or_stale_def Let_def stale_text_def)
  then show ?thesis
    using apply_mounts_spared [OF assms, of mo config previous h] unfolding spared_but_def spared_def by blast
qed

text \<open>The configuration file is none of the files an apply writes.\<close>

definition config_apart :: "path set \<Rightarrow> 'x daemon \<Rightarrow> bool" where
  "config_apart own d =
     (components (dm_config d) \<noteq> [] \<and> components (dm_config d) \<notin> own \<union> unit_keys d
      \<and> (\<forall>h. faults_of (dm_system d) (Read (components (dm_config d))) h = None))"

definition configured :: "'x daemon \<Rightarrow> obj \<Rightarrow> 'x run \<Rightarrow> bool" where
  "configured d doc r =
     (valid_config (JObj doc) \<and> dicts (JObj doc)
      \<and> (\<exists>m. look (rn_host r) (components (dm_config d)) = Some (Regular (config_text doc) m)))"

lemma configured_loads: "configured d doc r \<Longrightarrow> config_apart own d \<Longrightarrow> loaded d r = Inr (sorted_obj doc)"
  unfolding configured_def config_apart_def loaded_def using load_of_written by blast

lemma saved_configured:
  assumes "save d doc r = (Inr u, r')" "dicts (JObj doc)" "config_apart own d"
  shows "configured d doc r'"
proof -
  have "save_config (dm_system d) (dm_config d) doc (rn_host r) = (Inr u, rn_host r')"
    using assms(1) by (auto simp: save_def on_host_def split: prod.splits)
  from save_done [OF this] assms(2,3) show ?thesis by (auto simp: configured_def config_apart_def)
qed

lemma save_refused:
  assumes "save d doc r = (Inl e, r')" "config_apart own d"
  shows "loaded d r' = loaded d r"
proof -
  have s: "save_config (dm_system d) (dm_config d) doc (rn_host r) = (Inl e, rn_host r')"
    using assms(1) by (auto simp: save_def on_host_def split: prod.splits)
  have c: "components (dm_config d) \<noteq> []" "\<And>x. faults_of (dm_system d) (Read (components (dm_config d))) x = None"
    using assms(2) by (simp_all add: config_apart_def)
  show ?thesis unfolding loaded_def by (rule load_same_file [OF save_failed [OF s c(1)] c(2)])
qed

lemma save_error:
  assumes "save d doc r = (Inl e, r')" "valid_config (JObj doc)"
  shows "e = ConfigIOError (''cannot write '' @ dm_config d)"
proof -
  have "save_config (dm_system d) (dm_config d) doc (rn_host r) = (Inl e, rn_host r')"
    using assms(1) by (auto simp: save_def on_host_def split: prod.splits)
  moreover have "validate_or_raise (JObj doc) ''the new config'' None = Inr (JObj doc)"
    using assms(2) by (simp add: validate_or_raise_def validate_accepts_iff [THEN iffD2])
  ultimately show ?thesis by (auto simp: save_config_def raising_def raise_as_def split: prod.splits sum.splits)
qed

text \<open>\<open>then_do_spares\<close> over a run.\<close>

lemma run_then_spares:
  assumes "spared a (rn_host r) (rn_host (snd x))"
    and "\<And>v r1. x = (Inr v, r1) \<Longrightarrow> spared a (rn_host r1) (rn_host (snd (f v r1)))"
  shows "spared a (rn_host r) (rn_host (snd (then_do x f)))"
  using assms by (cases x; cases "fst x") (auto intro: spared_trans_same)

context share_backend
begin

lemma apply_all_spares:
  assumes "ready (dm_system d)" "commands_spare_files (dm_system d)" "applier = None \<or> applier = Some (make (dm_system d))"
  shows "spared (own \<union> unit_keys d) (rn_host r) (rn_host (snd (apply_all d applier config grant earlier r)))"
proof -
  let ?a = "own \<union> unit_keys d"
  have backend: "spared ?a (rn_host r) (rn_host (snd (on_host (be_apply (make (dm_system d)) config grant) r)))" for r
    unfolding on_host_host by (rule spared_mono [OF apply_spares [OF assms(1)]]) simp
  have mounts: "spared ?a (rn_host r) (rn_host (snd (on_host (apply_mounts (dm_system d) mo config (Some earlier)) r)))"
    if "dm_mounter d = Some mo" for mo r
    unfolding on_host_host by (rule spared_mono [OF apply_mounts_spares [OF assms(2)]]) (simp add: unit_keys_def that)
  have first: "spared ?a (rn_host r) (rn_host (snd (case applier of None \<Rightarrow> (Inr None, r)
      | Some b \<Rightarrow> then_do (on_host (be_apply b config grant) r) (\<lambda>s r. (Inr (Some s), r)))))"
    using assms(3) by (cases applier) (auto intro!: run_then_spares backend)
  have second: "spared ?a (rn_host r) (rn_host (snd (case dm_mounter d of None \<Rightarrow> (Inr (), r)
      | Some mo \<Rightarrow> then_do (on_host (apply_mounts (dm_system d) mo config (Some earlier)) r) (\<lambda>_ r. (Inr (), r)))))" for r
    by (cases "dm_mounter d") (auto intro!: run_then_spares mounts)
  show ?thesis unfolding apply_all_def by (intro run_then_spares first second) simp
qed

lemma share_applier_made:
  "dm_backend d \<in> {None, Some (make (dm_system d))} \<Longrightarrow>
    share_applier d p u = None \<or> share_applier d p u = Some (make (dm_system d))"
  by (cases "dm_backend d") (simp_all add: share_applier_def)

lemma apply_all_configured:
  assumes "ready (dm_system d)" "commands_spare_files (dm_system d)" "config_apart own d"
    "dm_backend d \<in> {None, Some (make (dm_system d))}"
    and c: "configured d doc r" and a: "apply_all d (share_applier d p u) config grant earlier r = (res, r')"
  shows "configured d doc r'"
proof -
  have "spared (own \<union> unit_keys d) (rn_host r) (rn_host r')"
    using apply_all_spares [OF assms(1,2) share_applier_made [OF assms(4), of p u], where r = r and config = config
        and grant = grant and earlier = earlier] a by simp
  with c assms(3) show ?thesis unfolding configured_def config_apart_def spared_def by blast
qed

lemma commit_all_or_nothing:
  assumes "ready (dm_system d)" "commands_spare_files (dm_system d)" "config_apart own d"
    "dm_backend d \<in> {None, Some (make (dm_system d))}"
    and docs: "dicts (JObj previous)" "dicts (JObj updated)" "valid_config (JObj previous)"
    and c: "commit d previous updated grant r = (res, r')"
  shows "(case res of
      Inr _ \<Rightarrow> loaded d r' = Inr (sorted_obj updated)
    | Inl e \<Rightarrow> loaded d r' = loaded d r \<or> loaded d r' = Inr (sorted_obj previous)
        \<or> loaded d r' = Inr (sorted_obj updated) \<and> e = ConfigIOError (''cannot write '' @ dm_config d))"
proof -
  note keep = apply_all_configured [OF assms(1-4)]
  note load = configured_loads [OF _ assms(3)]
  obtain s r1 where s: "save d updated r = (s, r1)" by fastforce
  show ?thesis
  proof (cases s)
    case (Inl e)
    then show ?thesis using c s save_refused [OF _ assms(3)] by (auto simp: commit_def)
  next
    case (Inr u)
    have c1: "configured d updated r1" using saved_configured [OF _ docs(2) assms(3)] s Inr by simp
    show ?thesis
    proof (cases "Option.is_none (dm_backend d) \<and> Option.is_none (dm_mounter d)")
      case True
      then show ?thesis using c s Inr load [OF c1] by (auto simp: commit_def)
    next
      case False
      let ?ap = "share_applier d previous updated"
      obtain q r2 where q: "apply_all d ?ap updated grant previous r1 = (q, r2)" by fastforce
      have c2: "configured d updated r2" by (rule keep [OF c1 q])
      show ?thesis
      proof (cases q)
        case (Inr report)
        then show ?thesis using c s \<open>s = Inr u\<close> False q load [OF c2] by (auto simp: commit_def Let_def)
      next
        case (Inl e)
        obtain v r3 where v: "save d previous r2 = (v, r3)" by fastforce
        show ?thesis
        proof (cases v)
          case (Inl e')
          then have "loaded d r3 = loaded d r2" "e' = ConfigIOError (''cannot write '' @ dm_config d)"
            using save_refused [OF _ assms(3)] save_error [OF _ docs(3)] v by blast+
          then show ?thesis using c s \<open>s = Inr u\<close> False q v Inl \<open>q = Inl e\<close> load [OF c2] by (auto simp: commit_def Let_def)
        next
          case (Inr w)
          have c3: "configured d previous r3" using saved_configured [OF _ docs(1) assms(3)] v Inr by simp
          obtain x r4 where x: "apply_all d ?ap previous grant updated r3 = (x, r4)" by fastforce
          have "configured d previous r4" by (rule keep [OF c3 x])
          from load [OF this] show ?thesis using c s \<open>s = Inr u\<close> False q v Inr \<open>q = Inl e\<close> x by (auto simp: commit_def Let_def)
        qed
      qed
    qed
  qed
qed

end

subsection \<open>What a reader can do\<close>

definition same_files :: "'x run \<Rightarrow> 'x run \<Rightarrow> bool" where
  "same_files r r' = (files (rn_host r') = files (rn_host r))"

lemma same_files_refl [simp]: "same_files r r"
  by (simp add: same_files_def)

lemma same_files_then:
  assumes "same_files r (snd x)" and "\<And>v r1. x = (Inr v, r1) \<Longrightarrow> same_files r1 (snd (f v r1))"
  shows "same_files r (snd (then_do x f))"
  using assms by (cases x; cases "fst x") (auto simp: same_files_def)

lemma same_files_host: "files (snd (act (rn_host r))) = files (rn_host r) \<Longrightarrow> same_files r (snd (on_host act r))"
  by (simp add: same_files_def on_host_host)

lemma same_files_recover: "same_files r (snd x) \<Longrightarrow> same_files r (snd (recover v x))"
  by (auto simp: recover_def split: prod.splits sum.splits)

lemma same_files_push: "same_files r r1 \<Longrightarrow> same_files r (push_state d p row r1)"
  by (simp add: same_files_def push_state_def)

lemma same_files_fold: "(\<And>x r1. same_files r1 (f x r1)) \<Longrightarrow> same_files r (fold f xs r)"
  by (induction xs arbitrary: r) (auto simp: same_files_def)

lemma agent_state_reads: "same_files r (snd (agent_state d rq c r))"
proof -
  have "same_files r (fold (\<lambda>(previous, current). push_state d previous (f current)) changes (r\<lparr>rn_links := l\<rparr>))" for f changes l
  proof -
    have "same_files (r\<lparr>rn_links := l\<rparr>) (fold (\<lambda>(previous, current). push_state d previous (f current)) changes (r\<lparr>rn_links := l\<rparr>))"
      by (rule same_files_fold) (auto intro: same_files_push)
    then show ?thesis by (simp add: same_files_def)
  qed
  then show ?thesis
    by (auto simp: agent_state_def Let_def split: json.split prod.split sum.split)
qed

lemma agent_link_reads: "same_files r (snd (agent_link d rq c r))"
  using agent_state_reads [of r d rq c]
  by (auto simp: agent_link_def same_files_def audited_def split: prod.split)

lemma list_users_reads: "asks_quietly sys \<Longrightarrow> files (snd (list_users (exec_of sys) h)) = files h"
  unfolding list_users_def asks_quietly_def by (cases "exec_of sys [PDBEDIT, ''-L''] h") (simp, metis snd_conv)

text \<open>The discovery programs only look.\<close>

definition looks_only :: "'x daemon \<Rightarrow> bool" where
  "looks_only d =
     (asks_quietly (dm_system d)
      \<and> (\<forall>t h. files (snd (dm_discover d t h)) = files h)
      \<and> (\<forall>s u w t h. files (snd (dm_list_shares d s u w t h)) = files h))"

context share_backend
begin

lemma share_rows_read:
  assumes "quiet sys" "ask = be_can_sign_in (make sys)"
  shows "same_files r (snd (share_rows ask accounts effective rows r))"
proof (induction rows arbitrary: r)
  case (Cons row rows)
  have "same_files r (snd (case ask of None \<Rightarrow> (Inr (can_sign_in (sr_share row) accounts), r)
      | Some per_share \<Rightarrow> on_host (per_share (sr_share row)) r))" for r :: "'x run"
  proof (cases ask)
    case (Some per_share)
    then have "be_can_sign_in (make sys) = Some per_share" using assms(2) by simp
    then show ?thesis using Some by (simp add: same_files_host sign_in_reads [OF assms(1)])
  qed simp
  then show ?case unfolding share_rows.simps by (intro same_files_then Cons.IH) simp_all
qed simp

lemma share_states_read:
  assumes "quiet (dm_system d)" "looks_only d" "dm_backend d \<in> {None, Some (make (dm_system d))}"
  shows "same_files r (snd (share_states d config r))"
proof (cases "dm_backend d")
  case (Some b)
  then have b: "b = make (dm_system d)" using assms(3) by simp
  have accounts: "same_files r (snd (smb_accounts d r))" for r
    unfolding smb_accounts_def using assms(2)
    by (intro same_files_recover same_files_then same_files_host list_users_reads) (simp_all add: looks_only_def)
  have signing: "same_files r (snd (case be_can_sign_in b of None \<Rightarrow> smb_accounts d r | Some _ \<Rightarrow> (Inr None, r)))" for r
    using accounts by (cases "be_can_sign_in b") simp_all
  have effective: "same_files r (snd (recover None (then_do (on_host (be_effective b) r) (\<lambda>served r. (Inr (Some served), r)))))" for r
    by (intro same_files_recover same_files_then same_files_host) (simp_all add: b effective_reads [OF assms(1)])
  have planned: "same_files r (snd (on_host (be_plan b config) r))" for r
    by (rule same_files_host) (simp add: b plan_reads [OF assms(1)])
  have others: "same_files r (snd (on_host (be_unmanaged b names) r))" for r names
    by (rule same_files_host) (simp add: b unmanaged_reads [OF assms(1)])
  have rows: "same_files r (snd (share_rows (be_can_sign_in b) a e p r))" for r a e p
    by (rule share_rows_read [OF assms(1)]) (simp add: b)
  show ?thesis
    unfolding share_states_def Some option.case
    by (intro same_files_then effective signing planned rows) (auto split: option.split intro!: same_files_then others)
qed (simp add: share_states_def)

lemma samba_state_reads:
  assumes "quiet (dm_system d)" "dm_backend d \<in> {None, Some (make (dm_system d))}"
  shows "same_files r (snd (samba_state d r))"
  using assms(2) by (auto simp: samba_state_def service_reads [OF assms(1)] intro!: same_files_recover same_files_host)

lemma status_reads:
  assumes "quiet (dm_system d)" "looks_only d" "dm_backend d \<in> {None, Some (make (dm_system d))}"
  shows "same_files r (snd (status d rq peer r))"
  unfolding status_def Let_def
  by (intro same_files_then share_states_read [OF assms] samba_state_reads [OF assms(1,3)]) simp_all

lemma reading_methods:
  assumes "quiet (dm_system d)" "looks_only d" "dm_backend d \<in> {None, Some (make (dm_system d))}"
    and "(m, act) \<in> set METHODS" "m \<in> set READ_ONLY"
  shows "same_files r (snd (act d rq peer r))"
proof -
  have l: "asks_quietly (dm_system d)" "\<And>t h. files (snd (dm_discover d t h)) = files h"
    "\<And>s u w t h. files (snd (dm_list_shares d s u w t h)) = files h" using assms(2) by (simp_all add: looks_only_def)
  have plain: "same_files r (snd (ping d rq peer r))" "same_files r (snd (version_of d rq peer r))"
    "same_files r (snd (config_get d rq peer r))" "same_files r (snd (share_list d rq peer r))"
    "same_files r (snd (connection_list d rq peer r))" "same_files r (snd (connection_live d rq peer r))"
    by (simp_all add: ping_def version_of_def config_get_def share_list_def connection_list_def connection_live_def
        split: sum.split)
  have watch: "same_files r (snd (connection_watch d rq peer r))"
    by (simp add: connection_watch_def split: option.split sum.split)
  have looking: "same_files r (snd (credential_list d rq peer r))" "same_files r (snd (browse d rq peer r))"
    "same_files r (snd (server_shares d rq peer r))"
    unfolding credential_list_def browse_def server_shares_def
    by (intro same_files_then same_files_host list_users_reads [OF l(1)] l(2,3); auto split: option.split json.split sum.split)+
  show ?thesis
    using assms(4,5) plain watch looking status_reads [OF assms(1-3), of r rq peer]
    by (auto simp: METHODS_def READ_ONLY_def)
qed

lemma unauthorised_answer:
  assumes "quiet (dm_system d)" "looks_only d" "dm_backend d \<in> {None, Some (make (dm_system d))}"
    and n: "\<not> may_act (dm_authoriser d) (cn_peer c) (rq_method rq) (rq_auth rq)" and a: "answer d c rq r = (res, r')"
  shows "same_files r r' \<and> (rq_method rq \<notin> set READ_ONLY \<union> set LINK_METHODS \<longrightarrow> r' = r \<and> (\<exists>e. res = Inl e))"
proof (cases "rq_method rq \<in> set LINK_METHODS")
  case True
  then show ?thesis using a agent_link_reads [of r d rq c] by (auto simp: answer_def)
next
  case link: False
  show ?thesis
  proof (cases "map_of METHODS (rq_method rq) :: ('x daemon \<Rightarrow> request \<Rightarrow> peer \<Rightarrow> (json, 'x run) act) option")
    case None
    then show ?thesis using a link by (simp add: answer_def Let_def) auto
  next
    case (Some act)
    show ?thesis
    proof (cases "rq_method rq \<in> set READ_ONLY")
      case True
      have "same_files r (snd (act d rq (cn_peer c) r))" by (rule reading_methods [OF assms(1-3) map_of_SomeD [OF Some] True])
      then show ?thesis using a link Some True
        by (auto simp: answer_def Let_def split: if_splits sum.splits)
    next
      case False
      then have "check_access (dm_authoriser d) (cn_peer c) (rq_method rq) (rq_auth rq) \<noteq> Inr u" for u
        using n check_access_Inr by blast
      then obtain e where "check_access (dm_authoriser d) (cn_peer c) (rq_method rq) (rq_auth rq) = Inl e"
        by (cases "check_access (dm_authoriser d) (cn_peer c) (rq_method rq) (rq_auth rq)") auto
      then show ?thesis using a link Some by (auto simp: answer_def Let_def split: if_splits sum.splits)
    qed
  qed
qed

end

subsection \<open>A machine to try them on\<close>

text \<open>A daemon that serves with Samba on a machine whose disk of shares does not answer, and lets only root change anything.\<close>

definition still_system :: "unit system" where
  "still_system =
     \<lparr>faults_of = (\<lambda>call _. if call = Stat [''srv'', ''media''] then Some EIO else None),
      exec_of = (\<lambda>argv h. (Inr \<lparr>cr_returncode = 0, cr_stdout = [], cr_stderr = []\<rparr>, h)),
      accounts_of = \<lparr>by_name = (\<lambda>_. None), by_uid = (\<lambda>_. None), all_groups = []\<rparr>\<rparr>"

definition etc_applier :: applier where
  "etc_applier = \<lparr>smb_conf = ''/etc/smb.conf'', smbpal_conf = ''/etc/smbpal.conf'', service_file = ''/etc/avahi''\<rparr>"

definition root_only :: authoriser where
  "root_only =
     \<lparr>au_policy = Policy_root,
      au_polkit = \<lparr>pk_pkcheck = ''pkcheck'', pk_interaction = False, pk_proc = (\<lambda>_. None), pk_spawn = (\<lambda>_. Not_installed)\<rparr>,
      au_grant = (\<lambda>_ _. False)\<rparr>"

definition etc_daemon :: "unit daemon" where
  "etc_daemon =
     \<lparr>dm_system = still_system, dm_float = id, dm_seconds = (\<lambda>_. None), dm_config = ''/etc/config.json'',
      dm_authoriser = root_only, dm_serving = True,
      dm_backend = Some (samba_backend still_system (\<lambda>_. []) etc_applier), dm_mounter = None, dm_agents = None,
      dm_ask = (\<lambda>_ _ _ h. (Inl OSError, h)), dm_broadcasts = False,
      dm_feed = (\<lambda>_ _ h. (Inl OSError, h)),
      dm_kernel = (\<lambda>_. \<lparr>kn_enforce = None, kn_boolean = (\<lambda>_. None), kn_label = (\<lambda>_. None)\<rparr>),
      dm_platform = ''linux'', dm_version = ''0.2.19'', dm_pid = 1, dm_identity = (\<lambda>_. []),
      dm_discover = (\<lambda>_ h. (Inr [], h)), dm_list_shares = (\<lambda>_ _ _ _ h. (Inr [], h)), dm_say = (\<lambda>_. []),
      dm_detail = (\<lambda>_. None)\<rparr>"

definition etc_run :: "unit run" where
  "etc_run = \<lparr>rn_host = etc_host, rn_monitor = None, rn_links = no_links, rn_pushed = [], rn_audit = []\<rparr>"

definition user_peer :: connection where
  "user_peer = \<lparr>cn_number = 1, cn_peer = \<lparr>pr_uid = 1000, pr_gid = 1000, pr_pid = None\<rparr>\<rparr>"

definition apply_request :: string where
  "apply_request = dump False 0 (JObj [(''v'', JInt 1), (''id'', JStr ''7''), (''method'', JStr ''apply'')])"

subsection \<open>The promises\<close>

text \<open>C29: A request from a peer that may not act changes no file of the machine, whatever its method and its parameters
  are; and unless its method is one that only reads, or one an agent speaks for itself with, nothing at all changes and the answer is a
  refusal that carries the id of the request.\<close>

theorem unauthorised_requests_change_no_file:
  assumes "looks_only d" and "dm_backend d \<in> {None, Some (samba_backend (dm_system d) say ap)}"
    and "parse_request (dm_float d) frame = Inr rq"
    and "\<not> may_act (dm_authoriser d) (cn_peer c) (rq_method rq) (rq_auth rq)"
    and "handle d c frame r = (reply, r')"
  shows "files (rn_host r') = files (rn_host r)
    \<and> (rq_method rq \<notin> set READ_ONLY \<union> set LINK_METHODS \<longrightarrow>
         r' = r \<and> (\<exists>e. reply = encode_failure (Some (rq_id rq)) (detail_for d e) e))"
proof -
  obtain res r1 where a: "answer d c rq r = (res, r1)" by fastforce
  have q: "asks_quietly (dm_system d)" using assms(1) by (simp add: looks_only_def)
  have "r1 = r'" using a assms(3,5) by (auto simp: handle_def split: sum.splits)
  then show ?thesis
    using samba.unauthorised_answer [OF q assms(1,2,4) a] a assms(3,5)
    by (auto simp: handle_def same_files_def)
qed

theorem unauthorised_requests_change_no_file_witness:
  "snd (handle etc_daemon user_peer apply_request etc_run) = etc_run"
proof -
  have rq: "parse_request (dm_float etc_daemon) apply_request
      = Inr \<lparr>rq_id = ''7'', rq_method = ''apply'', rq_params = [], rq_auth = None\<rparr>" (is "_ = Inr ?rq")
    by code_simp
  have l: "looks_only etc_daemon"
    by (simp add: looks_only_def asks_quietly_def etc_daemon_def still_system_def)
  have b: "dm_backend etc_daemon \<in> {None, Some (samba_backend (dm_system etc_daemon) (\<lambda>_. []) etc_applier)}"
    by (simp add: etc_daemon_def)
  have n: "\<not> may_act (dm_authoriser etc_daemon) (cn_peer user_peer) (rq_method ?rq) (rq_auth ?rq)"
    by (simp add: may_act_def etc_daemon_def root_only_def user_peer_def)
  have m: "rq_method ?rq \<notin> set READ_ONLY \<union> set LINK_METHODS" by code_simp
  obtain reply r' where h: "handle etc_daemon user_peer apply_request etc_run = (reply, r')" by fastforce
  from unauthorised_requests_change_no_file [OF l b rq n h] m h show ?thesis by simp
qed

text \<open>C30: A change of the configuration is all or nothing. When the commit returns, the configuration file reads as the new
  document. When anything in it fails, the file reads as it did before or as the previous document again, so no record is left of a
  share that is not served; the one exception is a file that cannot be written a second time, and then that is the error reported.\<close>

theorem a_failed_change_leaves_no_record:
  assumes "dm_backend d \<in> {None, Some (samba_backend (dm_system d) say ap)}" and "samba_ready ap (dm_system d)"
    and "config_apart (own_files ap) d"
    and "dicts (JObj previous)" and "dicts (JObj updated)" and "valid_config (JObj previous)"
    and "commit d previous updated grant r = (res, r')"
  shows "(case res of
      Inr _ \<Rightarrow> loaded d r' = Inr (sorted_obj updated)
    | Inl e \<Rightarrow> loaded d r' = loaded d r \<or> loaded d r' = Inr (sorted_obj previous)
        \<or> loaded d r' = Inr (sorted_obj updated) \<and> e = ConfigIOError (''cannot write '' @ dm_config d))"
proof -
  have "commands_spare_files (dm_system d)" using assms(2) by (simp add: samba_ready_def)
  from samba.commit_all_or_nothing [OF assms(2) this assms(3,1,4-7)] show ?thesis .
qed

theorem a_failed_change_leaves_no_record_witness:
  "\<exists>e r'. commit etc_daemon empty_config one_share None etc_run = (Inl e, r')
    \<and> loaded etc_daemon r' \<in> {Inr empty_config, Inr (sorted_obj empty_config)}"
proof -
  have b: "dm_backend etc_daemon \<in> {None, Some (samba_backend (dm_system etc_daemon) (\<lambda>_. []) etc_applier)}"
    by (simp add: etc_daemon_def)
  have own: "own_files etc_applier = {[''etc'', ''smb.conf''], [''etc'', ''smbpal.conf''], [''etc'', ''avahi'']}"
    "components (dm_config etc_daemon) = [''etc'', ''config.json'']" by code_simp+
  have s: "samba_ready etc_applier (dm_system etc_daemon)"
    by (simp add: samba_ready_def own commands_spare_files_def etc_daemon_def still_system_def)
  have c: "config_apart (own_files etc_applier) etc_daemon"
    unfolding config_apart_def own unit_keys_def by (simp add: etc_daemon_def still_system_def)
  have v: "dicts (JObj empty_config)" "dicts (JObj one_share)" by code_simp+
  have e: "validate (JObj empty_config) = Inr []" by code_simp
  have f: "fst (commit etc_daemon empty_config one_share None etc_run) = Inl (OwnershipError ''cannot inspect /srv/media'')"
    by code_simp
  have l: "loaded etc_daemon etc_run = Inr empty_config" by code_simp
  obtain r' where m: "commit etc_daemon empty_config one_share None etc_run = (Inl (OwnershipError ''cannot inspect /srv/media''), r')"
    using f by (cases "commit etc_daemon empty_config one_share None etc_run") auto
  from a_failed_change_leaves_no_record [OF b s c v e [unfolded validate_accepts_iff] m] l m show ?thesis by auto
qed

end
