(* ===== verification/Reports.thy ===== *)
theory Reports
  imports Requests Edits
begin

text \<open>
  What an agent can say about connections (\<open>agent.state\<close> of \<^verbatim>\<open>smbpal/daemon/handlers.py\<close>), and two ways in which
  requests that are each in order do together what neither means to.
\<close>

subsection \<open>A report is about one's own connections\<close>

lemma get_fold_notin: "k \<notin> fst ` set new \<Longrightarrow> get (fold (\<lambda>(k, v). AList.update k v) new ob) k = get ob k"
  by (induction new arbitrary: ob) auto

lemma get_with_keys_notin: "k \<notin> fst ` set new \<Longrightarrow> get (with_keys ob new) k = get ob k"
  by (simp add: with_keys_def get_fold_notin)

lemma get_with_keys:
  assumes "map_of new k = Some v" "distinct (map fst new)"
  shows "get (with_keys ob new) k = v"
  using assms unfolding with_keys_def
proof (induction new arbitrary: ob)
  case (Cons a new)
  obtain i w where a: "a = (i, w)" by (cases a)
  show ?case
  proof (cases "i = k")
    case True
    then have "k \<notin> fst ` set new" "w = v" using Cons.prems a by auto
    then show ?thesis using a True by (simp add: get_fold_notin)
  next
    case False
    then show ?thesis using Cons a by simp
  qed
qed simp

lemma owned_by_mem:
  assumes "map_of (owned_by d uid config) i = Some c"
  shows "c \<in> set (records config ''connections'') \<and> owner_uid (accounts_of (dm_system d)) c = Some uid \<and> text_of c ''id'' = i"
proof -
  have "map_of (fold (\<lambda>c. AList.update (text_of c ''id'') c) cs m) i = Some c \<Longrightarrow>
      map_of m i = Some c \<or> c \<in> set cs \<and> text_of c ''id'' = i" for cs m
  proof (induction cs arbitrary: m)
    case (Cons x cs)
    from Cons.IH [of "AList.update (text_of x ''id'') x m"] Cons.prems show ?case
      by (auto simp: update_conv split: if_splits)
  qed simp
  from this [of "filter (\<lambda>c. owner_uid (accounts_of (dm_system d)) c = Some uid) (records config ''connections'')" "[]"]
  show ?thesis using assms by (auto simp: owned_by_def)
qed

lemma push_all:
  "\<exists>new. rn_pushed (fold (\<lambda>(previous, current). push_state d previous (f current)) changes r) = rn_pushed r @ new
    \<and> (\<forall>e \<in> set new. \<exists>current \<in> snd ` set changes. get e ''id'' = get (f current) ''id'')
    \<and> rn_links (fold (\<lambda>(previous, current). push_state d previous (f current)) changes r) = rn_links r"
proof (induction changes arbitrary: r)
  case (Cons ch changes)
  obtain p current where ch: "ch = (p, current)" by (cases ch)
  let ?r = "push_state d p (f current) r"
  obtain one where one: "rn_pushed ?r = rn_pushed r @ one" "\<forall>e \<in> set one. get e ''id'' = get (f current) ''id''" "rn_links ?r = rn_links r"
  proof (cases "dm_broadcasts d")
    case True
    let ?e = "with_keys (reported_wire (f current)) [(''previous'', case p of None \<Rightarrow> JNull | Some q \<Rightarrow> get q ''state''),
        (''mountpoint'', get (f current) ''mountpoint'')]"
    have "get ?e ''id'' = get (f current) ''id''" by (simp add: get_with_keys_notin) (simp add: reported_wire_def)
    then show ?thesis using that [of "[?e]"] True by (simp add: push_state_def)
  qed (use that [of "[]"] in \<open>simp add: push_state_def\<close>)
  from Cons.IH [of ?r] obtain new where
    "rn_pushed (fold (\<lambda>(previous, current). push_state d previous (f current)) changes ?r) = rn_pushed ?r @ new"
    "\<forall>e \<in> set new. \<exists>current \<in> snd ` set changes. get e ''id'' = get (f current) ''id''"
    "rn_links (fold (\<lambda>(previous, current). push_state d previous (f current)) changes ?r) = rn_links ?r" by blast
  with one ch show ?case by (intro exI [of _ "one @ new"]) auto
qed simp

lemma set_states_parts:
  assumes "set_states uid rows l = (changes, l')"
  shows "\<And>other. other \<noteq> uid \<Longrightarrow> states_of other l' = states_of other l" "snd ` set changes \<subseteq> set rows"
proof -
  have "snd ` set (fold (\<lambda>r. AList.update (text_of r ''id'') r) rows m) \<subseteq> snd ` set m \<union> set rows" for m :: "(string \<times> obj) list"
  proof (induction rows arbitrary: m)
    case (Cons r rows)
    have "snd ` set (AList.update (text_of r ''id'') r m) \<subseteq> insert r (snd ` set m)"
      by (induction m) auto
    with Cons [of "AList.update (text_of r ''id'') r m"] show ?case by auto
  qed simp
  from this [of "[]"] have "snd ` set (rows_by_id rows) \<subseteq> set rows" by (simp add: rows_by_id_def)
  then show "snd ` set changes \<subseteq> set rows" using assms by (force simp: set_states_def Let_def)
  show "states_of other l' = states_of other l" if "other \<noteq> uid" for other
    using assms that by (auto simp: set_states_def Let_def states_of_def update_conv)
qed

lemma accepted_owned:
  "row \<in> set (accepted_rows owned rows) \<Longrightarrow>
    \<exists>i. map_of row ''id'' = Some (JStr i) \<and> distinct (map fst row) \<and> map_of owned i \<noteq> None"
proof -
  assume "row \<in> set (accepted_rows owned rows)"
  then obtain v where v: "clean_state v = Some row" and o': "map_of owned (text_of row ''id'') \<noteq> None"
    by (auto simp: accepted_rows_def List.map_filter_def)
  obtain i s where i: "map_of row ''id'' = Some (JStr i)" using clean_state_known [OF v] by blast
  have "distinct (map fst row)" using v by (auto simp: clean_state_def split: json.splits if_splits)
  then show ?thesis using i o' by (auto simp: text_of_def)
qed

text \<open>C31: Whatever a connection says in \<open>agent.state\<close>, every state it makes the daemon push is about a connection of the
  configuration that belongs to the very user the kernel says is on that connection, and what the daemon keeps of other users' agents stays as it
  was; and without having registered first it changes nothing at all.\<close>

theorem agents_report_only_their_own:
  assumes "parse_request (dm_float d) frame = Inr rq" and "rq_method rq = ''agent.state''"
    and "handle d c frame r = (reply, r')"
  shows "(\<exists>new. rn_pushed r' = rn_pushed r @ new
      \<and> (\<forall>e \<in> set new. \<exists>config own. loaded d r = Inr config \<and> own \<in> set (records config ''connections'')
            \<and> owner_uid (accounts_of (dm_system d)) own = Some (pr_uid (cn_peer c)) \<and> get e ''id'' = JStr (text_of own ''id'')))
    \<and> (\<forall>uid. uid \<noteq> pr_uid (cn_peer c) \<longrightarrow> states_of uid (rn_links r') = states_of uid (rn_links r))
    \<and> (\<not> is_registered c (rn_links r) \<longrightarrow> r' = r)"
proof -
  have "rq_method rq \<in> set LINK_METHODS" using assms(2) by (simp add: LINK_METHODS_def)
  then have r': "r' = snd (agent_link d rq c r)"
    using assms(1,3) by (auto simp: handle_def answer_def Let_def split: prod.splits sum.splits)
  show ?thesis
  proof (cases "dm_agents d = Some Linked \<and> is_registered c (rn_links r) \<and> (\<exists>rows. get (rq_params rq) ''states'' = JList rows)
      \<and> (\<exists>config. loaded d r = Inr config)")
    case False
    have m: "rq_method rq \<noteq> ''agent.register''" "rq_method rq = ''agent.state''" using assms(2) by simp_all
    have "r' = r"
    proof (cases "dm_agents d = Some Linked \<and> is_registered c (rn_links r)")
      case guards: True
      show ?thesis
      proof (cases "get (rq_params rq) ''states''")
        case rows: (JList rows)
        then obtain e where "loaded d r = Inl e" using False guards by (cases "loaded d r") simp_all
        then show ?thesis using guards rows by (simp add: r' agent_link_def agent_state_def m)
      qed (use guards in \<open>simp_all add: r' agent_link_def agent_state_def m\<close>)
    next
      case False
      then show ?thesis by (cases "dm_agents d = Some Linked") (simp_all add: r' agent_link_def agent_state_def m)
    qed
    then show ?thesis by simp
  next
    case True
    then obtain rows config where h: "dm_agents d = Some Linked" "is_registered c (rn_links r)"
      "get (rq_params rq) ''states'' = JList rows" "loaded d r = Inr config" by blast
    let ?owned = "owned_by d (conn_uid c) config"
    let ?rows = "accepted_rows ?owned rows"
    let ?f = "\<lambda>current. with_keys (case map_of ?owned (text_of current ''id'') of None \<Rightarrow> [] | Some o' \<Rightarrow> o') current"
    obtain changes l where s: "set_states (conn_uid c) ?rows (rn_links r) = (changes, l)" by fastforce
    note parts = set_states_parts [OF s]
    have r1: "r' = fold (\<lambda>(previous, current). push_state d previous (?f current)) changes (r\<lparr>rn_links := l\<rparr>)"
      unfolding r' by (simp add: agent_link_def assms(2) h agent_state_def Let_def s)
    obtain new where new: "rn_pushed r' = rn_pushed r @ new"
        "\<forall>e \<in> set new. \<exists>current \<in> snd ` set changes. get e ''id'' = get (?f current) ''id''" "rn_links r' = l"
      using push_all [of d ?f changes "r\<lparr>rn_links := l\<rparr>", folded r1] by (elim exE conjE) simp
    have own: "\<exists>own. own \<in> set (records config ''connections'') \<and> owner_uid (accounts_of (dm_system d)) own = Some (conn_uid c)
        \<and> get e ''id'' = JStr (text_of own ''id'')" if "e \<in> set new" for e
    proof -
      from bspec [OF new(2) that] obtain current where ch: "current \<in> snd ` set changes" and e: "get e ''id'' = get (?f current) ''id''"
        by (rule bexE)
      note cur = subsetD [OF parts(2) ch] e
      obtain i where i: "map_of current ''id'' = Some (JStr i)" "distinct (map fst current)" "map_of ?owned i \<noteq> None"
        using accepted_owned [OF cur(1)] by blast
      then obtain own where own: "map_of ?owned i = Some own" by blast
      have "get (?f current) ''id'' = JStr i" using i(1,2) by (simp add: get_with_keys)
      with owned_by_mem [OF own] cur(2) show ?thesis by (intro exI [of _ own]) simp
    qed
    have others: "states_of uid (rn_links r') = states_of uid (rn_links r)" if "uid \<noteq> conn_uid c" for uid
      using parts(1) [OF that] new(3) by simp
    have uid: "conn_uid c = pr_uid (cn_peer c)" by (simp add: conn_uid_def)
    show ?thesis
    proof (intro conjI allI impI)
      show "\<exists>new. rn_pushed r' = rn_pushed r @ new \<and> (\<forall>e \<in> set new. \<exists>config own. loaded d r = Inr config
          \<and> own \<in> set (records config ''connections'') \<and> owner_uid (accounts_of (dm_system d)) own = Some (pr_uid (cn_peer c))
          \<and> get e ''id'' = JStr (text_of own ''id''))"
        using new(1) own h(4) unfolding uid by blast
    qed (use others h(2) in \<open>simp_all add: uid\<close>)
  qed
qed

subsection \<open>A report, on a concrete machine\<close>

definition ana_accounts :: accounts where
  "ana_accounts = \<lparr>by_name = (\<lambda>n. if n = ''ana'' then Some (1000, 1000) else None),
     by_uid = (\<lambda>u. if u = 1000 then Some ''ana'' else None), all_groups = []\<rparr>"

definition film_of :: "string \<Rightarrow> string \<Rightarrow> json" where
  "film_of i who = JObj [(''auto_connect'', JStr ''on_this_network''), (''host'', JStr ''nas.local''), (''id'', JStr i),
     (''mountpoint'', JStr (''/media/'' @ i)), (''owner'', JStr who), (''share'', JStr i), (''type'', JStr ''os'')]"

definition two_owners :: obj where
  "two_owners = [(''connections'', JList [film_of ''film'' ''ana'', film_of ''work'' ''bo'']), (''shares'', JList []),
     (''version'', JInt 1)]"

text \<open>Ana's agent reports one connection of hers and one of Bo's.\<close>

definition state_report :: string where
  "state_report = dump False 0 (JObj [(''v'', JInt 1), (''id'', JStr ''9''), (''method'', JStr ''agent.state''),
     (''params'', JObj [(''states'', JList [JObj [(''id'', JStr ''film''), (''state'', JStr ''connected'')],
        JObj [(''id'', JStr ''work''), (''state'', JStr ''failed'')]])])])"

definition agents_daemon :: "unit daemon" where
  "agents_daemon = etc_daemon\<lparr>dm_system := still_system\<lparr>accounts_of := ana_accounts\<rparr>, dm_agents := Some Linked,
     dm_broadcasts := True\<rparr>"

definition agents_run :: "unit run" where
  "agents_run = etc_run\<lparr>rn_links := register user_peer no_links,
     rn_host := etc_host\<lparr>files := files etc_host @ [([''etc'', ''config.json''], Regular (config_text two_owners) 384)]\<rparr>\<rparr>"

theorem agents_report_only_their_own_witness:
  "\<exists>reply r'. handle agents_daemon user_peer state_report agents_run = (reply, r')
    \<and> map (\<lambda>e. (get e ''id'', get e ''state'')) (rn_pushed r') = [(JStr ''film'', JStr ''connected'')]
    \<and> (\<forall>e \<in> set (rn_pushed r'). \<exists>own. owner_uid ana_accounts own = Some 1000 \<and> get e ''id'' = JStr (text_of own ''id''))"
proof -
  obtain rq where rq: "parse_request (dm_float agents_daemon) state_report = Inr rq" and m: "rq_method rq = ''agent.state''"
  proof -
    have "parse_request (dm_float agents_daemon) state_report = Inr \<lparr>rq_id = ''9'', rq_method = ''agent.state'',
        rq_params = [(''states'', JList [JObj [(''id'', JStr ''film''), (''state'', JStr ''connected'')],
        JObj [(''id'', JStr ''work''), (''state'', JStr ''failed'')]])], rq_auth = None\<rparr>" by code_simp
    then show ?thesis using that by simp
  qed
  obtain reply r' where h: "handle agents_daemon user_peer state_report agents_run = (reply, r')" by fastforce
  have "map (\<lambda>e. (get e ''id'', get e ''state'')) (rn_pushed (snd (handle agents_daemon user_peer state_report agents_run)))
      = [(JStr ''film'', JStr ''connected'')]" by code_simp
  then have p: "map (\<lambda>e. (get e ''id'', get e ''state'')) (rn_pushed r') = [(JStr ''film'', JStr ''connected'')]" by (simp add: h)
  have e: "rn_pushed agents_run = []" "accounts_of (dm_system agents_daemon) = ana_accounts" "pr_uid (cn_peer user_peer) = 1000"
    by (simp_all add: agents_run_def etc_run_def agents_daemon_def user_peer_def)
  note own = conjunct1 [OF agents_report_only_their_own [OF rq m h], unfolded e append_Nil]
  then have "\<forall>e \<in> set (rn_pushed r'). \<exists>own. owner_uid ana_accounts own = Some 1000 \<and> get e ''id'' = JStr (text_of own ''id'')"
    by fast
  then show ?thesis using h p by (intro exI conjI)
qed

subsection \<open>Two requests at once\<close>

text \<open>
  The server answers every connection on a thread of its own and \<open>_commit\<close> holds no lock, so two users may both have read the
  configuration before either writes it. Both are told that their share was added; the one who wrote first has lost it.
\<close>

lemma overlapping_adds_lose_one:
  assumes "dm_backend d \<in> {None, Some (samba_backend (dm_system d) say ap)}" "samba_ready ap (dm_system d)"
    "config_apart (own_files ap) d" "dicts (JObj previous)" "dicts (JObj second)" "valid_config (JObj previous)"
    and both: "add_share previous a1 = Inr (first, share1)" "add_share previous a2 = Inr (second, share2)"
    and names: "sa_name a1 \<noteq> sa_name a2"
    and commits: "commit d previous first g1 r = (Inr report1, r1)" "commit d previous second g2 r1 = (Inr report2, r2)"
  shows "loaded d r2 = Inr (sorted_obj second) \<and> JObj share1 \<notin> set (items second ''shares'')"
proof
  have "commands_spare_files (dm_system d)" using assms(2) by (simp add: samba_ready_def)
  from samba.commit_all_or_nothing [OF assms(2) this assms(3,1,4,5,6) commits(2)]
  show "loaded d r2 = Inr (sorted_obj second)" by simp
  obtain i where i: "share1 = share_record a1 i" "i \<notin> set (ids_of previous)" by (rule add_share_Inr [OF both(1)])
  obtain j where j: "share2 = share_record a2 j" "second = AList.update ''shares'' (JList (items previous ''shares'' @ [JObj share2]))
      (setdefault ''shares'' (JList []) previous)" by (rule add_share_Inr [OF both(2)])
  have "items second ''shares'' = items previous ''shares'' @ [JObj share2]" by (simp add: j(2) items_def [of "AList.update _ _ _"])
  moreover have "JObj share1 \<notin> set (items previous ''shares'')"
  proof
    assume "JObj share1 \<in> set (items previous ''shares'')"
    then have "i \<in> set (fields_of ''id'' (items previous ''shares''))" unfolding fields_of_def
      by (force simp: i(1) share_record_def)
    then show False using i(2) by (simp add: ids_of_def)
  qed
  moreover have "share1 \<noteq> share2" using names by (simp add: i(1) j(1) share_record_def)
  ultimately show "JObj share1 \<notin> set (items second ''shares'')" by simp
qed

subsection \<open>A mark that moves\<close>

text \<open>
  \<open>keychain_credential\<close> records that SMBPal created the Keychain item of a connection's account on its host. Using the fallback
  address exchanges the two addresses and leaves the mark: from then on it says so of the other host, and removing the connection asks the agent to delete an item
  there that SMBPal may never have made.
\<close>

lemma fallback_moves_the_mark:
  assumes "created_by_us c" and "get c ''fallback_host'' = JStr other" and "truthy (get c ''credential_account'')"
  shows "created_by_us (swapped c)" and "host_of (swapped c) = other"
    and "dm_agents d \<noteq> None \<Longrightarrow> sharing_item updated (swapped c) = [] \<Longrightarrow>
      forget_item d peer updated (swapped c) r
        = then_do (agent_forget d (pr_uid peer) other (text_of c ''credential_account'') r) (\<lambda>_ r. (Inr (), r))"
proof -
  have keep_of: "map_of (swapped c) k = map_of c k" if "k \<noteq> ''host''" "k \<noteq> ''fallback_host''" for k
    using that by (simp add: swapped_def with_keys_def update_conv)
  then have keep: "get (swapped c) k = get c k" if "k \<noteq> ''host''" "k \<noteq> ''fallback_host''" for k
    using that by (simp add: get_def)
  show created: "created_by_us (swapped c)" using assms(1) by (simp add: created_by_us_def keep)
  show host: "host_of (swapped c) = other" using assms(2) by (simp add: host_of_def text_of_def swapped_def with_keys_def)
  have account: "truthy (get (swapped c) ''credential_account'')" "text_of (swapped c) ''credential_account'' = text_of c ''credential_account''"
    using assms(3) by (simp_all add: keep keep_of text_of_def)
  show "forget_item d peer updated (swapped c) r
        = then_do (agent_forget d (pr_uid peer) other (text_of c ''credential_account'') r) (\<lambda>_ r. (Inr (), r))"
    if "dm_agents d \<noteq> None" "sharing_item updated (swapped c) = []"
    using that created host account by (simp add: forget_item_def)
qed

end
