(* ===== verification/Listening.thy ===== *)
theory Listening
  imports Complex_Main Protocol
begin

text \<open>
  \<^verbatim>\<open>smbpal/ipc/server.py\<close>: the wait for the directory of the socket, the way the socket is put there (every state
  another process could see on the way), what is sent down a connection, and the threads of the server as steps,
  up to the shutdown. The cutting of a stream into frames is in \<open>Protocol\<close>.
\<close>

unbundle bit_operations_syntax

subsection \<open>Waiting for the directory\<close>

definition RUNTIME_DIR_WAIT_SECONDS :: rat where "RUNTIME_DIR_WAIT_SECONDS = 30"
definition RUNTIME_DIR_POLL_SECONDS :: rat where "RUNTIME_DIR_POLL_SECONDS = 1 / 4"
definition RUNTIME_DIR_MODE :: int where "RUNTIME_DIR_MODE = 488"

text \<open>What one turn of the loop meets: the answers of \<open>mkdir\<close> and of \<open>is_dir\<close>, and the clock. Another process makes the
  directory at any time, so the turns are given by a function.\<close>

record turn =
  tn_mkdir :: "unit os"
  tn_is_dir :: "bool os"
  tn_clock :: rat

text \<open>\<open>PermissionError\<close>.\<close>

definition not_permitted :: "os_error \<Rightarrow> bool" where "not_permitted e = (e = EPERM \<or> e = EACCES)"

record waited =
  wt_result :: "unit os"
  wt_turn :: nat
  wt_announced :: nat

partial_function (option) await_directory ::
    "(nat \<Rightarrow> turn) \<Rightarrow> rat \<Rightarrow> nat \<Rightarrow> bool \<Rightarrow> nat \<Rightarrow> waited option" where
  "await_directory w deadline n announced told =
     (case tn_mkdir (w n) of
        Inr _ \<Rightarrow> Some \<lparr>wt_result = Inr (), wt_turn = n, wt_announced = told\<rparr>
      | Inl e \<Rightarrow>
          if \<not> not_permitted e then Some \<lparr>wt_result = Inl e, wt_turn = n, wt_announced = told\<rparr>
          else (case tn_is_dir (w n) of
            Inl e' \<Rightarrow> Some \<lparr>wt_result = Inl e', wt_turn = n, wt_announced = told\<rparr>
          | Inr there \<Rightarrow>
              if there then Some \<lparr>wt_result = Inr (), wt_turn = n, wt_announced = told\<rparr>
              else if deadline \<le> tn_clock (w n) then Some \<lparr>wt_result = Inl e, wt_turn = n, wt_announced = told\<rparr>
              else await_directory w deadline (Suc n) True (if announced then told else Suc told)))"

definition ensure_runtime_directory :: "rat \<Rightarrow> (nat \<Rightarrow> turn) \<Rightarrow> waited option" where
  "ensure_runtime_directory since w = await_directory w (since + RUNTIME_DIR_WAIT_SECONDS) 0 False 0"

text \<open>One turn that does not end the wait.\<close>

definition still_waiting :: "(nat \<Rightarrow> turn) \<Rightarrow> rat \<Rightarrow> nat \<Rightarrow> bool" where
  "still_waiting w deadline n =
     ((\<exists>e. tn_mkdir (w n) = Inl e \<and> not_permitted e) \<and> tn_is_dir (w n) = Inr False \<and> tn_clock (w n) < deadline)"

definition turn_result :: "turn \<Rightarrow> unit os" where
  "turn_result t =
     (case tn_mkdir t of
        Inr _ \<Rightarrow> Inr ()
      | Inl e \<Rightarrow> if not_permitted e then (case tn_is_dir t of Inl e' \<Rightarrow> Inl e' | Inr b \<Rightarrow> if b then Inr () else Inl e) else Inl e)"

lemma await_directory_ends:
  "\<not> still_waiting w deadline n \<Longrightarrow>
    await_directory w deadline n announced told = Some \<lparr>wt_result = turn_result (w n), wt_turn = n, wt_announced = told\<rparr>"
  by (subst await_directory.simps) (auto simp: still_waiting_def turn_result_def split: sum.splits)

lemma await_directory_goes_on:
  "still_waiting w deadline n \<Longrightarrow>
    await_directory w deadline n announced told
      = await_directory w deadline (Suc n) True (if announced then told else Suc told)"
  by (subst await_directory.simps) (auto simp: still_waiting_def)

lemma await_directory_first:
  assumes "\<not> still_waiting w deadline (n + k)" "\<forall>i < k. still_waiting w deadline (n + i)"
  shows "await_directory w deadline n announced told
    = Some \<lparr>wt_result = turn_result (w (n + k)), wt_turn = n + k,
            wt_announced = (if k = 0 \<or> announced then told else Suc told)\<rparr>"
  using assms
proof (induction k arbitrary: n announced told)
  case 0
  then show ?case by (simp add: await_directory_ends)
next
  case (Suc k)
  have "still_waiting w deadline n" using Suc.prems(2) by force
  moreover have "\<forall>i < k. still_waiting w deadline (Suc n + i)" using Suc.prems(2) by force
  ultimately show ?case using Suc.IH [of "Suc n" True] Suc.prems(1) by (simp add: await_directory_goes_on)
qed

lemma clock_advances:
  assumes "\<forall>n. tn_clock (w n) + RUNTIME_DIR_POLL_SECONDS \<le> tn_clock (w (Suc n))"
  shows "tn_clock (w 0) + of_nat n / 4 \<le> tn_clock (w n)"
proof (induction n)
  case (Suc n)
  have "tn_clock (w n) + 1 / 4 \<le> tn_clock (w (Suc n))" using assms by (simp add: RUNTIME_DIR_POLL_SECONDS_def)
  with Suc show ?case by (simp add: field_simps)
qed simp

subsection \<open>Putting the socket there\<close>

text \<open>What others see of the transport: the group and the mode of the directory, and of what is at the path of the socket.\<close>

record site =
  si_dir :: "(int \<times> int) option"
  si_socket :: "(int \<times> int) option"

datatype site_call = Stat_dir | Stat_socket | Unlink_socket | Bind_socket | Chown_dir | Chmod_dir | Chown_socket | Chmod_socket

record transport =
  tp_dir :: path
  tp_group :: "string option"
  tp_mode :: int

record surroundings =
  su_fails :: "site_call \<Rightarrow> site \<Rightarrow> os_error option"
  su_resolved :: path
  su_groups :: "string \<Rightarrow> int option"
  su_new_gid :: int
  su_listening :: bool

definition SHARED_DIRS :: "path list" where
  "SHARED_DIRS = map components
     [''/'', ''/run'', ''/var/run'', ''/tmp'', ''/var/tmp'', ''/dev/shm'', ''/private/var/run'', ''/private/tmp'',
      ''/private/var/tmp'']"

text \<open>A call leaves a state or fails; a program is the states after its calls, the last one being where it is.\<close>

type_synonym trail = "unit res \<times> site list"

definition in_turn :: "trail \<Rightarrow> (site \<Rightarrow> trail) \<Rightarrow> trail" where
  "in_turn rt f = (case rt of (Inl e, ss) \<Rightarrow> (Inl e, ss) | (Inr _, ss) \<Rightarrow> (case f (last ss) of (r, ss') \<Rightarrow> (r, ss @ ss')))"

definition does :: "surroundings \<Rightarrow> site_call \<Rightarrow> (site \<Rightarrow> site) \<Rightarrow> site \<Rightarrow> trail" where
  "does su c f s = (case su_fails su c s of Some _ \<Rightarrow> (Inl OSError, [s]) | None \<Rightarrow> (Inr (), [f s]))"

definition unlink_socket :: "surroundings \<Rightarrow> site \<Rightarrow> trail" where
  "unlink_socket su s =
     (case su_fails su Unlink_socket s of
        Some ENOENT \<Rightarrow> (Inr (), [s])
      | Some _ \<Rightarrow> (Inl OSError, [s])
      | None \<Rightarrow> (Inr (), [s\<lparr>si_socket := None\<rparr>]))"

text \<open>A leftover is removed, unless something still answers on it.\<close>

definition clear_stale_socket :: "surroundings \<Rightarrow> site \<Rightarrow> trail" where
  "clear_stale_socket su s =
     (case su_fails su Stat_socket s of
        Some e \<Rightarrow> if swallowed e then (Inr (), [s]) else (Inl OSError, [s])
      | None \<Rightarrow>
          if si_socket s = None then (Inr (), [s])
          else if su_listening su then (Inl OSError, [s])
          else unlink_socket su s)"

text \<open>\<open>bind\<close> under the umask 0177.\<close>

definition bind_socket :: "surroundings \<Rightarrow> site \<Rightarrow> trail" where
  "bind_socket su s =
     (if si_socket s \<noteq> None then (Inl OSError, [s])
      else does su Bind_socket (\<lambda>s. s\<lparr>si_socket := Some (su_new_gid su, 511 AND NOT 127)\<rparr>) s)"

definition set_dir_gid :: "int \<Rightarrow> site \<Rightarrow> site" where
  "set_dir_gid gid s = s\<lparr>si_dir := map_option (\<lambda>(_, m). (gid, m)) (si_dir s)\<rparr>"
definition set_dir_mode :: "int \<Rightarrow> site \<Rightarrow> site" where
  "set_dir_mode m s = s\<lparr>si_dir := map_option (\<lambda>(g, _). (g, m)) (si_dir s)\<rparr>"
definition set_socket_gid :: "int \<Rightarrow> site \<Rightarrow> site" where
  "set_socket_gid gid s = s\<lparr>si_socket := map_option (\<lambda>(_, m). (gid, m)) (si_socket s)\<rparr>"
definition set_socket_mode :: "int \<Rightarrow> site \<Rightarrow> site" where
  "set_socket_mode m s = s\<lparr>si_socket := map_option (\<lambda>(g, _). (g, m)) (si_socket s)\<rparr>"

definition apply_directory_ownership :: "transport \<Rightarrow> surroundings \<Rightarrow> int \<Rightarrow> site \<Rightarrow> trail" where
  "apply_directory_ownership tp su gid s =
     (case (su_fails su Stat_dir s, si_dir s) of
        (None, Some (g, m)) \<Rightarrow>
          if tp_dir tp \<in> set SHARED_DIRS \<or> su_resolved su \<in> set SHARED_DIRS \<or> bit m 1 then (Inl OSError, [s])
          else if g = gid \<and> m AND 4095 = RUNTIME_DIR_MODE then (Inr (), [s])
          else in_turn (does su Chown_dir (set_dir_gid gid) s) (does su Chmod_dir (set_dir_mode RUNTIME_DIR_MODE))
      | _ \<Rightarrow> (Inl OSError, [s]))"

definition apply_ownership :: "transport \<Rightarrow> surroundings \<Rightarrow> site \<Rightarrow> trail" where
  "apply_ownership tp su s =
     in_turn
       (case tp_group tp of
          None \<Rightarrow> (Inr (), [s])
        | Some name \<Rightarrow>
            (case su_groups su name of
               None \<Rightarrow> (Inl OSError, [s])
             | Some gid \<Rightarrow>
                 in_turn (apply_directory_ownership tp su gid s) (does su Chown_socket (set_socket_gid gid))))
       (does su Chmod_socket (set_socket_mode (tp_mode tp)))"

text \<open>What refuses after the socket is there takes it down again.\<close>

definition own_or_unlink :: "transport \<Rightarrow> surroundings \<Rightarrow> site \<Rightarrow> trail" where
  "own_or_unlink tp su s =
     (case apply_ownership tp su s of
        (Inr _, ss) \<Rightarrow> (Inr (), ss)
      | (Inl e, ss) \<Rightarrow> (Inl e, ss @ snd (unlink_socket su (last ss))))"

definition put_socket :: "transport \<Rightarrow> surroundings \<Rightarrow> site \<Rightarrow> trail" where
  "put_socket tp su s = in_turn (in_turn (clear_stale_socket su s) (bind_socket su)) (own_or_unlink tp su)"

subsection \<open>Who can reach the socket\<close>

definition group_of :: "transport \<Rightarrow> surroundings \<Rightarrow> int option" where
  "group_of tp su = Option.bind (tp_group tp) (su_groups su)"

definition own_directory :: "int \<Rightarrow> site \<Rightarrow> bool" where
  "own_directory gid t = (case si_dir t of None \<Rightarrow> False | Some (g, m) \<Rightarrow> g = gid \<and> m AND 4095 = RUNTIME_DIR_MODE)"

text \<open>Open to the group of the transport and to nobody else, in a directory the group can pass through.\<close>

definition open_to_group :: "transport \<Rightarrow> surroundings \<Rightarrow> site \<Rightarrow> bool" where
  "open_to_group tp su t =
     (case group_of tp su of None \<Rightarrow> False | Some gid \<Rightarrow> si_socket t = Some (gid, tp_mode tp) \<and> own_directory gid t)"

definition private_socket :: "site \<Rightarrow> bool" where
  "private_socket t = (case si_socket t of None \<Rightarrow> True | Some (_, m) \<Rightarrow> m = 384)"

lemma in_turn_Inl: "in_turn (Inl e, ss) f = (Inl e, ss)" by (simp add: in_turn_def)
lemma in_turn_Inr: "in_turn (Inr x, ss) f = (fst (f (last ss)), ss @ snd (f (last ss)))"
  by (simp add: in_turn_def split: prod.split)

lemma does_cases:
  obtains e where "su_fails su c s = Some e" "does su c f s = (Inl OSError, [s])"
  | "su_fails su c s = None" "does su c f s = (Inr (), [f s])"
  by (cases "su_fails su c s") (simp_all add: does_def)

lemma directory_owned:
  assumes "apply_directory_ownership tp su gid s = (r, ss)"
  shows "ss \<noteq> [] \<and> (\<forall>t \<in> set ss. si_socket t = si_socket s)
    \<and> (r = Inr () \<longrightarrow> own_directory gid (last ss) \<and> tp_dir tp \<notin> set SHARED_DIRS \<and> su_resolved su \<notin> set SHARED_DIRS)"
  using assms
  by (auto simp: apply_directory_ownership_def in_turn_def does_def set_dir_gid_def set_dir_mode_def own_directory_def
      RUNTIME_DIR_MODE_def split: option.splits if_splits prod.splits)

lemma bind_socket_mode: "(511 :: int) AND NOT 127 = 384"
  by simp

lemma socket_bound:
  assumes "in_turn (clear_stale_socket su s) (bind_socket su) = (r, ss)"
  shows "ss \<noteq> [] \<and> (\<forall>t \<in> set ss. si_socket t = si_socket s \<or> private_socket t)
    \<and> (r = Inr () \<longrightarrow> (\<exists>g. si_socket (last ss) = Some (g, 384)))
    \<and> (r \<noteq> Inr () \<longrightarrow> si_socket (last ss) \<in> {None, si_socket s})"
  using assms
  by (auto simp: clear_stale_socket_def unlink_socket_def bind_socket_def in_turn_def does_def private_socket_def bind_socket_mode
      split: option.splits if_splits prod.splits os_error.splits)

lemma own_steps:
  assumes "apply_ownership tp su s = (r, ss)" and "\<exists>g. si_socket s = Some (g, 384)" and "tp_group tp = Some name"
  shows "ss \<noteq> [] \<and> (\<forall>t \<in> set ss. private_socket t \<or> open_to_group tp su t)
    \<and> (r = Inr () \<longrightarrow> open_to_group tp su (last ss) \<and> tp_dir tp \<notin> set SHARED_DIRS \<and> su_resolved su \<notin> set SHARED_DIRS)"
proof (cases "su_groups su name")
  case None
  then show ?thesis using assms by (auto simp: apply_ownership_def in_turn_Inl private_socket_def)
next
  case (Some gid)
  obtain r1 ss1 where d: "apply_directory_ownership tp su gid s = (r1, ss1)" by fastforce
  note own = directory_owned [OF d]
  have priv: "private_socket t" if "t \<in> set ss1" for t using own that assms(2) by (auto simp: private_socket_def)
  have group: "group_of tp su = Some gid" using assms(3) Some by (simp add: group_of_def)
  show ?thesis
  proof (cases r1)
    case (Inl e)
    then show ?thesis using assms Some d own priv by (auto simp: apply_ownership_def in_turn_Inl)
  next
    case (Inr u)
    let ?t = "last ss1"
    have t: "\<exists>g. si_socket ?t = Some (g, 384)" "own_directory gid ?t" using own assms(2) Inr by auto
    let ?c = "set_socket_gid gid ?t"
    have c: "si_socket ?c = Some (gid, 384)" "own_directory gid ?c" using t by (auto simp: set_socket_gid_def own_directory_def)
    have m: "open_to_group tp su (set_socket_mode (tp_mode tp) ?c)"
      using c group by (simp add: open_to_group_def set_socket_mode_def own_directory_def)
    have pt: "private_socket ?t" "private_socket ?c" using t(1) c(1) by (auto simp: private_socket_def)
    have a: "apply_ownership tp su s = in_turn (in_turn (Inr (), ss1) (does su Chown_socket (set_socket_gid gid)))
        (does su Chmod_socket (set_socket_mode (tp_mode tp)))"
      using Inr d Some assms(3) by (simp add: apply_ownership_def)
    show ?thesis
    proof (cases "su_fails su Chown_socket ?t")
      case (Some e)
      then show ?thesis using assms(1) a priv pt by (auto simp: in_turn_Inl in_turn_Inr does_def)
    next
      case None
      then show ?thesis using assms(1) a priv pt m own Inr
        by (cases "su_fails su Chmod_socket ?c") (auto simp: in_turn_Inl in_turn_Inr does_def)
    qed
  qed
qed

lemma own_or_unlink_steps:
  assumes "own_or_unlink tp su s = (r, ss)" and "\<exists>g. si_socket s = Some (g, 384)" and "tp_group tp = Some name"
  shows "(\<forall>t \<in> set ss. private_socket t \<or> open_to_group tp su t)
    \<and> (r = Inr () \<longrightarrow> open_to_group tp su (last ss) \<and> tp_dir tp \<notin> set SHARED_DIRS \<and> su_resolved su \<notin> set SHARED_DIRS)
    \<and> (r \<noteq> Inr () \<longrightarrow> si_socket (last ss) = None \<or> (\<exists>t \<in> set ss. su_fails su Unlink_socket t \<noteq> None))"
proof -
  obtain r1 ss1 where o: "apply_ownership tp su s = (r1, ss1)" by fastforce
  note steps = own_steps [OF o assms(2,3)]
  show ?thesis
  proof (cases r1)
    case (Inl e)
    show ?thesis
    proof (cases "su_fails su Unlink_socket (last ss1)")
      case None
      then show ?thesis using assms(1) o steps Inl by (auto simp: own_or_unlink_def unlink_socket_def private_socket_def)
    next
      case (Some e')
      then have "snd (unlink_socket su (last ss1)) = [last ss1]" by (simp add: unlink_socket_def split: os_error.split)
      then show ?thesis using assms(1) o steps Inl Some by (auto simp: own_or_unlink_def)
    qed
  next
    case (Inr u)
    then show ?thesis using assms(1) o steps by (auto simp: own_or_unlink_def)
  qed
qed

text \<open>C38: Waiting for the directory ends: at the latest with the hundred and twentieth turn after the first, whatever the others do
  meanwhile, provided the clock goes on and a sleep lasts as long as it is asked to. It ends with what the turn it stops at says, every
  turn before that had been refused the permission to make a directory that was not there, and the wait is announced once at most.\<close>

theorem waiting_for_the_directory_ends:
  assumes "since \<le> tn_clock (w 0)" and "\<forall>n. tn_clock (w n) + RUNTIME_DIR_POLL_SECONDS \<le> tn_clock (w (Suc n))"
  shows "\<exists>out. ensure_runtime_directory since w = Some out \<and> wt_turn out \<le> 120 \<and> wt_announced out \<le> 1
    \<and> wt_result out = turn_result (w (wt_turn out))
    \<and> (\<forall>n < wt_turn out. still_waiting w (since + RUNTIME_DIR_WAIT_SECONDS) n)"
proof -
  let ?dl = "since + RUNTIME_DIR_WAIT_SECONDS" and ?ends = "\<lambda>n. \<not> still_waiting w (since + RUNTIME_DIR_WAIT_SECONDS) n"
  have "?dl \<le> tn_clock (w 120)"
    using clock_advances [OF assms(2), of 120] assms(1) by (simp add: RUNTIME_DIR_WAIT_SECONDS_def)
  then have e: "?ends 120" by (simp add: still_waiting_def)
  let ?k = "LEAST n. ?ends n"
  have k: "?ends ?k" "?k \<le> 120" using LeastI [of ?ends, OF e] Least_le [of ?ends, OF e] by simp_all
  have before: "\<forall>i < ?k. still_waiting w ?dl i" using not_less_Least [of _ ?ends] by blast
  define k where "k = ?k"
  note k = k [folded k_def] and before = before [folded k_def]
  have "ensure_runtime_directory since w
      = Some \<lparr>wt_result = turn_result (w k), wt_turn = k, wt_announced = (if k = 0 then 0 else 1)\<rparr>"
    using await_directory_first [of w ?dl 0 k False 0] k(1) before by (simp add: ensure_runtime_directory_def)
  then show ?thesis using k(2) before by simp
qed

definition locked_out :: "nat \<Rightarrow> turn" where
  "locked_out n = \<lparr>tn_mkdir = Inl EACCES, tn_is_dir = Inr (8 \<le> n), tn_clock = 100 + of_nat n / 4\<rparr>"

theorem waiting_for_the_directory_ends_witness:
  "\<exists>out. ensure_runtime_directory 100 locked_out = Some out \<and> wt_turn out \<le> 8 \<and> wt_announced out \<le> 1"
proof -
  have "100 \<le> tn_clock (locked_out 0)" "\<forall>n. tn_clock (locked_out n) + RUNTIME_DIR_POLL_SECONDS \<le> tn_clock (locked_out (Suc n))"
    by (simp_all add: locked_out_def RUNTIME_DIR_POLL_SECONDS_def field_simps)
  from waiting_for_the_directory_ends [OF this] obtain out where out: "ensure_runtime_directory 100 locked_out = Some out"
    "wt_announced out \<le> 1" "\<forall>n < wt_turn out. still_waiting locked_out (100 + RUNTIME_DIR_WAIT_SECONDS) n" by blast
  have "\<not> still_waiting locked_out (100 + RUNTIME_DIR_WAIT_SECONDS) 8" by (simp add: still_waiting_def locked_out_def)
  then have "\<not> 8 < wt_turn out" using out(3) by blast
  with out(1,2) show ?thesis by (intro exI [of _ out]) simp
qed

text \<open>C39: With a group, nobody outside it is ever let in: in every state on the way the path holds what was there before, nothing, a socket only
  its owner can open, or the socket with the group and the mode asked for in a directory that has the group too. When it returns that
  last state is reached, and the directory is none of the shared ones; when it raises, no new socket is left, unless removing it failed as well.\<close>

theorem socket_opens_to_its_group_only:
  assumes "put_socket tp su s = (res, states)" and "tp_group tp = Some name"
  shows "(\<forall>t \<in> set states. si_socket t = si_socket s \<or> private_socket t \<or> open_to_group tp su t)
    \<and> (res = Inr () \<longrightarrow> open_to_group tp su (last states) \<and> tp_dir tp \<notin> set SHARED_DIRS \<and> su_resolved su \<notin> set SHARED_DIRS)
    \<and> (res \<noteq> Inr () \<longrightarrow> si_socket (last states) \<in> {None, si_socket s} \<or> (\<exists>t \<in> set states. su_fails su Unlink_socket t \<noteq> None))"
proof -
  obtain r1 ss1 where b: "in_turn (clear_stale_socket su s) (bind_socket su) = (r1, ss1)" by fastforce
  note bound = socket_bound [OF b]
  show ?thesis
  proof (cases r1)
    case (Inl e)
    then show ?thesis using assms(1) b bound by (auto simp: put_socket_def in_turn_Inl)
  next
    case (Inr u)
    obtain r2 ss2 where o: "own_or_unlink tp su (last ss1) = (r2, ss2)" by fastforce
    note own = own_or_unlink_steps [OF o _ assms(2)]
    have "ss2 \<noteq> []" using o by (auto simp: own_or_unlink_def apply_ownership_def unlink_socket_def does_def in_turn_def
        split: sum.splits prod.splits option.splits if_splits os_error.splits)
    then show ?thesis using assms(1) b bound own o Inr by (auto simp: put_socket_def in_turn_Inr)
  qed
qed

definition smbpal_transport :: transport where
  "smbpal_transport = \<lparr>tp_dir = [''run'', ''smbpal''], tp_group = Some ''smbpal'', tp_mode = 432\<rparr>"

definition quiet_surroundings :: surroundings where
  "quiet_surroundings = \<lparr>su_fails = (\<lambda>_ _. None), su_resolved = [''run'', ''smbpal''],
     su_groups = (\<lambda>n. if n = ''smbpal'' then Some 990 else None), su_new_gid = 0, su_listening = False\<rparr>"

theorem socket_opens_to_its_group_only_witness:
  "\<exists>states. put_socket smbpal_transport quiet_surroundings \<lparr>si_dir = Some (0, 493), si_socket = Some (0, 384)\<rparr> = (Inr (), states)
    \<and> open_to_group smbpal_transport quiet_surroundings (last states)
    \<and> map si_socket states = [None, Some (0, 384), Some (0, 384), Some (0, 384), Some (990, 384), Some (990, 432)]"
proof -
  let ?run = "put_socket smbpal_transport quiet_surroundings \<lparr>si_dir = Some (0, 493), si_socket = Some (0, 384)\<rparr>"
  have e: "fst ?run = Inr ()"
    "map si_socket (snd ?run) = [None, Some (0, 384), Some (0, 384), Some (0, 384), Some (990, 384), Some (990, 432)]" by code_simp+
  have "?run = (Inr (), snd ?run)" using e(1) by (simp add: prod_eq_iff)
  moreover have "tp_group smbpal_transport = Some ''smbpal''" by (simp add: smbpal_transport_def)
  ultimately show ?thesis using socket_opens_to_its_group_only [of smbpal_transport quiet_surroundings] e(2)
    by (intro exI [of _ "snd ?run"]) simp
qed

subsection \<open>A connection\<close>

text \<open>What was sent down a connection, whether it is closed, and how often its socket was. \<open>down\<close> says which payload \<open>sendall\<close> fails on.\<close>

record client =
  cl_closed :: bool
  cl_sent :: "string list"
  cl_shut :: nat

definition new_client :: client where "new_client = \<lparr>cl_closed = False, cl_sent = [], cl_shut = 0\<rparr>"

definition send_on :: "(string \<Rightarrow> bool) \<Rightarrow> string \<Rightarrow> client \<Rightarrow> client" where
  "send_on down payload c =
     (if cl_closed c then c
      else if down payload then c\<lparr>cl_closed := True\<rparr>
      else c\<lparr>cl_sent := cl_sent c @ [payload]\<rparr>)"

definition close_on :: "client \<Rightarrow> client" where
  "close_on c = (if cl_closed c then c else c\<lparr>cl_closed := True, cl_shut := Suc (cl_shut c)\<rparr>)"

text \<open>A socket whose send failed is marked closed by \<open>send\<close>, and then \<open>close\<close> does not shut it.\<close>

lemma failed_send_is_never_shut:
  assumes "\<not> cl_closed c" and "down payload"
  shows "close_on (send_on down payload c) = c\<lparr>cl_closed := True\<rparr>"
  using assms by (simp add: send_on_def close_on_def)

subsection \<open>The threads\<close>

text \<open>
  The accepting thread, a thread per client and whoever calls \<open>shutdown\<close>, interleaved at their locks. \<open>hb_accepted\<close> are the
  sockets whose thread has not got to the set of connections yet, \<open>hb_open\<close> is that set, \<open>hb_leaving\<close> are the connections taken
  out of it whose thread has not closed them yet. \<open>hb_targets\<close> is the copy \<open>shutdown\<close> works through.
\<close>

record hub =
  hb_stopping :: bool
  hb_accepted :: "nat list"
  hb_open :: "nat list"
  hb_leaving :: "nat list"
  hb_closed :: "nat list"
  hb_hooked :: "nat list"
  hb_targets :: "nat list option"

definition hub_start :: hub where
  "hub_start = \<lparr>hb_stopping = False, hb_accepted = [], hb_open = [], hb_leaving = [], hb_closed = [], hb_hooked = [],
     hb_targets = None\<rparr>"

definition known_to :: "hub \<Rightarrow> nat set" where
  "known_to h = set (hb_accepted h) \<union> set (hb_open h) \<union> set (hb_leaving h) \<union> set (hb_closed h)"

text \<open>\<open>with self._connections_lock\<close> of \<open>_serve_client\<close>: a connection that comes after the stop is closed at once.\<close>

definition enter :: "nat \<Rightarrow> hub \<Rightarrow> hub" where
  "enter c h =
     (let h = h\<lparr>hb_accepted := removeAll c (hb_accepted h)\<rparr>
      in if hb_stopping h then h\<lparr>hb_closed := c # hb_closed h\<rparr> else h\<lparr>hb_open := c # hb_open h\<rparr>)"

definition sweep_copy :: "hub \<Rightarrow> hub" where
  "sweep_copy h = h\<lparr>hb_targets := Some (hb_open h)\<rparr>"

inductive hub_step :: "hub \<Rightarrow> hub \<Rightarrow> bool" where
  accepts: "c \<notin> known_to h \<Longrightarrow> hub_step h (h\<lparr>hb_accepted := c # hb_accepted h\<rparr>)"
| unknown_peer: "c \<in> set (hb_accepted h) \<Longrightarrow>
    hub_step h (h\<lparr>hb_accepted := removeAll c (hb_accepted h), hb_closed := c # hb_closed h\<rparr>)"
| enters: "c \<in> set (hb_accepted h) \<Longrightarrow> hub_step h (enter c h)"
| discards: "c \<in> set (hb_open h) \<Longrightarrow>
    hub_step h (h\<lparr>hb_open := removeAll c (hb_open h), hb_leaving := c # hb_leaving h\<rparr>)"
| leaves: "c \<in> set (hb_leaving h) \<Longrightarrow>
    hub_step h (h\<lparr>hb_leaving := removeAll c (hb_leaving h), hb_closed := c # hb_closed h, hb_hooked := c # hb_hooked h\<rparr>)"
| stops: "hub_step h (h\<lparr>hb_stopping := True\<rparr>)"
| copies: "hb_stopping h \<Longrightarrow> hb_targets h = None \<Longrightarrow> hub_step h (sweep_copy h)"
| closes: "hb_targets h = Some ts \<Longrightarrow> c \<in> set ts \<Longrightarrow> hub_step h (h\<lparr>hb_closed := c # hb_closed h\<rparr>)"

inductive hub_reachable :: "hub \<Rightarrow> bool" where
  start: "hub_reachable hub_start"
| step: "hub_reachable h \<Longrightarrow> hub_step h h' \<Longrightarrow> hub_reachable h'"

definition hub_inv :: "hub \<Rightarrow> bool" where
  "hub_inv h =
     ((\<forall>ts. hb_targets h = Some ts \<longrightarrow> hb_stopping h \<and> set (hb_open h) \<subseteq> set ts)
      \<and> distinct (hb_hooked h) \<and> set (hb_hooked h) \<subseteq> set (hb_closed h)
      \<and> set (hb_hooked h) \<inter> (set (hb_accepted h) \<union> set (hb_open h) \<union> set (hb_leaving h)) = {}
      \<and> set (hb_accepted h) \<inter> (set (hb_open h) \<union> set (hb_leaving h)) = {} \<and> set (hb_open h) \<inter> set (hb_leaving h) = {})"

lemma hub_inv_step: "hub_step h h' \<Longrightarrow> hub_inv h \<Longrightarrow> hub_inv h'"
  by (induction rule: hub_step.induct)
    (auto simp: hub_inv_def enter_def Let_def sweep_copy_def known_to_def)

lemma hub_inv_reachable: "hub_reachable h \<Longrightarrow> hub_inv h"
  by (induction rule: hub_reachable.induct) (auto simp: hub_inv_step, simp add: hub_inv_def hub_start_def)

text \<open>C40: However the threads interleave, when \<open>shutdown\<close> has closed the connections it copied, every connection the server still
  has is closed, and none is added afterwards: no client is left believing that a stopped daemon is there. The hook for a connection that
  closed runs at most once for each.\<close>

theorem shutdown_closes_every_connection:
  assumes "hub_reachable h" and "hb_targets h = Some ts" and "set ts \<subseteq> set (hb_closed h)"
  shows "set (hb_open h) \<subseteq> set (hb_closed h) \<and> distinct (hb_hooked h)
    \<and> (\<forall>h' c. hub_step h h' \<longrightarrow> c \<in> set (hb_open h') \<longrightarrow> c \<in> set (hb_open h) \<and> c \<in> set (hb_closed h'))"
proof -
  have inv: "hub_inv h" by (rule hub_inv_reachable [OF assms(1)])
  then have o: "set (hb_open h) \<subseteq> set (hb_closed h)" "hb_stopping h" using assms(2,3) by (auto simp: hub_inv_def)
  have "c \<in> set (hb_open h) \<and> c \<in> set (hb_closed h')" if "hub_step h h'" "c \<in> set (hb_open h')" for h' c
    using that o by cases (auto simp: enter_def Let_def sweep_copy_def split: if_splits)
  with o inv show ?thesis by (auto simp: hub_inv_def)
qed

definition stopped_hub :: hub where
  "stopped_hub = \<lparr>hb_stopping = True, hb_accepted = [2], hb_open = [1], hb_leaving = [], hb_closed = [1], hb_hooked = [],
     hb_targets = Some [1]\<rparr>"

lemma stopped_hub_reachable: "hub_reachable stopped_hub"
proof -
  note step = hub_reachable.step
  have 1: "hub_reachable (hub_start\<lparr>hb_accepted := [1]\<rparr>)"
    using step [OF hub_reachable.start accepts [of 1 hub_start]] by (simp add: known_to_def hub_start_def)
  have 2: "hub_reachable (hub_start\<lparr>hb_open := [1]\<rparr>)"
    using step [OF 1 enters [of 1]] by (simp add: enter_def hub_start_def)
  have 3: "hub_reachable (hub_start\<lparr>hb_open := [1], hb_accepted := [2]\<rparr>)"
    using step [OF 2 accepts [of 2]] by (simp add: known_to_def hub_start_def)
  have 4: "hub_reachable (hub_start\<lparr>hb_open := [1], hb_accepted := [2], hb_stopping := True\<rparr>)"
    using step [OF 3 stops] by simp
  have 5: "hub_reachable (hub_start\<lparr>hb_open := [1], hb_accepted := [2], hb_stopping := True, hb_targets := Some [1]\<rparr>)"
    using step [OF 4 copies] by (simp add: hub_start_def sweep_copy_def)
  show ?thesis using step [OF 5 closes [of _ "[1]" 1]] by (simp add: hub_start_def stopped_hub_def)
qed

theorem shutdown_closes_every_connection_witness:
  "set (hb_open stopped_hub) \<subseteq> set (hb_closed stopped_hub) \<and> 1 \<in> set (hb_open stopped_hub) \<and> hub_step stopped_hub (enter 2 stopped_hub)"
proof -
  have "hb_targets stopped_hub = Some [1]" "set [1] \<subseteq> set (hb_closed stopped_hub)" by (simp_all add: stopped_hub_def)
  from shutdown_closes_every_connection [OF stopped_hub_reachable this] show ?thesis
    using enters [of 2 stopped_hub] by (simp add: stopped_hub_def)
qed

end
