(* ===== verification/Helper.thy ===== *)
theory Helper
  imports Access Accounts
begin

text \<open>
  \<^verbatim>\<open>smbpal/system/helper.py\<close>: the requests the macOS daemon makes of the privileged helper, and what it takes for an
  answer. One exchange over the helper's socket is the \<open>talk\<close> argument. A byte string is a \<^typ>\<open>string\<close> of its bytes.
\<close>

subsection \<open>One request\<close>

datatype talked = Helper_said string | No_socket | Not_for_us | Too_late | Broken_off

type_synonym 'w talk = "string \<Rightarrow> 'w \<Rightarrow> talked \<times> 'w"

text \<open>\<open>HelperError\<close> with its message and its token, or another exception.\<close>

datatype helper_fault = Helper_error string "string option" | Raised py_error

type_synonym 'a asked = "helper_fault + 'a"

definition as_error :: "helper_fault \<Rightarrow> py_error" where
  "as_error f = (case f of Helper_error m _ \<Rightarrow> SmbpalError m | Raised e \<Rightarrow> e)"

definition uncaught :: "'a asked \<Rightarrow> 'a res" where
  "uncaught r = (case r of Inl f \<Rightarrow> Inl (as_error f) | Inr x \<Rightarrow> Inr x)"

definition encode_utf8 :: "string \<Rightarrow> string" where
  "encode_utf8 s = concat (map (\<lambda>c. map char_of (utf8 c)) s)"

definition frame_lines :: "string \<Rightarrow> string option \<Rightarrow> string list \<Rightarrow> string list" where
  "frame_lines verb auth args =
     (''VERB '' @ verb) # (case auth of None \<Rightarrow> [] | Some a \<Rightarrow> [''AUTH '' @ concat (map hex2 a)])
     @ map (\<lambda>a. ''ARG '' @ a) args @ [''END'']"

definition frame :: "string \<Rightarrow> string option \<Rightarrow> string list \<Rightarrow> string asked" where
  "frame verb auth args =
     (if list_ex (\<lambda>a. lf \<in> set a \<or> cr \<in> set a) (verb # args)
      then Inl (Helper_error (verb @ '' was given an argument containing a newline'') None)
      else Inr (encode_utf8 (join [lf] (frame_lines verb auth args) @ [lf])))"

definition decoded :: "string \<Rightarrow> string asked" where
  "decoded bytes =
     (case decode_utf8 bytes of
        Inr s \<Rightarrow> Inr s
      | Inl Not_utf8 \<Rightarrow> Inl (Raised ValueError)
      | Inl Above_latin1 \<Rightarrow> Inl (Raised Beyond_latin1))"

text \<open>The answer: a status line and the payload after it. A token is ASCII in the helper's own vocabulary; one that is not
  valid UTF-8 would be read with the replacement character, which lies beyond the model's characters.\<close>

definition read_answer :: "string \<Rightarrow> string \<Rightarrow> string asked" where
  "read_answer verb answer =
     (let st = takeWhile (\<lambda>c. c \<noteq> lf) answer; payload = drop 1 (dropWhile (\<lambda>c. c \<noteq> lf) answer)
      in if st = ''OK'' then Inr payload
         else if take 4 st = ''ERR ''
         then (case decode_utf8 (drop 4 st) of
                 Inr token \<Rightarrow> Inl (Helper_error (''the helper refused '' @ verb) (Some token))
               | Inl _ \<Rightarrow> Inl (Raised Beyond_latin1))
         else Inl (Helper_error (''the helper answered '' @ verb @ '' with something unrecognised'') None))"

definition exchange :: "string \<Rightarrow> talked \<Rightarrow> string asked" where
  "exchange verb t =
     (case t of
        Helper_said answer \<Rightarrow> read_answer verb answer
      | No_socket \<Rightarrow> Inl (Helper_error ''the privileged helper is not running'' None)
      | Not_for_us \<Rightarrow> Inl (Helper_error ''only the daemon may talk to the privileged helper'' None)
      | Too_late \<Rightarrow> Inl (Helper_error (''the helper did not answer '' @ verb @ '' within 10.0s'') None)
      | Broken_off \<Rightarrow> Inl (Helper_error (''could not ask the helper for '' @ verb) None))"

definition ask_helper :: "'w talk \<Rightarrow> string \<Rightarrow> string list \<Rightarrow> string option \<Rightarrow> 'w \<Rightarrow> string asked \<times> 'w" where
  "ask_helper talk verb args auth w =
     (case frame verb auth args of
        Inl e \<Rightarrow> (Inl e, w)
      | Inr f \<Rightarrow> (case talk f w of (t, w') \<Rightarrow> (exchange verb t, w')))"

text \<open>Go on with the payload.\<close>

definition read_as :: "('a \<Rightarrow> 'b asked) \<Rightarrow> 'a asked \<times> 'w \<Rightarrow> 'b asked \<times> 'w" where
  "read_as f rw = (case rw of (Inl e, w) \<Rightarrow> (Inl e, w) | (Inr x, w) \<Rightarrow> (f x, w))"

subsection \<open>What \<open>path.inspect\<close> reports\<close>

datatype verdict = Verdict_ok | Not_found | Not_directory | Outside_roots | Home_root | System_owned

definition PATH_VERDICTS :: "(string \<times> verdict) list" where
  "PATH_VERDICTS =
     [(''ok'', Verdict_ok), (''not-found'', Not_found), (''not-directory'', Not_directory),
      (''outside-roots'', Outside_roots), (''home-root'', Home_root), (''system-owned'', System_owned)]"

record path_facts =
  pf_verdict :: verdict
  pf_resolved :: "string option"
  pf_uid :: "int option"
  pf_gid :: "int option"
  pf_mode :: "int option"
  pf_owner :: "string option"
  pf_has_acl :: bool
  pf_access :: "string option"

definition facts_exist :: "path_facts \<Rightarrow> bool" where "facts_exist f = (pf_verdict f \<noteq> Not_found)"

definition malformed :: helper_fault where
  "malformed = Helper_error ''the helper's path.inspect answer is malformed'' None"

definition FACT_KEYS :: "string list" where
  "FACT_KEYS = [''verdict'', ''resolved'', ''uid'', ''gid'', ''mode'', ''owner'', ''acl'', ''access'']"

fun fact_fields :: "string list \<Rightarrow> (string \<times> string) list \<Rightarrow> (string \<times> string) list asked" where
  "fact_fields [] found = Inr found"
| "fact_fields (line # lines) found =
     (let key = takeWhile (\<lambda>c. c \<noteq> CHR '' '') line
      in if CHR '' '' \<notin> set line \<or> map_of found key \<noteq> None \<or> key \<notin> set FACT_KEYS then Inl malformed
         else fact_fields lines (found @ [(key, drop (Suc (length key)) line)]))"

text \<open>\<open>int(s)\<close> and \<open>int(s, 8)\<close>: white space around, a sign, single underscores between digits, and a base prefix.\<close>

fun octal_groups :: "bool \<Rightarrow> string \<Rightarrow> string option" where
  "octal_groups after_digit [] = (if after_digit then Some [] else None)"
| "octal_groups after_digit (c # cs) =
     (if is_digit c \<and> code c < 56 then map_option ((#) c) (octal_groups True cs)
      else if c = CHR ''_'' \<and> after_digit then octal_groups False cs
      else None)"

definition octal_val :: "string \<Rightarrow> int" where
  "octal_val ds = foldl (\<lambda>n c. 8 * n + (int (code c) - 48)) 0 ds"

definition octal_body :: "string \<Rightarrow> int option" where
  "octal_body w =
     map_option octal_val
       (case w of
          z # x # rest \<Rightarrow>
            if z = CHR ''0'' \<and> (x = CHR ''o'' \<or> x = CHR ''O'')
            then octal_groups False (case rest of [] \<Rightarrow> [] | c # cs \<Rightarrow> if c = CHR ''_'' then cs else rest)
            else octal_groups False w
        | _ \<Rightarrow> octal_groups False w)"

definition py_int_8 :: "string \<Rightarrow> int option" where
  "py_int_8 s =
     (case py_strip s of
        [] \<Rightarrow> None
      | c # cs \<Rightarrow>
          if c = CHR ''-'' then map_option uminus (octal_body cs)
          else if c = CHR ''+'' then octal_body cs
          else octal_body (c # cs))"

definition access_of :: "string option \<Rightarrow> string option asked" where
  "access_of v =
     (case v of
        None \<Rightarrow> Inr None
      | Some a \<Rightarrow>
          if a \<in> {''allow'', ''deny'', ''none''} then Inr (Some a)
          else Inl (Helper_error ''the helper's path.inspect answer has an unknown access state'' None))"

definition facts_of_fields :: "verdict \<Rightarrow> (string \<times> string) list \<Rightarrow> path_facts asked" where
  "facts_of_fields v found =
     (let num = (\<lambda>k. Option.bind (map_of found k) (\<lambda>t. if DIGIT_LIMIT < int (length (filter is_digit t)) then None else py_int (py_strip t)))
      in case (map_of found ''resolved'', num ''uid'', num ''gid'', Option.bind (map_of found ''mode'') py_int_8,
               map_of found ''owner'', map_of found ''acl'') of
           (Some resolved, Some u, Some g, Some m, Some who, Some acl) \<Rightarrow>
             (case access_of (map_of found ''access'') of
                Inl e \<Rightarrow> Inl e
              | Inr a \<Rightarrow> Inr \<lparr>pf_verdict = v, pf_resolved = Some resolved, pf_uid = Some u, pf_gid = Some g, pf_mode = Some m,
                              pf_owner = Some who, pf_has_acl = (acl = ''1''), pf_access = a\<rparr>)
         | _ \<Rightarrow> Inl malformed)"

definition parse_path_facts :: "string \<Rightarrow> path_facts asked" where
  "parse_path_facts payload =
     (case decoded payload of
        Inl e \<Rightarrow> Inl e
      | Inr txt \<Rightarrow>
          (case fact_fields (splitlines txt) [] of
             Inl e \<Rightarrow> Inl e
           | Inr found \<Rightarrow>
               (case Option.bind (map_of found ''verdict'') (map_of PATH_VERDICTS) of
                  None \<Rightarrow> Inl (Helper_error ''the helper's path.inspect answer has no known verdict'' None)
                | Some Not_found \<Rightarrow>
                    Inr \<lparr>pf_verdict = Not_found, pf_resolved = None, pf_uid = None, pf_gid = None, pf_mode = None,
                         pf_owner = None, pf_has_acl = False, pf_access = None\<rparr>
                | Some v \<Rightarrow> facts_of_fields v found)))"

subsection \<open>The verbs\<close>

definition check_grant :: "'w talk \<Rightarrow> string \<Rightarrow> string \<Rightarrow> 'w \<Rightarrow> bool res \<times> 'w" where
  "check_grant talk right auth w =
     (case ask_helper talk ''auth.check'' [right] (Some auth) w of
        (Inr _, w) \<Rightarrow> (Inr True, w)
      | (Inl (Helper_error _ _), w) \<Rightarrow> (Inr False, w)
      | (Inl (Raised e), w) \<Rightarrow> (Inl e, w))"

definition share_list_of :: "'w talk \<Rightarrow> 'w \<Rightarrow> string asked \<times> 'w" where
  "share_list_of talk = ask_helper talk ''share.list'' [] None"

definition path_inspect :: "'w talk \<Rightarrow> string \<Rightarrow> string option \<Rightarrow> 'w \<Rightarrow> path_facts asked \<times> 'w" where
  "path_inspect talk p user w =
     read_as parse_path_facts
       (ask_helper talk ''path.inspect'' (case user of None \<Rightarrow> [p] | Some u \<Rightarrow> [p, u]) None w)"

definition smb_answer :: "string \<Rightarrow> bool asked" where
  "smb_answer payload =
     (case decoded payload of
        Inl e \<Rightarrow> Inl e
      | Inr txt \<Rightarrow>
          if py_strip txt = ''smb-nt 1'' then Inr True
          else if py_strip txt = ''smb-nt 0'' then Inr False
          else Inl (Helper_error ''the helper's account.smb answer is malformed'' None))"

definition account_smb :: "'w talk \<Rightarrow> string \<Rightarrow> 'w \<Rightarrow> bool asked \<times> 'w" where
  "account_smb talk user w = read_as smb_answer (ask_helper talk ''account.smb'' [user] None w)"

definition share_grant :: "'w talk \<Rightarrow> string \<Rightarrow> string \<Rightarrow> string \<Rightarrow> 'w \<Rightarrow> string asked \<times> 'w" where
  "share_grant talk p user auth = ask_helper talk ''share.grant'' [p, user] (Some auth)"

definition owned_names :: "string \<Rightarrow> string list asked" where
  "owned_names payload =
     (case decoded payload of Inl e \<Rightarrow> Inl e | Inr txt \<Rightarrow> Inr (filter (\<lambda>l. l \<noteq> []) (splitlines txt)))"

definition share_owned :: "'w talk \<Rightarrow> 'w \<Rightarrow> string list asked \<times> 'w" where
  "share_owned talk w = read_as owned_names (ask_helper talk ''share.owned'' [] None w)"

definition share_publish :: "'w talk \<Rightarrow> string \<Rightarrow> string \<Rightarrow> bool \<Rightarrow> string option \<Rightarrow> 'w \<Rightarrow> string asked \<times> 'w" where
  "share_publish talk name p read_only auth =
     ask_helper talk ''share.publish'' ([name, p] @ (if read_only then [''read-only''] else [])) auth"

definition share_unpublish :: "'w talk \<Rightarrow> string \<Rightarrow> string option \<Rightarrow> 'w \<Rightarrow> string asked \<times> 'w" where
  "share_unpublish talk name auth = ask_helper talk ''share.unpublish'' [name] auth"

subsection \<open>A frame says what was asked\<close>

lemma encode_utf8_append: "encode_utf8 (s @ t) = encode_utf8 s @ encode_utf8 t"
  by (simp add: encode_utf8_def)

lemma code_of_utf8: "map code (encode_utf8 s) = concat (map utf8 s)"
proof (induction s)
  case (Cons c s)
  have "map (code \<circ> char_of) (utf8 c) = utf8 c"
    using utf8_byte [of _ c] by (intro map_idI) simp
  with Cons show ?case by (simp add: encode_utf8_def)
qed (simp add: encode_utf8_def)

lemma encode_utf8_inj: "encode_utf8 s = encode_utf8 t \<Longrightarrow> s = t"
  by (metis code_of_utf8 utf8_inj)

lemma code_lf: "code lf = 10" by code_simp

lemma lf_not_encoded:
  assumes "lf \<notin> set s"
  shows "lf \<notin> set (encode_utf8 s)"
proof
  assume "lf \<in> set (encode_utf8 s)"
  then obtain c b where c: "c \<in> set s" "b \<in> set (utf8 c)" "char_of b = lf" by (auto simp: encode_utf8_def)
  then have "b < 256" by (simp add: utf8_byte)
  then have "b = code lf" using arg_cong [OF c(3), of code] by simp
  then have "code c = code lf" using c(2) by (auto simp: utf8_def code_lf split: if_splits)
  then have "c = lf" by (simp add: code_inj)
  then show False using c(1) assms by simp
qed

lemma join_ended: "ls \<noteq> [] \<Longrightarrow> join [d] ls @ [d] = join [d] (ls @ [[]])"
proof (induction ls)
  case (Cons l ls)
  then show ?case by (cases ls) (simp_all add: join_Cons)
qed simp

lemma encode_join: "encode_utf8 (join [lf] ls) = join [lf] (map encode_utf8 ls)"
proof (induction ls)
  case (Cons l ls)
  have "encode_utf8 (lf # t) = lf # encode_utf8 t" for t
  proof -
    have "encode_utf8 [lf] = [lf]" by code_simp
    then show ?thesis using encode_utf8_append [of "[lf]" t] by simp
  qed
  with Cons show ?case by (cases ls) (simp_all add: encode_utf8_append)
qed (simp add: encode_utf8_def)

lemma hex2_inj: "hex2 c = hex2 d \<Longrightarrow> c = d"
proof -
  have d: "hex_digit i = hex_digit j \<Longrightarrow> i < 16 \<Longrightarrow> j < 16 \<Longrightarrow> i = j" for i j
    using arg_cong [of "hex_digit i" "hex_digit j" code] by (simp add: hex_digit_def split: if_splits)
  have "code x div 16 < 16" for x using code_less [of x] by (simp add: div_less_iff_less_mult)
  moreover assume "hex2 c = hex2 d"
  ultimately have "code c div 16 = code d div 16" "code c mod 16 = code d mod 16" by (auto simp: hex2_def intro!: d)
  then have "code c = code d" by (metis div_mult_mod_eq)
  then show "c = d" by (simp add: code_inj)
qed

lemma hex_inj: "concat (map hex2 s) = concat (map hex2 t) \<Longrightarrow> s = t"
proof (induction s arbitrary: t)
  case Nil
  then show ?case by (cases t) (simp_all add: hex2_def)
next
  case (Cons c s)
  then obtain d u where t: "t = d # u" by (cases t) (auto simp: hex2_def)
  have two: "\<exists>i j. hex2 x = [i, j]" for x by (simp add: hex2_def)
  obtain i j k l where "hex2 c = [i, j]" "hex2 d = [k, l]" using two by meson
  then have "hex2 c = hex2 d" "concat (map hex2 s) = concat (map hex2 u)" using Cons.prems t by simp_all
  with Cons.IH t show ?case by (blast dest: hex2_inj)
qed

lemma hex_no_lf: "lf \<notin> set (concat (map hex2 a))"
proof
  assume "lf \<in> set (concat (map hex2 a))"
  then obtain c where "lf = hex_digit (code c div 16) \<or> lf = hex_digit (code c mod 16)" by (auto simp: hex2_def)
  moreover have "code c div 16 < 16" using code_less [of c] by (simp add: div_less_iff_less_mult)
  ultimately obtain n where "hex_digit n = lf" "n < 16" by (metis mod_less_divisor zero_less_numeral)
  moreover have "code (hex_digit n) \<noteq> 10" if "n < 16" using that by (simp add: hex_digit_def)
  ultimately show False using code_lf by simp
qed

lemma frame_lines_inj: "frame_lines v a as = frame_lines w b bs \<Longrightarrow> v = w \<and> a = b \<and> as = bs"
proof -
  assume e: "frame_lines v a as = frame_lines w b bs"
  then have v: "v = w" by (simp add: frame_lines_def)
  have args: "as = bs" if "map (\<lambda>a. ''ARG '' @ a) as @ [''END''] = map (\<lambda>a. ''ARG '' @ a) bs @ [''END'']"
    using that by (auto dest: map_injective simp: inj_def)
  have second: "\<exists>l ls. map ((@) ''ARG '') xs @ [''END''] = l # ls \<and> take 5 l \<noteq> ''AUTH ''" for xs :: "string list"
    by (cases xs) simp_all
  consider "a = None" "b = None" | x where "a = Some x" "b = None" | y where "a = None" "b = Some y"
    | x y where "a = Some x" "b = Some y" by (cases a; cases b) blast+
  then show ?thesis
  proof cases
    case 1
    with e args show ?thesis by (simp add: frame_lines_def)
  next
    case 2
    then show ?thesis using e second [of bs] by (auto simp: frame_lines_def)
  next
    case 3
    then show ?thesis using e second [of as] by (auto simp: frame_lines_def)
  next
    case 4
    have "x = y" by (rule hex_inj) (use e 4 in \<open>simp add: frame_lines_def\<close>)
    moreover have "as = bs" by (rule args) (use e 4 in \<open>simp add: frame_lines_def\<close>)
    ultimately show ?thesis using 4 v by blast
  qed
qed

lemma frame_cut:
  assumes "frame v a as = Inr g"
  shows "split_char lf g = map encode_utf8 (frame_lines v a as) @ [[]]"
proof -
  let ?ls = "map encode_utf8 (frame_lines v a as)"
  have g: "g = encode_utf8 (join [lf] (frame_lines v a as @ [[]]))" and ok: "\<forall>x \<in> set (v # as). lf \<notin> set x"
    using assms by (auto simp: frame_def join_ended frame_lines_def list_ex_iff split: if_splits)
  have "\<forall>l \<in> set (frame_lines v a as). lf \<notin> set l"
    using ok hex_no_lf by (auto simp: frame_lines_def lf_def split: option.splits)
  then have "\<forall>l \<in> set (?ls @ [[]]). lf \<notin> set l" using lf_not_encoded by auto
  then have "split_char lf (join [lf] (?ls @ [[]])) = ?ls @ [[]]" by (intro split_char_join) simp_all
  moreover have "encode_utf8 [] = []" by (simp add: encode_utf8_def)
  ultimately show ?thesis by (simp add: g encode_join)
qed

lemma frame_unique:
  assumes "frame verb auth args = Inr f" and "frame v a as = Inr f"
  shows "v = verb \<and> a = auth \<and> as = args"
proof -
  have "map encode_utf8 (frame_lines v a as) = map encode_utf8 (frame_lines verb auth args)"
    using frame_cut [OF assms(1)] frame_cut [OF assms(2)] by simp
  then have "frame_lines v a as = frame_lines verb auth args" using encode_utf8_inj by (simp add: inj_map_eq_map inj_def)
  then show ?thesis using frame_lines_inj by blast
qed

text \<open>A request to the helper says what was asked and nothing else. Cut into lines where the helper cuts it, it is the verb, the
  grant when there is one, each argument and the end; and no other verb, grant or arguments have the same frame, so no argument can pass
  for a field.\<close>

theorem helper_requests_say_what_was_asked:
  assumes "frame verb auth args = Inr f"
  shows "cut_lines f = (map encode_utf8 (frame_lines verb auth args), [])
    \<and> (\<forall>v a as. frame v a as = Inr f \<longrightarrow> v = verb \<and> a = auth \<and> as = args)"
  using frame_cut [OF assms] frame_unique [OF assms] by (simp add: cut_lines_split lines_in_def)

theorem helper_requests_say_what_was_asked_witness:
  "\<exists>f. frame ''share.unpublish'' (Some ''k'') [''Media''] = Inr f \<and> length f = 43
    \<and> (\<forall>v a as. frame v a as = Inr f \<longrightarrow> v = ''share.unpublish'' \<and> as = [''Media''])"
proof -
  let ?f = "encode_utf8 (join [lf] (frame_lines ''share.unpublish'' (Some ''k'') [''Media'']) @ [lf])"
  have f: "frame ''share.unpublish'' (Some ''k'') [''Media''] = Inr ?f" by code_simp
  have "length ?f = 43" by code_simp
  with f helper_requests_say_what_was_asked [OF f] show ?thesis by (intro exI [of _ ?f]) simp
qed

end
