(* ===== verification/Sharepoints.thy ===== *)
theory Sharepoints
  imports Helper Requests
begin

text \<open>
  \<^verbatim>\<open>smbpal/sharepoints/apply.py\<close>: the macOS applier. It inspects, publishes and removes through the helper and changes
  nothing in any other way, so its state \<open>'w\<close> is whatever the helper's \<open>talk\<close> works on. What \<open>sharing\<close> prints for
  a path or an SMB name is taken to be a string. The details of an error are not modelled, its message is.
\<close>

subsection \<open>The applier and the folders it refuses\<close>

text \<open>What a connection to port 445 comes to.\<close>

datatype knock = Port_open | Port_refused | Cannot_tell

definition FIRST_PERSON_UID :: int where "FIRST_PERSON_UID = 500"
definition UNSUPPORTED_METHODS :: "string list" where
  "UNSUPPORTED_METHODS = [''credential.set'', ''credential.remove'']"

record 'w sharepoints =
  sp_accounts :: accounts
  sp_float :: "string \<Rightarrow> string"
  sp_talk :: "'w talk"
  sp_knock :: "'w \<Rightarrow> knock \<times> 'w"

datatype folder_refusal =
    Folder_missing string
  | Not_a_folder string "string option"
  | Outside_the_roots string "string option"
  | Whole_home string "string option" "string option"
  | System_folder string "string option" "string option"

text \<open>\<open>(it resolves to ...)\<close>, when it resolves elsewhere.\<close>

definition resolves_to :: "string \<Rightarrow> path_facts \<Rightarrow> string option" where
  "resolves_to p f = (case pf_resolved f of None \<Rightarrow> None | Some r \<Rightarrow> if r \<noteq> [] \<and> r \<noteq> p then Some r else None)"

definition share_refusal :: "string \<Rightarrow> path_facts \<Rightarrow> folder_refusal option" where
  "share_refusal p f =
     (let via = resolves_to p f in
      case pf_verdict f of
        Verdict_ok \<Rightarrow> None
      | Not_found \<Rightarrow> Some (Folder_missing p)
      | Not_directory \<Rightarrow> Some (Not_a_folder p via)
      | Outside_roots \<Rightarrow> Some (Outside_the_roots p via)
      | Home_root \<Rightarrow> Some (Whole_home p (pf_owner f) via)
      | System_owned \<Rightarrow> Some (System_folder p (pf_owner f) via))"

subsection \<open>Planning\<close>

datatype why_not_plain = Read_only_because read_only_reason | Refused_because folder_refusal | Cannot_inspect string string

record planned_sharepoint =
  pp_share :: obj
  pp_status :: dir_status
  pp_read_only :: bool
  pp_reason :: "why_not_plain option"

definition share_facts :: "'w sharepoints \<Rightarrow> obj \<Rightarrow> 'w \<Rightarrow> path_facts asked \<times> 'w" where
  "share_facts sp share w =
     path_inspect (sp_talk sp) (text_of share ''path'')
       (case identity_for (sp_accounts sp) share of
          None \<Rightarrow> None
        | Some who \<Rightarrow> if FIRST_PERSON_UID \<le> si_uid who then Some (si_username who) else None) w"

text \<open>\<open>stat.S_ISDIR\<close> and \<open>S_IMODE\<close> take a \<open>mode_t\<close>, sixteen bits wide on macOS, and raise on anything else.\<close>

definition status_of_facts :: "accounts \<Rightarrow> obj \<Rightarrow> path_facts \<Rightarrow> dir_status res" where
  "status_of_facts acc share f =
     (let p = text_of share ''path'';
          m = (case pf_mode f of None \<Rightarrow> 0 | Some m \<Rightarrow> m) OR (if pf_verdict f = Not_directory then 0 else 16384)
      in if \<not> facts_exist f then Inr (absent_dir p)
         else if m < 0 \<or> 65536 \<le> m then Inl OverflowError
         else Inr (describe p (case pf_uid f of None \<Rightarrow> -1 | Some u \<Rightarrow> u) (case pf_gid f of None \<Rightarrow> -1 | Some g \<Rightarrow> g) m
                (m AND 61440 = 16384) (case pf_owner f of None \<Rightarrow> ''None'' | Some n \<Rightarrow> n) (identity_for acc share)
                (pf_has_acl f) (pf_access f)))"

definition plan_one :: "accounts \<Rightarrow> obj \<Rightarrow> path_facts \<Rightarrow> planned_sharepoint res" where
  "plan_one acc share f =
     and_then (status_of_facts acc share f) (\<lambda>st.
       case effective_read_only (truthy (get share ''read_only'')) st of
         (read_only, reason) \<Rightarrow>
           Inr \<lparr>pp_share = share, pp_status = st, pp_read_only = read_only,
                pp_reason = (case share_refusal (text_of share ''path'') f of
                               Some r \<Rightarrow> Some (Refused_because r)
                             | None \<Rightarrow> map_option Read_only_because reason)\<rparr>)"

definition uninspected :: "obj \<Rightarrow> string \<Rightarrow> planned_sharepoint" where
  "uninspected share m =
     \<lparr>pp_share = share, pp_status = absent_dir (text_of share ''path''), pp_read_only = truthy (get share ''read_only''),
      pp_reason = Some (Cannot_inspect (text_of share ''path'') m)\<rparr>"

fun plan_sharepoints :: "'w sharepoints \<Rightarrow> obj list \<Rightarrow> (planned_sharepoint list, 'w) act" where
  "plan_sharepoints sp [] w = (Inr [], w)"
| "plan_sharepoints sp (share # later) w =
     (case share_facts sp share w of
        (Inl (Raised e), w) \<Rightarrow> (Inl e, w)
      | (Inl (Helper_error m _), w) \<Rightarrow>
          then_do (plan_sharepoints sp later w) (\<lambda>ps w. (Inr (uninspected share m # ps), w))
      | (Inr f, w) \<Rightarrow>
          then_do (plan_one (sp_accounts sp) share f, w) (\<lambda>p w.
          then_do (plan_sharepoints sp later w) (\<lambda>ps w. (Inr (p # ps), w))))"

subsection \<open>What \<open>sharing\<close> lists\<close>

text \<open>\<open>json.loads\<close> of bytes: it would detect UTF-16 and UTF-32, and reads surrogates; both leave the model's characters.\<close>

definition other_encoding :: "string \<Rightarrow> bool" where
  "other_encoding b =
     (take 2 b \<in> {[CHR 0xFE, CHR 0xFF], [CHR 0xFF, CHR 0xFE]}
      \<or> CHR 0x00 \<in> set (take 2 b) \<and> (length b = 2 \<or> 4 \<le> length b)
      \<or> list_ex (\<lambda>(c, d). c = CHR 0xED \<and> 160 \<le> code d) (zip b (tl b)))"

definition loads_bytes :: "(string \<Rightarrow> string) \<Rightarrow> string \<Rightarrow> json_error + json" where
  "loads_bytes flt b =
     (if other_encoding b then Inl Beyond_model
      else case decode_utf8 b of
             Inr s \<Rightarrow> loads flt s
           | Inl Not_utf8 \<Rightarrow> Inl Malformed
           | Inl Above_latin1 \<Rightarrow> Inl Beyond_model)"

definition listing_of :: "(string \<Rightarrow> string) \<Rightarrow> string \<Rightarrow> (string \<times> obj) list res" where
  "listing_of flt payload =
     (case loads_bytes flt (if payload = [] then ''{}'' else payload) of
        Inl Beyond_model \<Rightarrow> Inl Beyond_latin1
      | Inl _ \<Rightarrow> Inl (ApplyError ''could not read this Mac's sharepoints'')
      | Inr (JObj ob) \<Rightarrow> Inr [(k, r). (k, JObj r) \<leftarrow> ob]
      | Inr _ \<Rightarrow> Inl (ApplyError ''could not read this Mac's sharepoints''))"

definition asking :: "'a asked \<times> 'w \<Rightarrow> 'a res \<times> 'w" where
  "asking rw = (case rw of (r, w) \<Rightarrow> (uncaught r, w))"

definition listed :: "'w sharepoints \<Rightarrow> ((string \<times> obj) list, 'w) act" where
  "listed sp w = then_do (asking (share_list_of (sp_talk sp) w)) (\<lambda>payload w. (listing_of (sp_float sp) payload, w))"

definition owned_by_us :: "'w sharepoints \<Rightarrow> (string list, 'w) act" where
  "owned_by_us sp w = asking (share_owned (sp_talk sp) w)"

definition point :: "(string \<times> obj) list \<Rightarrow> string \<Rightarrow> obj" where
  "point current name = (case map_of current name of None \<Rightarrow> [] | Some r \<Rightarrow> r)"

definition point_read_only :: "obj \<Rightarrow> bool" where "point_read_only r = truthy (get r ''smb_read_only'')"

text \<open>A record is at the folder that was inspected.\<close>

definition point_at :: "obj \<Rightarrow> string option \<Rightarrow> bool" where
  "point_at r file = (get r ''path'' = (case file of None \<Rightarrow> JNull | Some p \<Rightarrow> JStr p))"

text \<open>The helper's refusals become errors of the change; the headline is what could not be done.\<close>

definition explain :: "string option \<Rightarrow> helper_fault \<Rightarrow> py_error" where
  "explain headline f =
     (case f of
        Helper_error m _ \<Rightarrow> ApplyError (case headline of None \<Rightarrow> m | Some h \<Rightarrow> h)
      | Raised e \<Rightarrow> e)"

definition explained :: "string option \<Rightarrow> 'a asked \<times> 'w \<Rightarrow> 'a res \<times> 'w" where
  "explained headline rw = (case rw of (Inl f, w) \<Rightarrow> (Inl (explain headline f), w) | (Inr x, w) \<Rightarrow> (Inr x, w))"

definition needs_administrator :: "string \<Rightarrow> py_error" where
  "needs_administrator what =
     NeedsAuthorisation (what @ '' needs an administrator's authorisation, even for root'') MAC_MANAGE_SHARES"

subsection \<open>Applying\<close>

fun all_facts :: "'w sharepoints \<Rightarrow> obj list \<Rightarrow> (string \<times> path_facts) list \<Rightarrow> ((string \<times> path_facts) list, 'w) act" where
  "all_facts sp [] found w = (Inr found, w)"
| "all_facts sp (share # later) found w =
     then_do (asking (share_facts sp share w)) (\<lambda>f w.
       all_facts sp later (AList.update (text_of share ''id'') f found) w)"

definition facts_for :: "(string \<times> path_facts) list \<Rightarrow> obj \<Rightarrow> path_facts res" where
  "facts_for found share =
     (case map_of found (text_of share ''id'') of None \<Rightarrow> Inl (KeyError (text_of share ''id'')) | Some f \<Rightarrow> Inr f)"

definition not_refused :: "(string \<times> path_facts) list \<Rightarrow> obj \<Rightarrow> (string \<times> string option) res" where
  "not_refused found share =
     and_then (facts_for found share) (\<lambda>f.
       case share_refusal (text_of share ''path'') f of
         Some _ \<Rightarrow> Inl (ApplyError (''cannot share '' @ repr (get share ''name'')))
       | None \<Rightarrow> Inr (text_of share ''name'', pf_resolved f))"

text \<open>\<open>{name: ... for share in ...}\<close>.\<close>

definition dict_of :: "(string \<times> 'b) list \<Rightarrow> (string \<times> 'b) list" where
  "dict_of kvs = fold (\<lambda>(k, v). AList.update k v) kvs []"

type_synonym published = "(string \<times> string option) list"

definition asked_read_only :: "(string \<times> bool) list \<Rightarrow> string \<Rightarrow> bool" where
  "asked_read_only ro name = (map_of ro name = Some True)"

definition stale_points :: "published \<Rightarrow> (string \<times> bool) list \<Rightarrow> string list \<Rightarrow> (string \<times> obj) list \<Rightarrow> string list" where
  "stale_points wanted ro owned current =
     sort (filter (\<lambda>name.
       case map_of wanted name of
         None \<Rightarrow> True
       | Some file \<Rightarrow> \<not> point_at (point current name) file \<or> point_read_only (point current name) \<noteq> asked_read_only ro name)
       (remdups owned))"

definition missing_points :: "published \<Rightarrow> string list \<Rightarrow> string list \<Rightarrow> string list" where
  "missing_points wanted owned stale =
     sort (filter (\<lambda>name. name \<notin> set owned \<or> name \<in> set stale) (map fst wanted))"

fun unpublish_all :: "'w sharepoints \<Rightarrow> string option \<Rightarrow> string list \<Rightarrow> (unit, 'w) act" where
  "unpublish_all sp grant [] w = (Inr (), w)"
| "unpublish_all sp grant (name # names) w =
     then_do (explained None (share_unpublish (sp_talk sp) name grant w)) (\<lambda>_ w. unpublish_all sp grant names w)"

text \<open>\<open>"\n" in None\<close> is a \<open>TypeError\<close>; a folder that was not refused has a resolved path.\<close>

definition publish_one :: "'w sharepoints \<Rightarrow> string option \<Rightarrow> published \<Rightarrow> (string \<times> bool) list \<Rightarrow> string \<Rightarrow> (unit, 'w) act" where
  "publish_one sp grant wanted ro name w =
     (case map_of wanted name of
        Some (Some file) \<Rightarrow>
          then_do (explained None (share_publish (sp_talk sp) name file (asked_read_only ro name) grant w))
            (\<lambda>_ w. (Inr (), w))
      | _ \<Rightarrow> (Inl TypeError, w))"

fun publish_all :: "'w sharepoints \<Rightarrow> string option \<Rightarrow> published \<Rightarrow> (string \<times> bool) list \<Rightarrow> string list \<Rightarrow> (unit, 'w) act" where
  "publish_all sp grant wanted ro [] w = (Inr (), w)"
| "publish_all sp grant wanted ro (name # names) w =
     then_do (publish_one sp grant wanted ro name w) (\<lambda>_ w. publish_all sp grant wanted ro names w)"

definition verify_points :: "'w sharepoints \<Rightarrow> published \<Rightarrow> (unit, 'w) act" where
  "verify_points sp wanted w =
     then_do (listed sp w) (\<lambda>current w.
       case sort (map fst (filter (\<lambda>(name, file). \<not> point_at (point current name) file) wanted)) of
         [] \<Rightarrow> (Inr (), w)
       | names \<Rightarrow> (Inl (ApplyError (''macOS did not publish '' @ join '', '' (map repr_str names))), w))"

text \<open>A refusal to unpublish is only logged.\<close>

fun unpublish_quietly :: "'w sharepoints \<Rightarrow> string option \<Rightarrow> string list \<Rightarrow> (unit, 'w) act" where
  "unpublish_quietly sp grant [] w = (Inr (), w)"
| "unpublish_quietly sp grant (name # names) w =
     (case share_unpublish (sp_talk sp) name grant w of
        (Inl (Raised e), w) \<Rightarrow> (Inl e, w)
      | (_, w) \<Rightarrow> unpublish_quietly sp grant names w)"

definition verify_read_only :: "'w sharepoints \<Rightarrow> string option \<Rightarrow> (string \<times> bool) list \<Rightarrow> (unit, 'w) act" where
  "verify_read_only sp grant ro w =
     then_do (listed sp w) (\<lambda>current w.
       case sort (map fst (filter (\<lambda>(name, wanted). wanted \<and> \<not> point_read_only (point current name)) ro)) of
         [] \<Rightarrow> (Inr (), w)
       | names \<Rightarrow>
           then_do (unpublish_quietly sp grant names w) (\<lambda>_ w.
             (Inl (ApplyError (''macOS did not make '' @ join '', '' (map repr_str names) @ '' read-only'')), w)))"

definition change_points ::
    "'w sharepoints \<Rightarrow> string option \<Rightarrow> published \<Rightarrow> (string \<times> bool) list \<Rightarrow> string list \<Rightarrow> (string \<times> obj) list \<Rightarrow> (unit, 'w) act" where
  "change_points sp grant wanted ro owned current w =
     (let stale = stale_points wanted ro owned current; missing = missing_points wanted owned stale in
      case find (\<lambda>name. map_of current name \<noteq> None \<and> name \<notin> set owned) missing of
        Some name \<Rightarrow>
          (Inl (AlreadyExists (''this Mac already shares a folder called '' @ repr_str name
             @ '' that SMBPal did not create'')), w)
      | None \<Rightarrow>
          if (stale \<noteq> [] \<or> missing \<noteq> []) \<and> grant = None
          then (Inl (needs_administrator ''changing what this Mac shares''), w)
          else then_do (unpublish_all sp grant stale w) (\<lambda>_ w. publish_all sp grant wanted ro missing w))"

text \<open>Change what differs, and look whether it was done.\<close>

definition settle_points ::
    "'w sharepoints \<Rightarrow> string option \<Rightarrow> published \<Rightarrow> (string \<times> bool) list \<Rightarrow> string list \<Rightarrow> (string \<times> obj) list \<Rightarrow> (unit, 'w) act" where
  "settle_points sp grant wanted ro owned current w =
     then_do (change_points sp grant wanted ro owned current w) (\<lambda>_ w.
     then_do (verify_points sp wanted w) (\<lambda>_ w. verify_read_only sp grant ro w))"

record sharepoint_report =
  sr_planned :: "planned_sharepoint list"
  sr_served :: "string list"

definition apply_sharepoints :: "'w sharepoints \<Rightarrow> obj \<Rightarrow> string option \<Rightarrow> (sharepoint_report, 'w) act" where
  "apply_sharepoints sp config grant w =
     (let shares = records config ''shares''; active = filter enabled shares in
      then_do (all_facts sp shares [] w) (\<lambda>found w.
      then_do (map_res (\<lambda>s. and_then (facts_for found s) (plan_one (sp_accounts sp) s)) shares, w) (\<lambda>planned w.
      then_do (map_res (not_refused found) active, w) (\<lambda>folders w.
      let wanted = dict_of folders;
          ro = dict_of (map (\<lambda>s. (text_of s ''name'', truthy (get s ''read_only''))) active) in
      then_do (owned_by_us sp w) (\<lambda>owned w.
      then_do (listed sp w) (\<lambda>current w.
      then_do (settle_points sp grant wanted ro owned current w) (\<lambda>_ w.
        (Inr \<lparr>sr_planned = planned, sr_served = sort (map fst wanted)\<rparr>, w))))))))"

definition teardown_sharepoints :: "'w sharepoints \<Rightarrow> string option \<Rightarrow> (string list, 'w) act" where
  "teardown_sharepoints sp grant w =
     then_do (owned_by_us sp w) (\<lambda>names w.
     let owned = sort (remdups names) in
       if owned \<noteq> [] \<and> grant = None
       then (Inl (needs_administrator ''removing what this Mac shares''), w)
       else then_do (unpublish_all sp grant owned w) (\<lambda>_ w. (Inr owned, w)))"

subsection \<open>Access\<close>

definition make_sharepoint_writable :: "'w sharepoints \<Rightarrow> obj \<Rightarrow> string option \<Rightarrow> (dir_status, 'w) act" where
  "make_sharepoint_writable sp share grant w =
     (if \<not> truthy (get share ''credential_ref'')
      then (Inl (ApplyError (''share '' @ repr (get share ''id'') @ '' has no user assigned'')), w)
      else case grant of
        None \<Rightarrow> (Inl (needs_administrator ''changing who can write to a shared folder''), w)
      | Some auth \<Rightarrow>
          (let user = text_of share ''credential_ref'' in
           then_do (explained (Some (''cannot make '' @ repr (get share ''name'') @ '' writable for '' @ user))
                      (share_grant (sp_talk sp) (text_of share ''path'') user auth w)) (\<lambda>_ w.
           then_do (plan_sharepoints sp [share] w) (\<lambda>ps w.
             case ps of [p] \<Rightarrow> (Inr (pp_status p), w) | _ \<Rightarrow> (Inl ValueError, w)))))"

definition may_sign_in :: "'w sharepoints \<Rightarrow> obj \<Rightarrow> (bool option, 'w) act" where
  "may_sign_in sp share w =
     (if \<not> truthy (get share ''credential_ref'') then (Inr None, w)
      else case account_smb (sp_talk sp) (text_of share ''credential_ref'') w of
        (Inr b, w) \<Rightarrow> (Inr (Some b), w)
      | (Inl (Helper_error _ _), w) \<Rightarrow> (Inr None, w)
      | (Inl (Raised e), w) \<Rightarrow> (Inl e, w))"

definition effective_points :: "'w sharepoints \<Rightarrow> ((string \<times> string) list, 'w) act" where
  "effective_points sp w =
     then_do (listed sp w) (\<lambda>current w.
       (Inr (dict_of (map (\<lambda>(name, r). (if truthy (get r ''smb_name'') then text_of r ''smb_name'' else name,
                                        if truthy (get r ''path'') then text_of r ''path'' else []))
               (filter (\<lambda>(name, r). case map_of r ''smb_shared'' of None \<Rightarrow> True | Some v \<Rightarrow> truthy v) current))), w))"

definition unmanaged_points :: "'w sharepoints \<Rightarrow> string list \<Rightarrow> ((string \<times> string) list, 'w) act" where
  "unmanaged_points sp names w =
     then_do (owned_by_us sp w) (\<lambda>owned w.
     then_do (effective_points sp w) (\<lambda>points w. (Inr (filter (\<lambda>(name, _). name \<notin> set owned) points), w)))"

definition file_sharing :: "'w sharepoints \<Rightarrow> (obj, 'w) act" where
  "file_sharing sp w =
     (case sp_knock sp w of
        (k, w) \<Rightarrow>
          (Inr [(''unit'', JStr ''com.apple.smbd''), (''installed'', JBool True), (''active'', JBool (k \<noteq> Port_refused))], w))"

subsection \<open>What the applier asks of the helper\<close>

text \<open>A question reads; a request is about a sharepoint when it publishes or removes it.\<close>

definition question :: "string \<Rightarrow> bool" where
  "question f = (\<exists>v args. v \<in> {''share.list'', ''share.owned'', ''path.inspect'', ''account.smb''} \<and> frame v None args = Inr f)"

definition request_about :: "string \<Rightarrow> string \<Rightarrow> bool" where
  "request_about name f =
     (\<exists>auth rest. frame ''share.publish'' auth (name # rest) = Inr f \<or> frame ''share.unpublish'' auth (name # rest) = Inr f)"

definition questions_change_nothing :: "'w talk \<Rightarrow> bool" where
  "questions_change_nothing talk = (\<forall>f w. question f \<longrightarrow> snd (talk f w) = w)"

lemma ask_helper_snd:
  "snd (ask_helper talk v args auth w) = (case frame v auth args of Inl _ \<Rightarrow> w | Inr f \<Rightarrow> snd (talk f w))"
  by (simp add: ask_helper_def split: sum.split prod.split)

lemma ask_quiet:
  "questions_change_nothing talk \<Longrightarrow> v \<in> {''share.list'', ''share.owned'', ''path.inspect'', ''account.smb''}
   \<Longrightarrow> snd (ask_helper talk v args None w) = w"
  unfolding ask_helper_snd questions_change_nothing_def question_def by (auto split: sum.split)

lemma snd_wrapped [simp]:
  "snd (asking rw) = snd rw" "snd (explained h rw) = snd rw" "snd (read_as g rw) = snd rw"
  by (auto simp: asking_def explained_def read_as_def split: prod.split sum.split)

text \<open>So no question changes the state.\<close>

abbreviation quiet_helper :: "'w sharepoints \<Rightarrow> bool" where
  "quiet_helper sp \<equiv> questions_change_nothing (sp_talk sp)"

lemma facts_quiet: "quiet_helper sp \<Longrightarrow> snd (share_facts sp s w) = w"
  by (simp add: share_facts_def path_inspect_def ask_quiet)

lemma owned_quiet: "quiet_helper sp \<Longrightarrow> snd (owned_by_us sp w) = w"
  by (simp add: owned_by_us_def share_owned_def ask_quiet)

lemma listed_quiet: "quiet_helper sp \<Longrightarrow> snd (listed sp w) = w"
  unfolding listed_def
  by (rule then_do_keeps [of "\<lambda>x. x = w"]) (simp_all add: share_list_of_def ask_quiet)

lemma sign_in_quiet: "quiet_helper sp \<Longrightarrow> snd (may_sign_in sp s w) = w"
  using ask_quiet [of "sp_talk sp" "''account.smb''" "[text_of s ''credential_ref'']" w]
  by (auto simp: may_sign_in_def account_smb_def read_as_def split: prod.splits sum.splits helper_fault.splits)

lemma plan_quiet: "quiet_helper sp \<Longrightarrow> snd (plan_sharepoints sp ss w) = w"
proof (induction ss)
  case (Cons s ss)
  note tail = then_do_keeps [of "\<lambda>x. x = w"]
  obtain r where r: "share_facts sp s w = (r, w)" using facts_quiet [OF Cons.prems, of s w] by (cases "share_facts sp s w") simp
  show ?case
  proof (cases r)
    case (Inl f)
    then show ?thesis using r Cons by (cases f) (auto intro!: tail)
  next
    case (Inr f)
    then have "plan_sharepoints sp (s # ss) w = then_do (plan_one (sp_accounts sp) s f, w) (\<lambda>p w.
        then_do (plan_sharepoints sp ss w) (\<lambda>ps w. (Inr (p # ps), w)))" using r by simp
    then show ?thesis using Cons by (simp only:) (intro tail; auto)
  qed
qed simp

lemma all_facts_quiet: "quiet_helper sp \<Longrightarrow> snd (all_facts sp ss found w) = w"
  by (induction ss arbitrary: found) (auto intro!: then_do_keeps [of "\<lambda>x. x = w"] simp: facts_quiet)

lemma effective_quiet: "quiet_helper sp \<Longrightarrow> snd (effective_points sp w) = w"
  unfolding effective_points_def by (rule then_do_keeps [of "\<lambda>x. x = w"]) (simp_all add: listed_quiet)

lemma unmanaged_quiet: "quiet_helper sp \<Longrightarrow> snd (unmanaged_points sp names w) = w"
  unfolding unmanaged_points_def
  by (intro then_do_keeps [of "\<lambda>x. x = w"]) (simp_all add: owned_quiet effective_quiet)

lemmas quiet_steps = facts_quiet owned_quiet listed_quiet all_facts_quiet

subsection \<open>What a request may change\<close>

text \<open>A property of the state that every request keeps which is not about the sharepoint \<open>name\<close>.\<close>

definition kept_unless_about :: "('w \<Rightarrow> bool) \<Rightarrow> string \<Rightarrow> 'w talk \<Rightarrow> bool" where
  "kept_unless_about P name talk = (\<forall>f w. P w \<longrightarrow> \<not> request_about name f \<longrightarrow> P (snd (talk f w)))"

lemma ask_keeps:
  assumes "kept_unless_about P name talk" and "P w" and "v \<in> {''share.publish'', ''share.unpublish''} \<Longrightarrow> hd args \<noteq> name"
  shows "P (snd (ask_helper talk v args auth w))"
proof (cases "frame v auth args")
  case (Inr f)
  have "\<not> request_about name f"
  proof
    assume "request_about name f"
    then obtain u a rest where u: "frame u a (name # rest) = Inr f" "u \<in> {''share.publish'', ''share.unpublish''}"
      by (auto simp: request_about_def)
    from frame_unique [OF Inr u(1)] u(2) have "v \<in> {''share.publish'', ''share.unpublish''}" "hd args = name" by auto
    then show False using assms(3) by blast
  qed
  then show ?thesis using Inr assms(1,2) by (simp add: ask_helper_snd kept_unless_about_def)
qed (simp add: ask_helper_snd assms(2))

lemma unpublish_keeps:
  "kept_unless_about P name (sp_talk sp) \<Longrightarrow> P w \<Longrightarrow> name \<noteq> n \<Longrightarrow> P (snd (share_unpublish (sp_talk sp) n grant w))"
  unfolding share_unpublish_def by (rule ask_keeps [where name = name]) simp_all

lemma unpublish_all_keeps:
  "kept_unless_about P name (sp_talk sp) \<Longrightarrow> P w \<Longrightarrow> name \<notin> set names \<Longrightarrow> P (snd (unpublish_all sp grant names w))"
proof (induction names arbitrary: w)
  case (Cons n ns)
  have "P (snd (explained None (share_unpublish (sp_talk sp) n grant w)))"
    using unpublish_keeps [OF Cons.prems(1,2), of n grant] Cons.prems(3) by simp
  then show ?case unfolding unpublish_all.simps
    by (rule then_do_keeps [of P]) (rule Cons.IH, use Cons.prems in simp_all)
qed simp

lemma unpublish_quietly_keeps:
  "kept_unless_about P name (sp_talk sp) \<Longrightarrow> P w \<Longrightarrow> name \<notin> set names \<Longrightarrow> P (snd (unpublish_quietly sp grant names w))"
proof (induction names arbitrary: w)
  case (Cons n ns)
  obtain r w1 where u: "share_unpublish (sp_talk sp) n grant w = (r, w1)" by fastforce
  then have "P w1" using unpublish_keeps [OF Cons.prems(1,2), of n grant] Cons.prems(3) by simp
  with Cons.IH [OF Cons.prems(1)] Cons.prems(3) have "P (snd (unpublish_quietly sp grant ns w1))" by simp
  with u \<open>P w1\<close> show ?case by (simp split: sum.split helper_fault.split)
qed simp

lemma publish_one_keeps:
  assumes "kept_unless_about P name (sp_talk sp)" "P w" "name \<noteq> n"
  shows "P (snd (publish_one sp grant wanted ro n w))"
proof -
  have "P (snd (explained None (share_publish (sp_talk sp) n folder flag grant w)))" for folder flag
    unfolding share_publish_def snd_wrapped by (rule ask_keeps [OF assms(1,2)]) (use assms(3) in simp)
  then have "P (snd (then_do (explained None (share_publish (sp_talk sp) n folder flag grant w)) (\<lambda>_ w. (Inr (), w))))" for folder flag
    by (rule then_do_keeps [of P]) simp
  then show ?thesis by (simp add: publish_one_def assms(2) split: option.split)
qed

lemma publish_all_keeps:
  "kept_unless_about P name (sp_talk sp) \<Longrightarrow> P w \<Longrightarrow> name \<notin> set names \<Longrightarrow> P (snd (publish_all sp grant wanted ro names w))"
proof (induction names arbitrary: w)
  case (Cons n ns)
  have "P (snd (publish_one sp grant wanted ro n w))" using publish_one_keeps [OF Cons.prems(1,2)] Cons.prems(3) by simp
  then show ?case unfolding publish_all.simps
    by (rule then_do_keeps [of P]) (rule Cons.IH, use Cons.prems in simp_all)
qed simp

lemma in_missing_points: "name \<in> set (missing_points wanted owned stale) \<longleftrightarrow> name \<in> fst ` set wanted \<and> (name \<notin> set owned \<or> name \<in> set stale)"
  by (auto simp: missing_points_def)

lemma in_stale_points: "name \<in> set (stale_points wanted ro owned current) \<longleftrightarrow> name \<in> set owned \<and>
    (case map_of wanted name of
       None \<Rightarrow> True
     | Some folder \<Rightarrow> \<not> point_at (point current name) folder \<or> point_read_only (point current name) \<noteq> asked_read_only ro name)"
  by (auto simp: stale_points_def)

text \<open>A name somebody else publishes is refused before anything is changed.\<close>

lemma change_points_keeps:
  assumes "kept_unless_about P name (sp_talk sp)" "P w"
    "map_of current name \<noteq> None \<or> name \<notin> fst ` set wanted" "name \<notin> set owned"
  shows "P (snd (change_points sp grant wanted ro owned current w))"
    and "fst (change_points sp grant wanted ro owned current w) = Inr u \<Longrightarrow> name \<notin> fst ` set wanted"
proof -
  let ?st = "stale_points wanted ro owned current" let ?ms = "missing_points wanted owned ?st"
  let ?clash = "find (\<lambda>n. map_of current n \<noteq> None \<and> n \<notin> set owned) ?ms"
  have "name \<notin> set ?st" using assms(4) by (simp add: in_stale_points)
  moreover have ms: "name \<notin> set ?ms" if "?clash = None"
    using that assms(3,4) by (auto simp: find_None_iff in_missing_points)
  ultimately have "P (snd (then_do (unpublish_all sp grant ?st w) (\<lambda>_ w. publish_all sp grant wanted ro ?ms w)))"
    if "?clash = None"
    using that by (intro then_do_keeps [of P] unpublish_all_keeps [OF assms(1,2)] publish_all_keeps [OF assms(1)]) simp_all
  then show "P (snd (change_points sp grant wanted ro owned current w))"
    using assms(2) by (simp add: change_points_def Let_def split: option.split)
  show "name \<notin> fst ` set wanted" if "fst (change_points sp grant wanted ro owned current w) = Inr u"
  proof -
    have "?clash = None" using that by (auto simp: change_points_def Let_def split: option.splits)
    with ms assms(4) show ?thesis by (auto simp: in_missing_points)
  qed
qed

lemma verify_read_only_keeps:
  assumes "kept_unless_about P name (sp_talk sp)" "quiet_helper sp" "P w" "name \<notin> fst ` set ro"
  shows "P (snd (verify_read_only sp grant ro w))"
proof -
  have "P (snd (case names of [] \<Rightarrow> (Inr (), w) | ns \<Rightarrow> then_do (unpublish_quietly sp grant ns w) (\<lambda>_ w. (Inl (e ns), w))))"
    if "name \<notin> set names" for names and e :: "string list \<Rightarrow> py_error"
  proof -
    have "P (snd (then_do (unpublish_quietly sp grant names w) (\<lambda>_ w. (Inl x, w))))" for x
      by (rule then_do_keeps [of P]) (use unpublish_quietly_keeps [OF assms(1,3) that] in simp_all)
    then show ?thesis using assms(3) by (cases names) (simp_all del: unpublish_quietly.simps)
  qed
  moreover have "name \<notin> set (sort (map fst (filter q ro)))" for q using assms(4) by auto
  ultimately have "P (snd (case sort (map fst (filter q ro)) of [] \<Rightarrow> (Inr (), w)
      | ns \<Rightarrow> then_do (unpublish_quietly sp grant ns w) (\<lambda>_ w. (Inl (e ns), w))))" for q and e :: "string list \<Rightarrow> py_error" by blast
  note k = this [where e = "\<lambda>ns. ApplyError (''macOS did not make '' @ join '', '' (map repr_str ns) @ '' read-only'')"]
  show ?thesis unfolding verify_read_only_def
    by (rule then_do_quiet [of _ w "\<lambda>y. P (snd y)"]) (use assms(3) listed_quiet [OF assms(2), of w] k in simp_all)
qed

lemma dict_of_keys: "fst ` set (dict_of kvs) = fst ` set kvs"
proof -
  have "fst ` set (fold (\<lambda>(k, v). AList.update k v) kvs d) = fst ` set kvs \<union> fst ` set d" for d :: "(string \<times> 'a) list"
  proof (induction kvs arbitrary: d)
    case (Cons c kvs)
    then show ?case by (cases c) (simp add: keys_update)
  qed simp
  from this [of "[]"] show ?thesis by (simp add: dict_of_def)
qed

lemma folders_named:
  "map_res (not_refused found) ss = Inr folders \<Longrightarrow> map fst folders = map (\<lambda>s. text_of s ''name'') ss"
  by (induction ss arbitrary: folders)
    (auto simp: not_refused_def and_then_def Let_def split: sum.splits option.splits prod.splits)

lemma settle_points_keeps:
  assumes "kept_unless_about P name (sp_talk sp)" "quiet_helper sp" "P w"
    and "map_of current name \<noteq> None \<or> name \<notin> fst ` set wanted" "name \<notin> set owned" "fst ` set ro = fst ` set wanted"
  shows "P (snd (settle_points sp grant wanted ro owned current w))"
proof -
  note c = change_points_keeps [OF assms(1,3,4,5), of grant ro]
  have v: "P (snd (verify_points sp wanted w))" if "P w" for w
    unfolding verify_points_def using that listed_quiet [OF assms(2), of w]
    by (intro then_do_keeps [of P]) (simp_all split: list.split)
  have "P (snd (then_do (verify_points sp wanted w1) (\<lambda>_ w. verify_read_only sp grant ro w)))"
    if "change_points sp grant wanted ro owned current w = (Inr u, w1)" "P w1" for u w1
  proof -
    have "name \<notin> fst ` set ro" using c(2) that(1) assms(6) by simp
    then show ?thesis
      using v [OF that(2)] by (intro then_do_keeps [of P] verify_read_only_keeps [OF assms(1,2)]) simp_all
  qed
  then show ?thesis unfolding settle_points_def by (rule then_do_keeps [of P, OF c(1)])
qed

text \<open>C35: The sharepoints of others are left alone. Whatever is configured, when \<open>sharing\<close> lists a name SMBPal did not publish,
  no apply, teardown or make-writable asks the helper to publish or remove that name: a property of the machine that
  only such a request can break still holds afterwards, whether the operation succeeds or fails.\<close>

theorem sharepoints_of_others_are_left_alone:
  assumes "quiet_helper sp" and "fst (listed sp w) = Inr current" and "fst (owned_by_us sp w) = Inr owned"
    and "map_of current name \<noteq> None" and "name \<notin> set owned"
    and "kept_unless_about P name (sp_talk sp)" and "P w"
  shows "P (snd (apply_sharepoints sp config grant w)) \<and> P (snd (teardown_sharepoints sp grant w))
    \<and> P (snd (make_sharepoint_writable sp share grant w))"
proof (intro conjI)
  note q = then_do_quiet [of _ w "\<lambda>y. P (snd y)"]
  let ?active = "filter enabled (records config ''shares'')"
  let ?ro = "dict_of (map (\<lambda>s. (text_of s ''name'', truthy (get s ''read_only''))) ?active)"
  have "P (snd (settle_points sp grant (dict_of folders) ?ro owned current w))"
    if "map_res (not_refused found) ?active = Inr folders" for found folders
  proof (rule settle_points_keeps [OF assms(6,1,7) disjI1 [OF assms(4)] assms(5)])
    show "fst ` set ?ro = fst ` set (dict_of folders)"
      using arg_cong [OF folders_named [OF that], of set] by (simp add: dict_of_keys image_image)
  qed
  then have "P (snd (then_do (settle_points sp grant (dict_of folders) ?ro owned current w) (\<lambda>_ w. (Inr v, w))))"
    if "map_res (not_refused found) ?active = Inr folders" for found folders and v :: sharepoint_report
    using that by (intro then_do_keeps [of P]) simp_all
  note settled = this
  show "P (snd (apply_sharepoints sp config grant w))"
    unfolding apply_sharepoints_def Let_def
    by ((rule q, fastforce simp: quiet_steps [OF assms(1)])+) (use assms(2,3,7) settled in simp_all)
next
  note q = then_do_quiet [of _ w "\<lambda>y. P (snd y)"]
  have "P (snd (then_do (unpublish_all sp grant (sort (remdups owned)) w) (\<lambda>_ w. (Inr x, w))))" for x :: "string list"
    by (rule then_do_keeps [of P]) (use unpublish_all_keeps [OF assms(6,7)] assms(5) in simp_all)
  then show "P (snd (teardown_sharepoints sp grant w))"
    unfolding teardown_sharepoints_def Let_def using assms(3,7)
    by (intro q) (simp_all add: quiet_steps [OF assms(1)])
next
  have g: "P (snd (explained h (share_grant (sp_talk sp) p user auth w)))" for h p user auth
    unfolding share_grant_def snd_wrapped by (rule ask_keeps [OF assms(6,7)]) simp
  have "P (snd (then_do (plan_sharepoints sp [share] w) (\<lambda>ps w. case ps of [p] \<Rightarrow> (Inr (pp_status p), w) | _ \<Rightarrow> (Inl ValueError, w))))"
    if "P w" for w
    by (rule then_do_keeps [of P]) (use that plan_quiet [OF assms(1)] in \<open>simp_all del: plan_sharepoints.simps split: list.split\<close>)
  note planned = this
  show "P (snd (make_sharepoint_writable sp share grant w))"
  proof (cases "truthy (get share ''credential_ref'') \<and> grant \<noteq> None")
    case True
    then obtain auth where "grant = Some auth" by blast
    with True show ?thesis unfolding make_sharepoint_writable_def Let_def
      by (simp del: plan_sharepoints.simps) (rule then_do_keeps [of P, OF g], rule planned)
  qed (use assms(7) in \<open>auto simp: make_sharepoint_writable_def\<close>)
qed

lemma settle_without_grant:
  assumes "quiet_helper sp" "fst (listed sp w) = Inr current" "fst ` set ro = fst ` set wanted" "distinct (map fst ro)"
  shows "snd (settle_points sp None wanted ro owned current w) = w"
proof -
  let ?st = "stale_points wanted ro owned current"
  have l: "listed sp w = (Inr current, w)" using assms(2) listed_quiet [OF assms(1), of w] by (metis prod.collapse)
  consider e where "change_points sp None wanted ro owned current w = (Inl e, w)"
    | "change_points sp None wanted ro owned current w = (Inr (), w)" "?st = []" "missing_points wanted owned ?st = []"
    by (cases "find (\<lambda>name. map_of current name \<noteq> None \<and> name \<notin> set owned) (missing_points wanted owned ?st)";
        cases "?st = []"; cases "missing_points wanted owned ?st = []")
      (simp_all add: change_points_def Let_def del: not_None_eq)
  then show ?thesis
  proof cases
    case 2
    have "point_read_only (point current n)" if "(n, True) \<in> set ro" for n
    proof -
      have "n \<in> fst ` set wanted" using that assms(3) by force
      moreover from this 2(3) have "n \<in> set owned" using in_missing_points [of n wanted owned ?st] by auto
      ultimately show ?thesis using 2(2) in_stale_points [of n wanted ro owned current] that assms(4)
        by (auto simp: asked_read_only_def dest: weak_map_of_SomeI)
    qed
    then have "filter (\<lambda>(name, b). b \<and> \<not> point_read_only (point current name)) ro = []" by (auto simp: filter_empty_conv)
    then show ?thesis using 2(1) by (simp add: settle_points_def verify_points_def verify_read_only_def l split: list.split)
  qed (simp add: settle_points_def)
qed

lemma sort_Nil_iff: "sort xs = [] \<longleftrightarrow> xs = []"
  by (metis length_0_conv length_sort)

lemma verify_points_done:
  assumes "verify_points sp wanted w = (Inr u, w')"
  obtains now where "listed sp w = (Inr now, w')" "\<forall>(n, folder) \<in> set wanted. point_at (point now n) folder"
proof -
  obtain now w1 where l: "listed sp w = (Inr now, w1)"
    and c: "(case sort (map fst (filter (\<lambda>(name, folder). \<not> point_at (point now name) folder) wanted)) of
        [] \<Rightarrow> (Inr (), w1)
      | names \<Rightarrow> (Inl (ApplyError (''macOS did not publish '' @ join '', '' (map repr_str names))), w1)) = (Inr u, w')"
    using assms by (auto simp: verify_points_def then_do_Inr)
  have e: "sort (map fst (filter (\<lambda>(name, folder). \<not> point_at (point now name) folder) wanted)) = []" "w1 = w'"
    using c by (cases "sort (map fst (filter (\<lambda>(name, folder). \<not> point_at (point now name) folder) wanted))"; auto simp: then_do_Inr)+
  then have "filter (\<lambda>(name, folder). \<not> point_at (point now name) folder) wanted = []" by (simp add: sort_Nil_iff)
  then show thesis using that [of now] l e(2) by (auto simp: filter_empty_conv)
qed

lemma verify_read_only_done:
  assumes "verify_read_only sp grant ro w = (Inr u, w')"
  obtains now where "listed sp w = (Inr now, w')" "\<forall>(n, b) \<in> set ro. b \<longrightarrow> point_read_only (point now n)"
proof -
  obtain now w1 where l: "listed sp w = (Inr now, w1)"
    and c: "(case sort (map fst (filter (\<lambda>(name, b). b \<and> \<not> point_read_only (point now name)) ro)) of
        [] \<Rightarrow> (Inr (), w1)
      | names \<Rightarrow> then_do (unpublish_quietly sp grant names w1) (\<lambda>_ w. (Inl (ApplyError (''macOS did not make ''
          @ join '', '' (map repr_str names) @ '' read-only'')), w))) = (Inr u, w')"
    using assms by (auto simp: verify_read_only_def then_do_Inr)
  have e: "sort (map fst (filter (\<lambda>(name, b). b \<and> \<not> point_read_only (point now name)) ro)) = []" "w1 = w'"
    using c by (cases "sort (map fst (filter (\<lambda>(name, b). b \<and> \<not> point_read_only (point now name)) ro))"; auto simp: then_do_Inr)+
  then have "filter (\<lambda>(name, b). b \<and> \<not> point_read_only (point now name)) ro = []" by (simp add: sort_Nil_iff)
  then show thesis using that [of now] l e(2) by (auto simp: filter_empty_conv)
qed

lemma settle_verified:
  assumes "quiet_helper sp" "settle_points sp grant wanted ro owned current w = (Inr u, w')"
  obtains now where "listed sp w' = (Inr now, w')" "\<forall>(n, folder) \<in> set wanted. point_at (point now n) folder"
    "\<forall>(n, b) \<in> set ro. b \<longrightarrow> point_read_only (point now n)"
proof -
  obtain w1 w2 where v: "verify_points sp wanted w1 = (Inr (), w2)" and r: "verify_read_only sp grant ro w2 = (Inr (), w')"
    using assms(2) by (auto simp: settle_points_def then_do_Inr)
  obtain now where n: "listed sp w1 = (Inr now, w2)" "\<forall>(n, folder) \<in> set wanted. point_at (point now n) folder"
    using v by (rule verify_points_done)
  obtain later where l: "listed sp w2 = (Inr later, w')" "\<forall>(n, b) \<in> set ro. b \<longrightarrow> point_read_only (point later n)"
    using r by (rule verify_read_only_done)
  have "w2 = w1" "w' = w2" using listed_quiet [OF assms(1), of w1] listed_quiet [OF assms(1), of w2] n(1) l(1) by simp_all
  with n l that [of now] show thesis by simp
qed

lemma dict_of_distinct: "distinct (map fst kvs) \<Longrightarrow> dict_of kvs = kvs"
proof -
  have "distinct (map fst (d @ kvs)) \<Longrightarrow> fold (\<lambda>(k, v). AList.update k v) kvs d = d @ kvs" for d
  proof (induction kvs arbitrary: d)
    case (Cons kv kvs)
    obtain k v where kv: "kv = (k, v)" by fastforce
    have "AList.update k v d = d @ [(k, v)]" using Cons.prems kv
      by (intro update_append) auto
    then show ?case using Cons kv by simp
  qed simp
  from this [of "[]"] show "distinct (map fst kvs) \<Longrightarrow> dict_of kvs = kvs" by (simp add: dict_of_def)
qed

lemma all_facts_found:
  assumes "quiet_helper sp" "all_facts sp ss found w = (Inr d, w1)" "distinct (map (\<lambda>s. text_of s ''id'') ss)"
  shows "(\<forall>s \<in> set ss. \<exists>f. fst (share_facts sp s w) = Inr f \<and> map_of d (text_of s ''id'') = Some f)
    \<and> (\<forall>i. i \<notin> (\<lambda>s. text_of s ''id'') ` set ss \<longrightarrow> map_of d i = map_of found i)"
  using assms(2,3)
proof (induction ss arbitrary: found)
  case (Cons s ss)
  obtain f where f: "fst (share_facts sp s w) = Inr f" "all_facts sp ss (AList.update (text_of s ''id'') f found) w = (Inr d, w1)"
    using Cons.prems(1) facts_quiet [OF assms(1), of s w]
    by (cases "share_facts sp s w") (auto simp: then_do_Inr asking_def uncaught_def split: sum.splits)
  from Cons.IH [OF f(2)] Cons.prems(2) f(1) show ?case by auto
qed simp

lemma dict_of_dict: "distinct (map fst (dict_of kvs))"
proof -
  have "distinct (map fst d) \<Longrightarrow> distinct (map fst (fold (\<lambda>(k, v). AList.update k v) kvs d))" for d :: "(string \<times> 'a) list"
    by (induction kvs arbitrary: d) (auto simp: distinct_update)
  then show ?thesis by (simp add: dict_of_def)
qed

lemma map_res_mem: "map_res f xs = Inr ys \<Longrightarrow> x \<in> set xs \<Longrightarrow> \<exists>y. f x = Inr y \<and> y \<in> set ys"
  by (induction xs arbitrary: ys) (auto simp: and_then_def split: sum.splits)

lemma sharepoint_steps:
  assumes "quiet_helper sp" "apply_sharepoints sp config grant w = (Inr report, w')"
  obtains found folders owned current w1 where
    "all_facts sp (records config ''shares'') [] w = (Inr found, w1)"
    "map_res (not_refused found) (filter enabled (records config ''shares'')) = Inr folders"
    "settle_points sp grant (dict_of folders)
       (dict_of (map (\<lambda>s. (text_of s ''name'', truthy (get s ''read_only''))) (filter enabled (records config ''shares''))))
       owned current w = (Inr (), w')"
    "sr_served report = sort (map fst (dict_of folders))"
proof -
  obtain found folders owned current w1 w2 w3 where s: "all_facts sp (records config ''shares'') [] w = (Inr found, w1)"
    "map_res (not_refused found) (filter enabled (records config ''shares'')) = Inr folders"
    "owned_by_us sp w1 = (Inr owned, w2)" "listed sp w2 = (Inr current, w3)"
    "settle_points sp grant (dict_of folders)
       (dict_of (map (\<lambda>s. (text_of s ''name'', truthy (get s ''read_only''))) (filter enabled (records config ''shares''))))
       owned current w3 = (Inr (), w')"
    "sr_served report = sort (map fst (dict_of folders))"
    using assms(2) unfolding apply_sharepoints_def Let_def then_do_Inr by auto
  have "w1 = w" using all_facts_quiet [OF assms(1), of "records config ''shares''" "[]" w] s(1) by simp
  moreover have "w2 = w1" "w3 = w2" using owned_quiet [OF assms(1), of w1] listed_quiet [OF assms(1), of w2] s(3,4) by simp_all
  ultimately have "w3 = w" by simp
  with s that show thesis by blast
qed

text \<open>C36: Without an administrator's grant nothing is changed: an apply, a teardown and a make-writable leave the machine as it was,
  whatever they report. An apply that has nothing to change still answers.\<close>

theorem nothing_changes_without_a_grant:
  assumes "quiet_helper sp"
  shows "snd (apply_sharepoints sp config None w) = w \<and> snd (teardown_sharepoints sp None w) = w
    \<and> snd (make_sharepoint_writable sp share None w) = w"
proof (intro conjI)
  note q = then_do_quiet [of _ w "\<lambda>y. snd y = w"]
  let ?active = "filter enabled (records config ''shares'')"
  let ?ro = "dict_of (map (\<lambda>s. (text_of s ''name'', truthy (get s ''read_only''))) ?active)"
  have settled: "snd (settle_points sp None (dict_of folders) ?ro owned current w) = w"
    if "map_res (not_refused found) ?active = Inr folders" "fst (listed sp w) = Inr current" for found folders owned current
  proof (rule settle_without_grant [OF assms that(2)])
    show "fst ` set ?ro = fst ` set (dict_of folders)"
      using arg_cong [OF folders_named [OF that(1)], of set] by (simp add: dict_of_keys image_image)
    show "distinct (map fst ?ro)" by (rule dict_of_dict)
  qed
  show "snd (apply_sharepoints sp config None w) = w"
    unfolding apply_sharepoints_def Let_def
    by ((rule q, fastforce simp: quiet_steps [OF assms])+, rule q) (use settled in simp_all)
  show "snd (teardown_sharepoints sp None w) = w"
    unfolding teardown_sharepoints_def Let_def by (rule q) (simp_all add: quiet_steps [OF assms])
qed (simp add: make_sharepoint_writable_def)

text \<open>C37: What an apply reports as served is served. After an apply that returns, \<open>sharing\<close> lists every enabled share at the folder the
  helper found acceptable for it, read-only where the configuration says so, and those are the names it reports.\<close>

theorem applied_sharepoints_are_listed:
  assumes "quiet_helper sp" and "apply_sharepoints sp config grant w = (Inr report, w')"
    and "distinct (map (\<lambda>s. text_of s ''id'') (records config ''shares''))"
    and "distinct (map (\<lambda>s. text_of s ''name'') (filter enabled (records config ''shares'')))"
  shows "sr_served report = sort (map (\<lambda>s. text_of s ''name'') (filter enabled (records config ''shares'')))
    \<and> (\<exists>now. listed sp w' = (Inr now, w') \<and> (\<forall>s \<in> set (records config ''shares''). enabled s \<longrightarrow>
        (\<exists>f. fst (share_facts sp s w) = Inr f \<and> share_refusal (text_of s ''path'') f = None
           \<and> point_at (point now (text_of s ''name'')) (pf_resolved f)
           \<and> (truthy (get s ''read_only'') \<longrightarrow> point_read_only (point now (text_of s ''name''))))))"
proof -
  let ?shares = "records config ''shares''" let ?active = "filter enabled ?shares"
  let ?flags = "map (\<lambda>s. (text_of s ''name'', truthy (get s ''read_only''))) ?active"
  obtain found folders owned current w1 where a: "all_facts sp ?shares [] w = (Inr found, w1)"
    and f: "map_res (not_refused found) ?active = Inr folders"
    and st: "settle_points sp grant (dict_of folders) (dict_of ?flags) owned current w = (Inr (), w')"
    and rep: "sr_served report = sort (map fst (dict_of folders))"
    using assms(2) by (rule sharepoint_steps [OF assms(1)])
  have names: "map fst folders = map (\<lambda>s. text_of s ''name'') ?active" by (rule folders_named [OF f])
  have d: "dict_of folders = folders" "dict_of ?flags = ?flags"
    using assms(4) by (simp_all add: dict_of_distinct names comp_def)
  obtain now where l: "listed sp w' = (Inr now, w')" "\<forall>(n, folder) \<in> set folders. point_at (point now n) folder"
    "\<forall>(n, b) \<in> set ?flags. b \<longrightarrow> point_read_only (point now n)"
    using settle_verified [OF assms(1) st] unfolding d by blast
  have "\<exists>f. fst (share_facts sp s w) = Inr f \<and> share_refusal (text_of s ''path'') f = None
      \<and> point_at (point now (text_of s ''name'')) (pf_resolved f)
      \<and> (truthy (get s ''read_only'') \<longrightarrow> point_read_only (point now (text_of s ''name'')))"
    if s: "s \<in> set ?shares" "enabled s" for s
  proof -
    obtain x where x: "fst (share_facts sp s w) = Inr x" "map_of found (text_of s ''id'') = Some x"
      using all_facts_found [OF assms(1) a assms(3)] s(1) by blast
    have "\<exists>e. not_refused found s = Inr e \<and> e \<in> set folders" using map_res_mem [OF f, of s] s by simp
    then have "share_refusal (text_of s ''path'') x = None" "(text_of s ''name'', pf_resolved x) \<in> set folders"
      using x(2) by (auto simp: not_refused_def facts_for_def split: option.splits)
    moreover have "(text_of s ''name'', truthy (get s ''read_only'')) \<in> set ?flags" using s by auto
    ultimately show ?thesis using x(1) l(2,3) by blast
  qed
  then show ?thesis using rep l(1) by (auto simp: d names)
qed

subsection \<open>The macOS backend of the dispatcher\<close>

definition sharepoint_row :: "say \<Rightarrow> (why_not_plain \<Rightarrow> string) \<Rightarrow> planned_sharepoint \<Rightarrow> share_row" where
  "sharepoint_row say tell p =
     \<lparr>sr_share = pp_share p, sr_read_only = pp_read_only p,
      sr_wire = with_keys (pp_share p)
        [(''effective_read_only'', JBool (pp_read_only p)), (''read_only_reason'', opt_json (map_option tell (pp_reason p))),
         (''directory'', JObj (status_wire say (pp_status p)))]\<rparr>"

definition sharepoint_backend :: "say \<Rightarrow> (why_not_plain \<Rightarrow> string) \<Rightarrow> 'x host sharepoints \<Rightarrow> 'x backend" where
  "sharepoint_backend say tell sp =
     \<lparr>be_plan = (\<lambda>config h. then_do (plan_sharepoints sp (records config ''shares'') h)
        (\<lambda>ps h. (Inr (map (sharepoint_row say tell) ps), h))),
      be_apply = (\<lambda>config grant h. then_do (apply_sharepoints sp config grant h) (\<lambda>rep h.
        (Inr \<lparr>sv_rows = map (sharepoint_row say tell) (sr_planned rep), sv_names = sr_served rep, sv_advertising = False\<rparr>, h))),
      be_teardown = (\<lambda>grant h. then_do (teardown_sharepoints sp grant h)
        (\<lambda>gone h. (Inr [(''sharepoints_removed'', JList (map JStr gone))], h))),
      be_effective = effective_points sp, be_unmanaged = unmanaged_points sp, be_service = file_sharing sp,
      be_make_writable = Some (make_sharepoint_writable sp), be_can_sign_in = Some (may_sign_in sp),
      be_unsupported = UNSUPPORTED_METHODS, be_only_when_shares_change = True\<rparr>"

text \<open>What the backend needs of the helper: its questions change nothing, and nothing it does touches an existing file.\<close>

definition mac_quiet :: "'x host sharepoints \<Rightarrow> 'x system \<Rightarrow> bool" where
  "mac_quiet sp sys = (quiet_helper sp \<and> (\<forall>h. snd (sp_knock sp h) = h))"

definition mac_ready :: "'x host sharepoints \<Rightarrow> 'x system \<Rightarrow> bool" where
  "mac_ready sp sys = (quiet_helper sp \<and> (\<forall>f h. spared {} h (snd (sp_talk sp f h))))"

lemma settle_points_keeps_all:
  assumes "\<And>f w. P w \<Longrightarrow> P (snd (sp_talk sp f w))" "quiet_helper sp" "P w" "fst ` set ro = fst ` set wanted"
  shows "P (snd (settle_points sp grant wanted ro owned current w))"
proof -
  have "finite (set owned \<union> fst ` set wanted)" by simp
  then obtain name :: string where "name \<notin> set owned \<union> fst ` set wanted"
    using ex_new_if_finite [OF infinite_UNIV_listI] by blast
  moreover have "kept_unless_about P name (sp_talk sp)" using assms(1) by (simp add: kept_unless_about_def)
  ultimately show ?thesis using assms(2-4) by (intro settle_points_keeps [of P name]) simp_all
qed

lemma apply_sharepoints_spares:
  assumes "mac_ready sp sys"
  shows "spared {} h (snd (apply_sharepoints sp config grant h))"
proof -
  have r: "quiet_helper sp" "\<And>f x. spared {} h x \<Longrightarrow> spared {} h (snd (sp_talk sp f x))"
    using assms by (auto simp: mac_ready_def intro: spared_trans_same)
  note q = then_do_quiet [of _ h "\<lambda>y. spared {} h (snd y)"]
  let ?active = "filter enabled (records config ''shares'')"
  let ?ro = "dict_of (map (\<lambda>s. (text_of s ''name'', truthy (get s ''read_only''))) ?active)"
  have settled: "spared {} h (snd (then_do (settle_points sp grant (dict_of folders) ?ro owned current h) (\<lambda>_ w. (Inr v, w))))"
    if "map_res (not_refused found) ?active = Inr folders" for found folders owned current and v :: sharepoint_report
  proof (rule then_do_keeps [of "spared {} h"])
    have "fst ` set ?ro = fst ` set (dict_of folders)"
      using arg_cong [OF folders_named [OF that], of set] by (simp add: dict_of_keys image_image)
    then show "spared {} h (snd (settle_points sp grant (dict_of folders) ?ro owned current h))"
      by (intro settle_points_keeps_all [of "spared {} h", OF r(2,1)]) simp_all
  qed simp
  show ?thesis
    unfolding apply_sharepoints_def Let_def
    by ((rule q, fastforce simp: quiet_steps [OF r(1)])+) (use settled in simp_all)
qed

interpretation mac: share_backend "\<lambda>_. sharepoint_backend say tell sp" "{}" "mac_quiet sp" "mac_ready sp" for say tell sp
proof
  fix sys :: "'a system" and config h names ask share grant
  have quiet: "files (snd x) = files h" if "snd x = h" for x :: "'b \<times> 'a host" using that by simp
  show "mac_quiet sp sys \<Longrightarrow> files (snd (be_plan (sharepoint_backend say tell sp) config h)) = files h"
    unfolding sharepoint_backend_def backend.simps
    by (rule then_do_keeps [of "\<lambda>x. files x = files h"]) (simp_all add: mac_quiet_def plan_quiet)
  show "mac_quiet sp sys \<Longrightarrow> files (snd (be_effective (sharepoint_backend say tell sp) h)) = files h"
    by (simp add: sharepoint_backend_def mac_quiet_def effective_quiet)
  show "mac_quiet sp sys \<Longrightarrow> files (snd (be_unmanaged (sharepoint_backend say tell sp) names h)) = files h"
    by (simp add: sharepoint_backend_def mac_quiet_def unmanaged_quiet)
  show "mac_quiet sp sys \<Longrightarrow> files (snd (be_service (sharepoint_backend say tell sp) h)) = files h"
    by (simp add: sharepoint_backend_def mac_quiet_def file_sharing_def split: prod.split) (metis snd_conv)
  show "mac_quiet sp sys \<Longrightarrow> be_can_sign_in (sharepoint_backend say tell sp) = Some ask \<Longrightarrow> files (snd (ask share h)) = files h"
    by (auto simp: sharepoint_backend_def mac_quiet_def sign_in_quiet)
  show "mac_ready sp sys \<Longrightarrow> spared {} h (snd (be_apply (sharepoint_backend say tell sp) config grant h))"
    unfolding sharepoint_backend_def backend.simps
    by (rule then_do_keeps [of "spared {} h"]) (simp_all add: apply_sharepoints_spares)
qed

text \<open>So a change on macOS is all or nothing as it is with Samba, by the same lemma.\<close>

theorem mac_change_is_all_or_nothing:
  assumes "dm_backend d \<in> {None, Some (sharepoint_backend say tell sp)}" and "mac_ready sp (dm_system d)"
    and "commands_spare_files (dm_system d)" and "config_apart {} d"
    and "dicts (JObj previous)" and "dicts (JObj updated)" and "valid_config (JObj previous)"
    and "commit d previous updated grant r = (res, r')"
  shows "(case res of
      Inr _ \<Rightarrow> loaded d r' = Inr (sorted_obj updated)
    | Inl e \<Rightarrow> loaded d r' = loaded d r \<or> loaded d r' = Inr (sorted_obj previous)
        \<or> loaded d r' = Inr (sorted_obj updated) \<and> e = ConfigIOError (''cannot write '' @ dm_config d))"
  by (rule mac.commit_all_or_nothing [OF assms(2-4,1,5-8)])

subsection \<open>A helper with one sharepoint of ours and one of somebody else's\<close>

definition ann_row :: "string \<Rightarrow> string \<times> json" where
  "ann_row name = (name, JObj [(''path'', JStr (''/Users/ann/'' @ name)), (''smb_read_only'', JInt 0)])"

text \<open>The state is the list of names SMBPal published.\<close>

definition ann_talk :: "string list talk" where
  "ann_talk f w =
     (if frame ''share.list'' None [] = Inr f
      then (Helper_said (''OK'' @ [lf] @ dump False 0 (JObj (map ann_row (''Theirs'' # w)))), w)
      else if frame ''share.owned'' None [] = Inr f then (Helper_said (join [lf] (''OK'' # w)), w)
      else if frame ''path.inspect'' None [''/Users/ann/Ours''] = Inr f
      then (Helper_said (join [lf] [''OK'', ''verdict ok'', ''resolved /Users/ann/Ours'', ''uid 501'', ''gid 20'', ''mode 755'',
              ''owner ann'', ''acl 0'']), w)
      else if frame ''share.unpublish'' (Some ''k'') [''Ours''] = Inr f then (Helper_said (''OK'' @ [lf]), removeAll ''Ours'' w)
      else (Helper_said (''ERR denied'' @ [lf]), w))"

definition ann_mac :: "string list sharepoints" where
  "ann_mac = \<lparr>sp_accounts = \<lparr>by_name = (\<lambda>_. None), by_uid = (\<lambda>_. None), all_groups = []\<rparr>, sp_float = id,
     sp_talk = ann_talk, sp_knock = (\<lambda>w. (Port_open, w))\<rparr>"

definition ann_config :: obj where
  "ann_config = [(''shares'', JList [JObj [(''id'', JStr ''ours''), (''name'', JStr ''Ours''), (''path'', JStr ''/Users/ann/Ours'')]])]"

lemma ann_quiet: "quiet_helper ann_mac"
proof -
  have "\<not> list_ex (\<lambda>a. lf \<in> set a \<or> cr \<in> set a) [''share.unpublish'', ''Ours'']" by code_simp
  then obtain g where g: "frame ''share.unpublish'' (Some ''k'') [''Ours''] = Inr g" unfolding frame_def by (simp only: if_False)
  have "g \<noteq> f" if "question f" for f using that frame_unique [OF g] unfolding question_def by auto
  then show ?thesis by (auto simp: questions_change_nothing_def ann_mac_def ann_talk_def g)
qed

lemma ann_keeps_theirs: "kept_unless_about (\<lambda>w. w = [''Ours''] \<or> w = []) ''Theirs'' (sp_talk ann_mac)"
  by (auto simp: kept_unless_about_def ann_mac_def ann_talk_def)

abbreviation theirs :: "string \<times> obj" where
  "theirs \<equiv> (''Theirs'', [(''path'', JStr ''/Users/ann/Theirs''), (''smb_read_only'', JInt 0)])"

abbreviation ours :: "string \<times> obj" where
  "ours \<equiv> (''Ours'', [(''path'', JStr ''/Users/ann/Ours''), (''smb_read_only'', JInt 0)])"

lemma ann_lists: "fst (listed ann_mac [''Ours'']) = Inr [theirs, ours]" "fst (owned_by_us ann_mac [''Ours'']) = Inr [''Ours'']"
  by code_simp+

lemma ann_answers:
  "listed ann_mac [''Ours''] = (Inr [theirs, ours], [''Ours''])" "owned_by_us ann_mac [''Ours''] = (Inr [''Ours''], [''Ours''])"
  using ann_lists listed_quiet [OF ann_quiet] owned_quiet [OF ann_quiet] by (metis prod.collapse)+

lemma ann_lists_theirs: "listed ann_mac [] = (Inr [theirs], [])" by code_simp

lemma ann_unpublishes: "share_unpublish (sp_talk ann_mac) ''Ours'' (Some ''k'') [''Ours''] = (Inr [], [])" by code_simp

lemmas applying = apply_sharepoints_def settle_points_def change_points_def stale_points_def missing_points_def
  verify_points_def verify_read_only_def dict_of_def records_def items_def explained_def

theorem sharepoints_of_others_are_left_alone_witness:
  "apply_sharepoints ann_mac [] (Some ''k'') [''Ours''] = (Inr \<lparr>sr_planned = [], sr_served = []\<rparr>, [])
   \<and> snd (apply_sharepoints ann_mac [] (Some ''k'') [''Ours'']) \<in> {[''Ours''], []}"
proof -
  have "apply_sharepoints ann_mac [] (Some ''k'') [''Ours''] = (Inr \<lparr>sr_planned = [], sr_served = []\<rparr>, [])"
    by (simp add: applying ann_answers ann_lists_theirs ann_unpublishes)
  moreover have "snd (apply_sharepoints ann_mac [] (Some ''k'') [''Ours'']) = [''Ours'']
      \<or> snd (apply_sharepoints ann_mac [] (Some ''k'') [''Ours'']) = []"
    by (rule conjunct1 [OF sharepoints_of_others_are_left_alone [OF ann_quiet ann_lists _ _ ann_keeps_theirs]]) simp_all
  ultimately show ?thesis by blast
qed

theorem nothing_changes_without_a_grant_witness:
  "apply_sharepoints ann_mac [] None [''Ours'']
     = (Inl (needs_administrator ''changing what this Mac shares''), [''Ours''])
   \<and> snd (teardown_sharepoints ann_mac None [''Ours'']) = [''Ours'']"
proof -
  have "fst (apply_sharepoints ann_mac [] None [''Ours'']) = Inl (needs_administrator ''changing what this Mac shares'')"
    by (simp add: applying ann_answers)
  with nothing_changes_without_a_grant [OF ann_quiet, of "[]" "[''Ours'']"] show ?thesis by (simp add: prod_eq_iff)
qed

lemma ann_inspects:
  "fst (share_facts ann_mac [(''id'', JStr ''ours''), (''name'', JStr ''Ours''), (''path'', JStr ''/Users/ann/Ours'')] [''Ours''])
   = Inr \<lparr>pf_verdict = Verdict_ok, pf_resolved = Some ''/Users/ann/Ours'', pf_uid = Some 501, pf_gid = Some 20,
          pf_mode = Some 493, pf_owner = Some ''ann'', pf_has_acl = False, pf_access = None\<rparr>"
  by code_simp

theorem applied_sharepoints_are_listed_witness:
  "\<exists>report. apply_sharepoints ann_mac ann_config None [''Ours''] = (Inr report, [''Ours'']) \<and> sr_served report = [''Ours'']"
proof -
  let ?share = "[(''id'', JStr ''ours''), (''name'', JStr ''Ours''), (''path'', JStr ''/Users/ann/Ours'')]"
  have c: "records ann_config ''shares'' = [?share]" "enabled ?share" by code_simp+
  have f: "share_facts ann_mac ?share [''Ours''] = (Inr \<lparr>pf_verdict = Verdict_ok, pf_resolved = Some ''/Users/ann/Ours'',
      pf_uid = Some 501, pf_gid = Some 20, pf_mode = Some 493, pf_owner = Some ''ann'', pf_has_acl = False, pf_access = None\<rparr>, [''Ours''])"
    using ann_inspects facts_quiet [OF ann_quiet] by (metis prod.collapse)
  let ?facts = "\<lparr>pf_verdict = Verdict_ok, pf_resolved = Some ''/Users/ann/Ours'',
      pf_uid = Some 501, pf_gid = Some 20, pf_mode = Some 493, pf_owner = Some ''ann'', pf_has_acl = False, pf_access = None\<rparr>"
  have "\<not> Option.is_none (case plan_one (sp_accounts ann_mac) ?share ?facts of Inl _ \<Rightarrow> None | Inr p \<Rightarrow> Some p)" by code_simp
  then obtain p where p: "plan_one (sp_accounts ann_mac) ?share ?facts = Inr p" by (auto split: sum.splits)
  have r: "apply_sharepoints ann_mac ann_config None [''Ours''] = (Inr \<lparr>sr_planned = [p], sr_served = [''Ours'']\<rparr>, [''Ours''])"
    using p f c by (simp add: applying ann_answers asking_def uncaught_def facts_for_def not_refused_def share_refusal_def
        point_at_def point_def point_read_only_def asked_read_only_def text_of_def get_def and_then_def)
  have "sr_served \<lparr>sr_planned = [p], sr_served = [''Ours'']\<rparr>
      = sort (map (\<lambda>s. text_of s ''name'') (filter enabled (records ann_config ''shares'')))"
    by (rule conjunct1 [OF applied_sharepoints_are_listed [OF ann_quiet r]]) (simp_all add: c)
  then show ?thesis using r by simp
qed

end
