(* ===== verification/Discovery.thy ===== *)
theory Discovery
  imports Connecting "HOL-Library.Product_Lexorder" "HOL-Library.Word"
begin

text \<open>
  \<^verbatim>\<open>smbpal/discovery/browse.py\<close>, \<^verbatim>\<open>shares.py\<close> and \<^verbatim>\<open>identity.py\<close>: what the network browsers print and how it becomes one
  row per machine, a listing of shares, and this machine's own name and addresses. The programs and libsmbclient are
  arguments; a name whose characters lie beyond the model's strings is the explicit outcome \<^const>\<open>Beyond_latin1\<close>.
\<close>

subsection \<open>The lines of avahi-browse\<close>

record service =
  av_interface :: string
  av_protocol :: string
  av_name :: string
  av_type :: string
  av_domain :: string
  av_hostname :: string
  av_address :: string
  av_port :: int
  av_txt :: string

record machine =
  mc_name :: string
  mc_hostname :: string
  mc_addresses :: "string list"
  mc_port :: int
  mc_smbpal :: bool

definition machine_wire :: "machine \<Rightarrow> obj" where
  "machine_wire m =
     [(''name'', JStr (mc_name m)), (''hostname'', JStr (mc_hostname m)), (''addresses'', JList (map JStr (mc_addresses m))),
      (''port'', JInt (mc_port m)), (''running_smbpal'', JBool (mc_smbpal m))]"

definition SMB_SERVICE :: string where "SMB_SERVICE = ''_smb._tcp''"
definition SMBPAL_SERVICE :: string where "SMBPAL_SERVICE = ''_smbpal._tcp''"

text \<open>\<open>room\<close> is how many more fields may still be split off.\<close>

fun split_escaped :: "nat \<Rightarrow> bool \<Rightarrow> string \<Rightarrow> string \<Rightarrow> string list" where
  "split_escaped room escaped current [] = [if escaped then current @ [backslash] else current]"
| "split_escaped room escaped current (c # cs) =
     (if escaped then split_escaped room False (current @ [backslash, c]) cs
      else if c = backslash then split_escaped room True current cs
      else if c = CHR '';'' \<and> 0 < room then current # split_escaped (room - 1) False [] cs
      else split_escaped room False (current @ [c]) cs)"

text \<open>The bytes an escaped field stands for: \<open>\ddd\<close> is the byte, when it is one, and \<open>\X\<close> is X.\<close>

fun unescape_bytes :: "string \<Rightarrow> nat list" where
  "unescape_bytes [] = []"
| "unescape_bytes (c # cs) =
     (if c \<noteq> backslash then utf8 c @ unescape_bytes cs
      else case cs of
        [] \<Rightarrow> utf8 backslash
      | a # b # d # rest \<Rightarrow>
          if is_digit a \<and> is_digit b \<and> is_digit d
          then (if digits_val [a, b, d] < 256 then [digits_val [a, b, d]] else concat (map utf8 [a, b, d])) @ unescape_bytes rest
          else utf8 a @ unescape_bytes (b # d # rest)
      | x # rest \<Rightarrow> utf8 x @ unescape_bytes rest)"

text \<open>Bytes that are no UTF-8 are read with the replacement character, which is beyond the model.\<close>

definition unescape_field :: "string \<Rightarrow> string res" where
  "unescape_field v =
     (case decode_utf8 (map char_of (unescape_bytes v)) of Inr s \<Rightarrow> Inr s | Inl _ \<Rightarrow> Inl Beyond_latin1)"

definition int_field :: "string \<Rightarrow> int option" where
  "int_field t = (if DIGIT_LIMIT < int (length (filter is_digit t)) then None else py_int (py_strip t))"

definition parse_line :: "string \<Rightarrow> service option res" where
  "parse_line line =
     (let fs = split_escaped 9 False [] line in
      if take 1 line \<noteq> ''='' \<or> length fs < 9 then Inr None
      else case int_field (fs ! 8) of
        None \<Rightarrow> Inr None
      | Some port \<Rightarrow>
          and_then (unescape_field (fs ! 3)) (\<lambda>name. and_then (unescape_field (fs ! 6)) (\<lambda>hostname.
            Inr (Some \<lparr>av_interface = fs ! 1, av_protocol = fs ! 2, av_name = name, av_type = fs ! 4, av_domain = fs ! 5,
                       av_hostname = hostname, av_address = fs ! 7, av_port = port,
                       av_txt = (if 9 < length fs then fs ! 9 else [])\<rparr>))))"

definition parse_browse :: "string \<Rightarrow> service list res" where
  "parse_browse output = and_then (map_res parse_line (splitlines output)) (\<lambda>found. Inr (concat (map (\<lambda>s. case s of None \<Rightarrow> [] | Some x \<Rightarrow> [x]) found)))"

subsection \<open>One row per machine\<close>

definition uninteresting :: "service \<Rightarrow> bool" where
  "uninteresting s =
     (av_interface s \<in> {''lo'', ''lo0''} \<or> av_address s \<in> {''127.0.0.1'', ''::1''}
      \<or> take 5 (py_lower (av_address s)) = ''fe80:'' \<or> av_hostname s = [])"

definition address_key :: "string \<Rightarrow> nat \<times> string" where
  "address_key a = (if CHR '':'' \<in> set a then (1, a) else (0, a))"

type_synonym machines = "(string \<times> machine) list"

definition add_service :: "service \<Rightarrow> machines \<Rightarrow> machines" where
  "add_service s ms =
     (if uninteresting s then ms
      else let key = py_lower (av_hostname s);
               m = (case map_of ms key of
                      Some m \<Rightarrow> m
                    | None \<Rightarrow> \<lparr>mc_name = av_name s, mc_hostname = av_hostname s, mc_addresses = [], mc_port = av_port s,
                              mc_smbpal = False\<rparr>)
           in AList.update key
                (if av_address s \<in> set (mc_addresses m) then m else m\<lparr>mc_addresses := mc_addresses m @ [av_address s]\<rparr>) ms)"

definition mark_smbpal :: "service \<Rightarrow> machines \<Rightarrow> machines" where
  "mark_smbpal s ms =
     (case map_of ms (py_lower (av_hostname s)) of
        None \<Rightarrow> ms
      | Some m \<Rightarrow> AList.update (py_lower (av_hostname s)) (m\<lparr>mc_smbpal := True\<rparr>) ms)"

definition merge :: "service list \<Rightarrow> service list \<Rightarrow> machine list" where
  "merge smb smbpal =
     sort_key (\<lambda>m. py_lower (mc_name m))
       (map (\<lambda>(_, m). m\<lparr>mc_addresses := sort_key address_key (mc_addresses m)\<rparr>)
          (fold mark_smbpal smbpal (fold add_service smb [])))"

subsection \<open>Running the browsers\<close>

text \<open>What \<open>subprocess.run\<close> of avahi-browse comes to; \<open>patience\<close> is the allowed time as it is shown.\<close>

datatype browsed = Browse_exited int string | Timed_out | Would_not_run

definition run_avahi :: "bool \<Rightarrow> string \<Rightarrow> (string list \<Rightarrow> browsed) \<Rightarrow> string \<Rightarrow> string res" where
  "run_avahi installed patience spawn service_type =
     (if \<not> installed then Inl (Unavailable ''network discovery needs avahi-browse, which is not installed'')
      else case spawn [''avahi-browse'', ''-rptk'', service_type] of
        Timed_out \<Rightarrow> Inl (Unavailable (''avahi-browse did not finish within '' @ patience @ ''s''))
      | Would_not_run \<Rightarrow> Inl (Unavailable ''cannot run avahi-browse'')
      | Browse_exited rc out \<Rightarrow> if rc \<noteq> 0 \<and> out = [] then Inl (Unavailable ''avahi-browse failed'') else Inr out)"

text \<open>\<open>dns-sd\<close> on macOS: browse for names, resolve each to a host and a port, look the hosts up. It runs for a window of time, or
  until the output so far is enough; \<open>sd_run\<close> is that.\<close>

datatype enough = Whole_window | Has_resolve | Has_last_address

type_synonym dns_sd = "string list \<Rightarrow> rat \<Rightarrow> enough \<Rightarrow> string res"

text \<open>\<open>line.split(None, 6)\<close>, when it gives seven fields: six words and the rest of the line.\<close>

fun split_words :: "nat \<Rightarrow> string \<Rightarrow> string list" where
  "split_words 0 s = (let t = dropWhile is_space s in if t = [] then [] else [t])"
| "split_words (Suc n) s =
     (let t = dropWhile is_space s in
      if t = [] then [] else takeWhile (\<lambda>c. \<not> is_space c) t # split_words n (dropWhile (\<lambda>c. \<not> is_space c) t))"

definition browse_entry :: "string \<Rightarrow> (int \<times> string) option" where
  "browse_entry line =
     (let fs = split_words 6 line in
      if length fs < 7 \<or> fs ! 1 \<noteq> ''Add'' then None
      else map_option (\<lambda>i. (i, py_strip (fs ! 6))) (int_field (fs ! 3)))"

definition some_of :: "('a \<Rightarrow> 'b option) \<Rightarrow> 'a list \<Rightarrow> 'b list" where
  "some_of f xs = concat (map (\<lambda>x. case f x of None \<Rightarrow> [] | Some y \<Rightarrow> [y]) xs)"

definition parse_dns_sd_browse :: "string \<Rightarrow> (int \<times> string) list" where
  "parse_dns_sd_browse output = some_of browse_entry (splitlines output)"

definition address_entry :: "string \<Rightarrow> (int \<times> string) option" where
  "address_entry line =
     (let fs = words line in
      if length fs < 6 \<or> fs ! 1 \<noteq> ''Add'' then None else map_option (\<lambda>i. (i, fs ! 5)) (int_field (fs ! 3)))"

definition parse_dns_sd_addresses :: "string \<Rightarrow> (int \<times> string) list" where
  "parse_dns_sd_addresses output = some_of address_entry (splitlines output)"

text \<open>The pattern \<open>can be reached at (?P<host>.+?):(?P<port>\d+) \(interface (?P<index>\d+)\)\<close>: its tail after the host, the
  shortest host, the leftmost place.\<close>

definition resolve_tail :: "string \<Rightarrow> (string \<times> string) option" where
  "resolve_tail s =
     (let port = digits_of (drop 1 s); t = drop (Suc (length port)) s;
          index = digits_of (drop 12 t); u = drop (12 + length index) t
      in if take 1 s = '':'' \<and> port \<noteq> [] \<and> take 12 t = '' (interface '' \<and> index \<noteq> [] \<and> take 1 u = '')''
         then Some (port, index) else None)"

fun resolve_host :: "string \<Rightarrow> string \<Rightarrow> (string \<times> string \<times> string) option" where
  "resolve_host host [] = None"
| "resolve_host host (c # cs) =
     (case (if host = [] then None else resolve_tail (c # cs)) of
        Some (port, index) \<Rightarrow> Some (host, port, index)
      | None \<Rightarrow> if c = lf then None else resolve_host (host @ [c]) cs)"

fun resolve_search :: "string \<Rightarrow> (string \<times> string \<times> string) option" where
  "resolve_search [] = None"
| "resolve_search (c # cs) =
     (case (if take 18 (c # cs) = ''can be reached at '' then resolve_host [] (drop 18 (c # cs)) else None) of
        Some found \<Rightarrow> Some found
      | None \<Rightarrow> resolve_search cs)"

definition parse_dns_sd_resolve :: "string \<Rightarrow> (string \<times> int \<times> int) option res" where
  "parse_dns_sd_resolve output =
     (case resolve_search output of
        None \<Rightarrow> Inr None
      | Some (host, port, index) \<Rightarrow>
          if DIGIT_LIMIT < int (length port) \<or> DIGIT_LIMIT < int (length index) then Inl ValueError
          else Inr (Some (rstrip_on (\<lambda>c. c = CHR ''.'') host, int (digits_val port), int (digits_val index))))"

definition sorted_set :: "string list \<Rightarrow> string list" where "sorted_set xs = sort (remdups xs)"

text \<open>The windows: three fifths of the time to browse, a fifth for each answer, and a second at least.\<close>

definition discover_dns_sd :: "(int \<Rightarrow> string) \<Rightarrow> dns_sd \<Rightarrow> rat \<Rightarrow> string \<Rightarrow> service list res" where
  "discover_dns_sd interface_name run timeout service_type =
     (let browse_window = max 1 (timeout * 3 / 5); window = max 1 (timeout / 5) in
      and_then (run [''-B'', service_type, ''local.''] browse_window Whole_window) (\<lambda>output.
      let names = sorted_set (map snd (parse_dns_sd_browse output)) in
      and_then (map_res (\<lambda>name. and_then (run [''-L'', name, service_type, ''local.''] window Has_resolve)
                  parse_dns_sd_resolve) names) (\<lambda>answers.
      let resolved = zip names answers;
          hosts = sorted_set (some_of (map_option fst) answers) in
      and_then (map_res (\<lambda>host. and_then (run [''-G'', ''v4v6'', host @ ''.''] window Has_last_address)
                  (\<lambda>out. Inr (host, parse_dns_sd_addresses out))) hosts) (\<lambda>addresses.
        Inr (concat (map (\<lambda>(name, answer).
               case answer of
                 None \<Rightarrow> []
               | Some (host, port, _) \<Rightarrow>
                   map (\<lambda>(index, address).
                     \<lparr>av_interface = interface_name index,
                      av_protocol = (if CHR '':'' \<in> set address then ''IPv6'' else ''IPv4''), av_name = name,
                      av_type = service_type, av_domain = ''local'', av_hostname = host, av_address = address,
                      av_port = port, av_txt = []\<rparr>)
                     (case map_of addresses host of None \<Rightarrow> [] | Some found \<Rightarrow> found)) resolved))))))"

definition discover_on_linux :: "(string \<Rightarrow> string res) \<Rightarrow> machine list res" where
  "discover_on_linux run =
     and_then (run SMB_SERVICE) (\<lambda>a. and_then (parse_browse a) (\<lambda>smb.
     and_then (run SMBPAL_SERVICE) (\<lambda>b. and_then (parse_browse b) (\<lambda>smbpal. Inr (merge smb smbpal)))))"

definition discover_on_mac :: "(int \<Rightarrow> string) \<Rightarrow> dns_sd \<Rightarrow> rat \<Rightarrow> machine list res" where
  "discover_on_mac interface_name run timeout =
     and_then (discover_dns_sd interface_name run timeout SMB_SERVICE) (\<lambda>smb.
     and_then (discover_dns_sd interface_name run timeout SMBPAL_SERVICE) (\<lambda>smbpal. Inr (merge smb smbpal)))"

subsection \<open>The shares a server lists\<close>

record listed_share =
  ls_name :: string
  ls_kind :: string
  ls_comment :: string

definition KINDS :: "(int \<times> string) list" where
  "KINDS = [(3, ''disk''), (4, ''printer''), (5, ''comms''), (6, ''ipc''), (1, ''workgroup''), (2, ''server'')]"

definition classify :: "int \<Rightarrow> string" where
  "classify t = (case map_of KINDS t of None \<Rightarrow> ''other'' | Some k \<Rightarrow> k)"

text \<open>The code points of \<open>str.casefold\<close>: the micro sign becomes the Greek letter, which is beyond 255.\<close>

definition casefold_points :: "string \<Rightarrow> nat list" where
  "casefold_points s = map (\<lambda>c. if code c = 181 then 956 else code c) (casefold s)"

definition interpret_entries :: "(int \<times> string \<times> string) list \<Rightarrow> listed_share list" where
  "interpret_entries entries =
     sort_key (\<lambda>s. (ls_kind s \<noteq> ''disk'', casefold_points (ls_name s)))
       (map (\<lambda>(t, name, comment). \<lparr>ls_name = name, ls_kind = classify t, ls_comment = comment\<rparr>)
          (filter (\<lambda>(_, name, _). name \<noteq> ''.'' \<and> name \<noteq> ''..'') entries))"

definition mountable :: "listed_share list \<Rightarrow> string list" where
  "mountable shares = map ls_name (filter (\<lambda>s. ls_kind s = ''disk'') shares)"

definition list_shares ::
    "(string \<Rightarrow> string \<Rightarrow> string \<Rightarrow> (int \<times> string \<times> string) list res) \<Rightarrow> string \<Rightarrow> string \<Rightarrow> string \<Rightarrow> listed_share list res" where
  "list_shares lister host username password =
     (if host = [] \<or> list_ex (\<lambda>c. c \<in> {slash, backslash, CHR '' '', CHR 0x09, cr, lf, CHR 0x00}) host
      then Inl (Unavailable (''not a host this can list: '' @ repr_str host))
      else and_then (lister host username password) (\<lambda>entries. Inr (interpret_entries entries)))"

text \<open>One \<open>smbc_dirent\<close>: the lengths it claims, the memory of its comment, when the pointer is not null, and of its record from its
  first byte on. \<open>NAME_AT\<close> is the offset of the name on a 64-bit machine: three words, padding, a pointer and a word.\<close>

record dirent =
  de_type :: "32 word"
  de_dirlen :: "32 word"
  de_commentlen :: "32 word"
  de_comment :: "string option"
  de_namelen :: "32 word"
  de_bytes :: string

definition NAME_AT :: nat where "NAME_AT = 28"

definition read_entry :: "dirent \<Rightarrow> (int \<times> string \<times> string) res" where
  "read_entry e =
     (let namelen = unat (de_namelen e); dirlen = unat (de_dirlen e);
          text_or_beyond = (\<lambda>bytes. case decode_utf8 bytes of Inr s \<Rightarrow> Inr s | Inl _ \<Rightarrow> Inl Beyond_latin1)
      in if namelen = 0 \<or> 255 < namelen \<or> dirlen < NAME_AT + namelen
         then Inl (Unavailable ''libsmbclient returned a directory entry this cannot read'')
         else and_then (text_or_beyond (take namelen (drop NAME_AT (de_bytes e)))) (\<lambda>name.
              and_then (text_or_beyond (case de_comment e of None \<Rightarrow> [] | Some c \<Rightarrow> take (unat (de_commentlen e)) c)) (\<lambda>comment.
                Inr (uint (de_type e), name, comment))))"

text \<open>\<open>_write_into\<close>: the library's buffer after the copy; a null pointer is no buffer.\<close>

definition write_into :: "string option \<Rightarrow> int \<Rightarrow> string \<Rightarrow> string option" where
  "write_into buffer room v =
     (case buffer of
        None \<Rightarrow> None
      | Some b \<Rightarrow>
          if room \<le> 0 then Some b
          else (let encoded = take (nat room - 1) (concat (map (\<lambda>c. map char_of (utf8 c)) v)) @ [CHR 0x00]
                in Some (encoded @ drop (length encoded) b)))"

subsection \<open>This machine\<close>

record identity =
  id_hostname :: string
  id_mdns :: "string option"
  id_addresses :: "json list"

definition identity_wire :: "identity \<Rightarrow> obj" where
  "identity_wire i =
     [(''hostname'', JStr (id_hostname i)), (''mdns'', opt_json (id_mdns i)), (''addresses'', JList (id_addresses i))]"

text \<open>The pattern \<open>^s\s+"(.*)"\s*$\<close> on a stripped text; an empty name is none.\<close>

definition parse_busctl_string :: "string \<Rightarrow> string option" where
  "parse_busctl_string output =
     (case py_strip output of
        [] \<Rightarrow> None
      | c # cs \<Rightarrow>
          (let quoted = dropWhile is_space cs in
           if c = CHR ''s'' \<and> cs \<noteq> quoted \<and> 2 \<le> length quoted \<and> hd quoted = quote2 \<and> last quoted = quote2
              \<and> lf \<notin> set (butlast (tl quoted)) \<and> butlast (tl quoted) \<noteq> []
           then Some (butlast (tl quoted)) else None))"

text \<open>\<open>x in v\<close> for a string x: a part of a string, a member of a list, a key of a dict; iterating and \<open>get\<close> over what
  \<open>json.loads\<close> may give.\<close>

definition str_in :: "string \<Rightarrow> json \<Rightarrow> bool res" where
  "str_in x v =
     (case v of
        JStr s \<Rightarrow> Inr (contains x s)
      | JList xs \<Rightarrow> Inr (JStr x \<in> set xs)
      | JObj ob \<Rightarrow> Inr (x \<in> fst ` set ob)
      | _ \<Rightarrow> Inl TypeError)"

definition elements :: "json \<Rightarrow> json list res" where
  "elements v =
     (case v of
        JList xs \<Rightarrow> Inr xs
      | JStr s \<Rightarrow> Inr (map (\<lambda>c. JStr [c]) s)
      | JObj ob \<Rightarrow> Inr (map (JStr \<circ> fst) ob)
      | _ \<Rightarrow> Inl TypeError)"

definition as_dict :: "json \<Rightarrow> obj res" where
  "as_dict v = (case v of JObj ob \<Rightarrow> Inr ob | _ \<Rightarrow> Inl AttributeError)"

definition or_empty_list :: "json \<Rightarrow> json" where "or_empty_list v = (if truthy v then v else JList [])"

fun link_addresses :: "json list \<Rightarrow> json list \<Rightarrow> json list res" where
  "link_addresses [] found = Inr found"
| "link_addresses (info # infos) found =
     and_then (as_dict info) (\<lambda>i.
     let address = get i ''local'' in
       link_addresses infos
         (if get i ''family'' \<noteq> JStr ''inet'' \<or> \<not> truthy address \<or> get i ''scope'' \<notin> {JNull, JStr ''global''}
             \<or> address \<in> set found
          then found else found @ [address]))"

fun links_addresses :: "json list \<Rightarrow> json list \<Rightarrow> json list res" where
  "links_addresses [] found = Inr found"
| "links_addresses (link # links) found =
     and_then (as_dict link) (\<lambda>l.
     let flags = or_empty_list (get l ''flags'') in
     and_then (str_in ''LOOPBACK'' flags) (\<lambda>loopback.
     and_then (if loopback then Inr False else str_in ''LOWER_UP'' flags) (\<lambda>up.
       if \<not> up then links_addresses links found
       else and_then (elements (or_empty_list (get l ''addr_info''))) (\<lambda>infos.
            and_then (link_addresses infos found) (\<lambda>found. links_addresses links found)))))"

definition parse_ip_addresses :: "(string \<Rightarrow> string) \<Rightarrow> string \<Rightarrow> json list res" where
  "parse_ip_addresses flt output =
     (case loads flt (if output = [] then ''[]'' else output) of
        Inl Malformed \<Rightarrow> Inr []
      | Inl Too_many_digits \<Rightarrow> Inl ValueError
      | Inl Beyond_model \<Rightarrow> Inl Beyond_latin1
      | Inr v \<Rightarrow> and_then (elements v) (\<lambda>links. links_addresses links []))"

definition AVAHI_CALL :: "string list" where
  "AVAHI_CALL =
     [''busctl'', ''--system'', ''call'', ''org.freedesktop.Avahi'', ''/'', ''org.freedesktop.Avahi.Server'', ''GetHostNameFqdn'']"

definition IP_ADDRESSES :: "string list" where "IP_ADDRESSES = [''ip'', ''-j'', ''-4'', ''addr'', ''show'']"

text \<open>One question: what its answer says, or nothing when it cannot be asked.\<close>

definition ask_about_us :: "'h exec \<Rightarrow> string list \<Rightarrow> (string \<Rightarrow> 'a res) \<Rightarrow> 'a \<Rightarrow> 'h \<Rightarrow> 'a res \<times> 'h" where
  "ask_about_us exec argv read otherwise h =
     (case exec argv h of
        (Inl e, h) \<Rightarrow> (if is_smbpal_error e \<or> e = OSError then (Inr otherwise, h) else (Inl e, h))
      | (Inr r, h) \<Rightarrow> if cr_returncode r \<noteq> 0 then (Inr otherwise, h) else (read (cr_stdout r), h))"

definition identify :: "'h exec \<Rightarrow> (string \<Rightarrow> string) \<Rightarrow> string \<Rightarrow> 'h \<Rightarrow> identity res \<times> 'h" where
  "identify exec flt hostname h =
     then_do (ask_about_us exec AVAHI_CALL (\<lambda>out. Inr (parse_busctl_string out)) None h) (\<lambda>mdns h.
     then_do (ask_about_us exec IP_ADDRESSES (parse_ip_addresses flt) [] h) (\<lambda>addresses h.
       (Inr \<lparr>id_hostname = hostname, id_mdns = mdns, id_addresses = addresses\<rparr>, h)))"

text \<open>\<open>identity.describe\<close>: the name, then the addresses, with a middle dot between them.\<close>

definition dotted :: "string list \<Rightarrow> string" where "dotted parts = join [CHR '' '', CHR 0xB7, CHR '' ''] parts"

definition describe_host :: "json \<Rightarrow> string res" where
  "describe_host host =
     (if \<not> truthy host then Inr []
      else and_then (as_dict host) (\<lambda>h.
           and_then (elements (or_empty_list (get h ''addresses''))) (\<lambda>addresses.
           and_then (map_res (\<lambda>p. case p of JStr s \<Rightarrow> Inr s | _ \<Rightarrow> Inl TypeError)
                       ((if truthy (get h ''mdns'') then [get h ''mdns''] else []) @ addresses)) (\<lambda>parts.
             Inr (dotted parts)))))"

subsection \<open>What avahi prints reads back\<close>

lemma decode_encoded: "decode_utf8 (map char_of (concat (map utf8 s))) = Inr s"
proof (induction s)
  case (Cons c s)
  have m: "code c mod 64 < 64" by simp
  show ?case
  proof (cases "code c < 128")
    case True
    moreover have "char_of (code c) = c" by (simp add: code_def)
    ultimately show ?thesis using Cons by (simp add: utf8_def then_char_def)
  next
    case False
    then have d: "2 \<le> code c div 64" "code c div 64 < 4" using code_less [of c] by (simp_all add: div_less_iff_less_mult less_eq_div_iff_mult_less_eq)
    have b: "code (char_of (192 + code c div 64) :: char) = 192 + code c div 64"
      "code (char_of (128 + code c mod 64) :: char) = 128 + code c mod 64" using d by simp_all
    have "char_of ((code (char_of (192 + code c div 64) :: char) - 192) * 64 + (code (char_of (128 + code c mod 64) :: char) - 128)) = c"
      unfolding b by (simp add: code_def)
    then show ?thesis using False Cons d unfolding utf8_def by (simp add: then_char_def in_bytes_def b)
  qed
qed simp

text \<open>How avahi escapes a name: letters, digits and hyphens stand for themselves, other ASCII graphics are escaped by a backslash, and
  every other byte is three decimal digits.\<close>

definition decimal3 :: "nat \<Rightarrow> string" where
  "decimal3 b = [char_of (48 + b div 100), char_of (48 + b div 10 mod 10), char_of (48 + b mod 10)]"

definition avahi_byte :: "nat \<Rightarrow> string" where
  "avahi_byte b =
     (let c = char_of b :: char in
      if is_digit c \<or> is_az c \<or> is_AZ c \<or> c = CHR ''-'' then [c]
      else if 33 \<le> b \<and> b < 127 then [backslash, c] else backslash # decimal3 b)"

definition avahi_escape :: "string \<Rightarrow> string" where
  "avahi_escape name = concat (map avahi_byte (concat (map utf8 name)))"

definition avahi_line :: "service \<Rightarrow> string" where
  "avahi_line s =
     join [CHR '';''] [''='', av_interface s, av_protocol s, avahi_escape (av_name s), av_type s, av_domain s,
       avahi_escape (av_hostname s), av_address s, int_str (av_port s), av_txt s]"

lemma decimal3_val:
  assumes "b < 256"
  shows "\<forall>c \<in> set (decimal3 b). is_digit c" "digits_val (decimal3 b) = b"
proof -
  have "b div 100 < 10" using assms by (simp add: div_less_iff_less_mult)
  then have d: "is_digit (char_of (48 + b div 100))" "is_digit (char_of (48 + b div 10 mod 10))" "is_digit (char_of (48 + b mod 10))"
    by (simp_all add: is_digit_def)
  then show "\<forall>c \<in> set (decimal3 b). is_digit c" by (simp add: decimal3_def)
  have "b = (X * 10 + Y) * 10 + Z" if "X = b div 100" "Y = b div 10 mod 10" "Z = b mod 10" for X Y Z
  proof -
    have "X = b div 10 div 10" using that(1) div_mult2_eq [of b 10 10] by simp
    then have "X * 10 + Y = b div 10" using that(2) by simp
    then show ?thesis using that(3) by simp
  qed
  then show "digits_val (decimal3 b) = b" using \<open>b div 100 < 10\<close> by (simp add: decimal3_def digits_val_def algebra_simps)
qed

lemma unescape_avahi_byte:
  assumes "b < 256"
  shows "unescape_bytes (avahi_byte b @ t) = b # unescape_bytes t"
proof -
  have u: "utf8 (char_of b) = [b]" if "b < 128" using that by (simp add: utf8_def)
  have bs: "char_of b = backslash \<longleftrightarrow> b = 92" "char_of b = CHR ''-'' \<longleftrightarrow> b = 45"
  proof -
    have "code backslash = 92" "code (CHR ''-'') = 45" by code_simp+
    then show "char_of b = backslash \<longleftrightarrow> b = 92" "char_of b = CHR ''-'' \<longleftrightarrow> b = 45"
      using code_inj [of "char_of b" backslash] code_inj [of "char_of b" "CHR ''-''"] code_char_of [OF assms] by metis+
  qed
  consider (plain) "avahi_byte b = [char_of b]" "b < 128" "char_of b \<noteq> backslash"
    | (escaped) "avahi_byte b = [backslash, char_of b]" "b < 127" "\<not> is_digit (char_of b)"
    | (digits) "avahi_byte b = backslash # decimal3 b"
    using assms
    by (cases "48 \<le> b \<and> b \<le> 57 \<or> 97 \<le> b \<and> b \<le> 122 \<or> 65 \<le> b \<and> b \<le> 90 \<or> b = 45"; cases "33 \<le> b \<and> b < 127")
      (auto simp: avahi_byte_def Let_def is_digit_def is_az_def is_AZ_def bs)
  then show ?thesis
  proof cases
    case plain
    then show ?thesis using u by simp
  next
    case escaped
    then show ?thesis using u by (cases t; cases "tl t") auto
  next
    case digits
    then show ?thesis using decimal3_val [OF assms] assms by (simp add: decimal3_def)
  qed
qed

lemma unescape_avahi: "unescape_field (avahi_escape name) = Inr name"
proof -
  have "unescape_bytes (concat (map avahi_byte bs)) = bs" if "\<forall>b \<in> set bs. b < 256" for bs
    using that by (induction bs) (simp_all add: unescape_avahi_byte)
  then have "unescape_bytes (avahi_escape name) = concat (map utf8 name)"
    unfolding avahi_escape_def by (simp add: utf8_byte)
  then show ?thesis by (simp add: unescape_field_def decode_encoded)
qed

fun unsplit :: "bool \<Rightarrow> string \<Rightarrow> bool" where
  "unsplit escaped [] = (\<not> escaped)"
| "unsplit escaped (c # cs) =
     (if escaped then unsplit False cs else if c = backslash then unsplit True cs else c \<noteq> CHR '';'' \<and> unsplit False cs)"

lemma split_field:
  "unsplit escaped f \<Longrightarrow> 0 < room \<Longrightarrow>
   split_escaped room escaped current (f @ CHR '';'' # rest)
     = (current @ (if escaped then [backslash] else []) @ f) # split_escaped (room - 1) False [] rest"
  by (induction escaped f arbitrary: current rule: unsplit.induct) (auto simp: backslash_def split: if_splits)

lemma split_last: "split_escaped 0 escaped current f = [current @ (if escaped then [backslash] else []) @ f]"
  by (induction f arbitrary: escaped current) auto

lemma unsplit_plain: "CHR '';'' \<notin> set f \<Longrightarrow> backslash \<notin> set f \<Longrightarrow> unsplit False f"
  by (induction f) auto

lemma unsplit_byte: "b < 256 \<Longrightarrow> unsplit False (avahi_byte b @ t) = unsplit False t"
proof -
  assume b: "b < 256"
  have d: "\<forall>c \<in> set (decimal3 b). c \<noteq> backslash \<and> c \<noteq> CHR '';''"
  proof -
    have "\<not> is_digit backslash" "\<not> is_digit (CHR '';'')" by code_simp+
    then show ?thesis using decimal3_val(1) [OF b] by blast
  qed
  have p: "c \<noteq> backslash \<and> c \<noteq> CHR '';''" if "is_digit c \<or> is_az c \<or> is_AZ c \<or> c = CHR ''-''" for c
  proof -
    have "\<not> (is_digit x \<or> is_az x \<or> is_AZ x \<or> x = CHR ''-'')" if "x \<in> {backslash, CHR '';''}" for x
      using that by (elim insertE emptyE; hypsubst; code_simp)
    with that show ?thesis by blast
  qed
  show ?thesis using d p by (auto simp: avahi_byte_def Let_def decimal3_def)
qed

lemma unsplit_escape: "unsplit False (avahi_escape name)"
proof -
  have "unsplit False (concat (map avahi_byte bs))" if "\<forall>b \<in> set bs. b < 256" for bs
    using that by (induction bs) (simp_all add: unsplit_byte)
  then show ?thesis unfolding avahi_escape_def by (simp add: utf8_byte)
qed

definition plain_field :: "string \<Rightarrow> bool" where
  "plain_field f = (CHR '';'' \<notin> set f \<and> backslash \<notin> set f \<and> no_breaks f)"

definition plain_service :: "service \<Rightarrow> bool" where
  "plain_service s =
     (plain_field (av_interface s) \<and> plain_field (av_protocol s) \<and> plain_field (av_type s) \<and> plain_field (av_domain s)
      \<and> plain_field (av_address s) \<and> 0 \<le> av_port s \<and> av_port s < 65536 \<and> no_breaks (av_txt s))"

lemma int_field_port:
  assumes "0 \<le> p" "p < 65536"
  shows "int_field (int_str p) = Some p" "unsplit False (int_str p)" "no_breaks (int_str p)"
proof -
  have i: "int_str p = nat_str (nat p)" using assms(1) by (simp add: int_str_def)
  have d: "\<forall>c \<in> set (nat_str (nat p)). is_digit c" by (rule nat_str_digits)
  have "length (nat_str (nat p)) \<le> Suc 4" using assms by (intro length_nat_str_le) simp
  then have l: "int (length (filter is_digit (nat_str (nat p)))) \<le> 5" using length_filter_le [of is_digit "nat_str (nat p)"] by linarith
  obtain c cs where c: "nat_str (nat p) = c # cs" by (cases "nat_str (nat p)") simp_all
  have g: "digit_groups b ds = Some ds" if "\<forall>c \<in> set ds. is_digit c" "ds \<noteq> [] \<or> b" for b ds
    using that by (induction b ds rule: digit_groups.induct) auto
  have n: "\<not> is_digit (CHR ''-'')" "\<not> is_digit (CHR ''+'')" "\<not> is_digit (CHR '';'')" "\<not> is_digit backslash" by code_simp+
  have s: "\<not> is_space x" "\<not> is_break x" if "is_digit x" for x using that by (auto simp: is_digit_def is_space_def is_break_def)
  have "c \<noteq> CHR ''-''" "c \<noteq> CHR ''+''" using c d n by auto
  moreover have "py_strip (nat_str (nat p)) = nat_str (nat p)"
    using d s(1) c by (intro strip_self disjI2) (metis hd_in_set last_in_set list.discI)
  moreover have "digits_val (c # cs) = nat p" using c digits_val_nat_str by metis
  ultimately show "int_field (int_str p) = Some p"
    using l c g [OF d, of False] assms(1) by (simp add: int_field_def DIGIT_LIMIT_def i py_int_def)
  show "unsplit False (int_str p)" unfolding i using d n by (intro unsplit_plain) auto
  show "no_breaks (int_str p)" unfolding i no_breaks_def using d s(2) by blast
qed

lemma line_splits:
  assumes "plain_service s"
  shows "split_escaped 9 False [] (avahi_line s) =
    [''='', av_interface s, av_protocol s, avahi_escape (av_name s), av_type s, av_domain s, avahi_escape (av_hostname s),
     av_address s, int_str (av_port s), av_txt s]"
proof -
  have l: "avahi_line s = ''='' @ CHR '';'' # av_interface s @ CHR '';'' # av_protocol s @ CHR '';'' # avahi_escape (av_name s)
      @ CHR '';'' # av_type s @ CHR '';'' # av_domain s @ CHR '';'' # avahi_escape (av_hostname s) @ CHR '';'' # av_address s
      @ CHR '';'' # int_str (av_port s) @ CHR '';'' # av_txt s"
    by (simp add: avahi_line_def join_Cons)
  have u: "unsplit False (av_interface s)" "unsplit False (av_protocol s)" "unsplit False (av_type s)"
    "unsplit False (av_domain s)" "unsplit False (av_address s)" "unsplit False (int_str (av_port s))" "unsplit False ''=''"
    using assms int_field_port(2) by (auto simp: plain_service_def plain_field_def unsplit_plain backslash_def)
  show ?thesis unfolding l
    by (simp only: split_field [OF u(7)] split_field [OF u(1)] split_field [OF u(2)] split_field [OF unsplit_escape]
        split_field [OF u(3)] split_field [OF u(4)] split_field [OF u(5)] split_field [OF u(6)]
        zero_less_numeral zero_less_diff diff_numeral_simps) (simp add: split_field u unsplit_escape split_last)
qed

lemma parse_avahi_line: "plain_service s \<Longrightarrow> parse_line (avahi_line s) = Inr (Some s)"
  using int_field_port(1) [of "av_port s"]
  by (simp add: parse_line_def line_splits unescape_avahi plain_service_def) (simp add: avahi_line_def join_Cons unescape_avahi)

lemma escape_no_breaks: "no_breaks (avahi_escape name)"
proof -
  have "\<not> is_break c" if "c \<in> set (avahi_byte b)" "b < 256" for b c
  proof -
    have "\<not> is_break backslash" by code_simp
    moreover have "is_digit x \<Longrightarrow> \<not> is_break x" for x by (auto simp: is_digit_def is_break_def)
    moreover have "is_az x \<or> is_AZ x \<or> x = CHR ''-'' \<Longrightarrow> \<not> is_break x" for x
    proof -
      have "\<not> is_break (CHR ''-'')" by code_simp
      then show "is_az x \<or> is_AZ x \<or> x = CHR ''-'' \<Longrightarrow> \<not> is_break x" by (auto simp: is_az_def is_AZ_def is_break_def)
    qed
    moreover have "33 \<le> b \<and> b < 127 \<Longrightarrow> \<not> is_break (char_of b)" by (simp add: is_break_def)
    ultimately show ?thesis using that decimal3_val(1) [of b] by (auto simp: avahi_byte_def Let_def split: if_splits)
  qed
  then show ?thesis unfolding avahi_escape_def no_breaks_def by (auto dest: utf8_byte)
qed

lemma line_no_breaks:
  assumes "plain_service s"
  shows "\<forall>c \<in> set (avahi_line s). \<not> is_break c"
proof -
  have "no_breaks f" if "f \<in> set [''='', av_interface s, av_protocol s, avahi_escape (av_name s), av_type s, av_domain s,
      avahi_escape (av_hostname s), av_address s, int_str (av_port s), av_txt s]" for f
  proof -
    have "no_breaks ''=''" by code_simp
    then show ?thesis using that assms escape_no_breaks int_field_port(3) by (auto simp: plain_service_def plain_field_def)
  qed
  moreover have "\<not> is_break (CHR '';'')" by code_simp
  ultimately show ?thesis unfolding avahi_line_def no_breaks_def using join_set [of "[CHR '';'']"] by fastforce
qed

text \<open>What avahi-browse prints of the machines it resolved reads back as those machines, whatever characters their names have, semicolons
  and backslashes included, and whatever its text records hold.\<close>

theorem browse_output_reads_back:
  assumes "\<forall>s \<in> set ss. plain_service s"
  shows "parse_browse (concat (map (\<lambda>s. avahi_line s @ [lf]) ss)) = Inr ss"
proof -
  have "splitlines (concat (map (\<lambda>s. avahi_line s @ [lf]) ss)) = map avahi_line ss"
    using assms by (induction ss) (auto simp: splitlines_line [OF line_no_breaks])
  moreover have "map_res parse_line (map avahi_line ss) = Inr (map Some ss)"
    using assms by (induction ss) (simp_all add: parse_avahi_line and_then_def)
  moreover have "concat (map (\<lambda>s. case s of None \<Rightarrow> [] | Some x \<Rightarrow> [x]) (map Some ss)) = ss" by (induction ss) simp_all
  ultimately show ?thesis by (simp add: parse_browse_def and_then_def)
qed

subsection \<open>One row per machine\<close>

definition host_key :: "service \<Rightarrow> string" where "host_key s = py_lower (av_hostname s)"

definition answers :: "service list \<Rightarrow> string \<Rightarrow> string set" where
  "answers ss key = av_address ` {s \<in> set ss. \<not> uninteresting s \<and> host_key s = key}"

definition collected :: "service list \<Rightarrow> (string \<Rightarrow> bool) \<Rightarrow> machines \<Rightarrow> bool" where
  "collected ss smbpal ms =
     (distinct (map fst ms) \<and> fst ` set ms = host_key ` {s \<in> set ss. \<not> uninteresting s}
      \<and> (\<forall>(k, m) \<in> set ms. k = py_lower (mc_hostname m) \<and> distinct (mc_addresses m) \<and> set (mc_addresses m) = answers ss k
           \<and> mc_smbpal m = smbpal k))"

lemma update_member:
  "distinct (map fst ms) \<Longrightarrow> (k', m') \<in> set (AList.update k m ms) \<longleftrightarrow> (if k' = k then m' = m else (k', m') \<in> set ms)"
  by (induction ms) (auto simp: rev_image_eqI)

lemma collect_one:
  assumes "collected ss (\<lambda>_. False) ms"
  shows "collected (ss @ [s]) (\<lambda>_. False) (add_service s ms)"
proof (cases "uninteresting s")
  case True
  then have "answers (ss @ [s]) = answers ss" "host_key ` {x \<in> set (ss @ [s]). \<not> uninteresting x} = host_key ` {x \<in> set ss. \<not> uninteresting x}"
    by (auto simp: answers_def fun_eq_iff)
  then show ?thesis using assms True by (simp add: collected_def add_service_def)
next
  case False
  let ?k = "host_key s"
  have new: "answers (ss @ [s]) k = (if k = ?k then insert (av_address s) (answers ss k) else answers ss k)" for k
    using False by (auto simp: answers_def)
  have d: "distinct (map fst ms)" using assms by (simp add: collected_def)
  define m where "m = (case map_of ms ?k of Some m \<Rightarrow> m
    | None \<Rightarrow> \<lparr>mc_name = av_name s, mc_hostname = av_hostname s, mc_addresses = [], mc_port = av_port s, mc_smbpal = False\<rparr>)"
  have m: "?k = py_lower (mc_hostname m) \<and> distinct (mc_addresses m) \<and> set (mc_addresses m) = answers ss ?k \<and> \<not> mc_smbpal m"
  proof (cases "map_of ms ?k")
    case None
    then have "?k \<notin> fst ` set ms" by (simp add: map_of_eq_None_iff)
    moreover have "fst ` set ms = host_key ` {x \<in> set ss. \<not> uninteresting x}"
      using assms unfolding collected_def by (elim conjE)
    ultimately have "?k \<notin> host_key ` {x \<in> set ss. \<not> uninteresting x}" by simp
    then have "{x \<in> set ss. \<not> uninteresting x \<and> host_key x = ?k} = {}" by (auto simp: image_iff)
    then have "answers ss ?k = {}" by (simp only: answers_def image_empty)
    moreover have "m = \<lparr>mc_name = av_name s, mc_hostname = av_hostname s, mc_addresses = [], mc_port = av_port s, mc_smbpal = False\<rparr>"
      using None by (simp add: m_def)
    ultimately show ?thesis by (simp add: host_key_def [of s])
  next
    case (Some x)
    then have "(?k, x) \<in> set ms" by (rule map_of_SomeD)
    then show ?thesis using assms Some by (auto simp: m_def collected_def)
  qed
  have a: "add_service s ms = AList.update ?k
      (if av_address s \<in> set (mc_addresses m) then m else m\<lparr>mc_addresses := mc_addresses m @ [av_address s]\<rparr>) ms"
    using False by (simp add: add_service_def m_def host_key_def Let_def)
  have "distinct (map fst (add_service s ms))" unfolding a using d by (rule distinct_update)
  moreover have "fst ` set (add_service s ms) = host_key ` {x \<in> set (ss @ [s]). \<not> uninteresting x}"
    unfolding a keys_update using assms False by (auto simp: collected_def)
  moreover have "k = py_lower (mc_hostname x) \<and> distinct (mc_addresses x) \<and> set (mc_addresses x) = answers (ss @ [s]) k \<and> \<not> mc_smbpal x"
    if "(k, x) \<in> set (add_service s ms)" for k x
  proof (cases "k = ?k")
    case True
    then have "x = (if av_address s \<in> set (mc_addresses m) then m else m\<lparr>mc_addresses := mc_addresses m @ [av_address s]\<rparr>)"
      using that unfolding a update_member [OF d] by simp
    then show ?thesis using m True by (auto simp: new)
  next
    case other: False
    then have "(k, x) \<in> set ms" using that unfolding a update_member [OF d] by simp
    then show ?thesis using assms other by (auto simp: collected_def new)
  qed
  ultimately show ?thesis unfolding collected_def by blast
qed

lemma collect_all: "collected ss (\<lambda>_. False) (fold add_service ss [])"
proof (induction ss rule: rev_induct)
  case Nil
  show ?case by (simp add: collected_def)
next
  case (snoc s ss)
  from collect_one [OF this, of s] show ?case by simp
qed

lemma mark_one:
  assumes "collected ss q ms"
  shows "collected ss (\<lambda>k. q k \<or> k = host_key s) (mark_smbpal s ms)"
proof (cases "map_of ms (host_key s)")
  case None
  then have "host_key s \<notin> fst ` set ms" by (simp add: map_of_eq_None_iff)
  then show ?thesis using assms None by (force simp: collected_def mark_smbpal_def host_key_def)
next
  case (Some m)
  have d: "distinct (map fst ms)" using assms by (simp add: collected_def)
  have mem: "(host_key s, m) \<in> set ms" using Some by (rule map_of_SomeD)
  have a: "mark_smbpal s ms = AList.update (host_key s) (m\<lparr>mc_smbpal := True\<rparr>) ms"
    using Some by (simp add: mark_smbpal_def host_key_def)
  have "fst ` set (mark_smbpal s ms) = fst ` set ms" unfolding a keys_update using mem by force
  moreover have "k = py_lower (mc_hostname x) \<and> distinct (mc_addresses x) \<and> set (mc_addresses x) = answers ss k
      \<and> mc_smbpal x = (q k \<or> k = host_key s)" if "(k, x) \<in> set (mark_smbpal s ms)" for k x
    using that assms mem unfolding a update_member [OF d] by (auto simp: collected_def split: if_splits)
  moreover have "distinct (map fst (mark_smbpal s ms))" unfolding a using d by (rule distinct_update)
  ultimately show ?thesis using assms by (auto simp: collected_def)
qed

lemma mark_all: "collected ss q ms \<Longrightarrow> collected ss (\<lambda>k. q k \<or> k \<in> host_key ` set ps) (fold mark_smbpal ps ms)"
proof (induction ps arbitrary: q ms)
  case (Cons p ps)
  from Cons.IH [OF mark_one [OF Cons.prems, of p]] show ?case by (simp add: disj_assoc)
qed simp

text \<open>C32: The list of machines has one row per machine. No two rows have the same host name, however it is capitalised; a row carries
  exactly the addresses its host announced that a person can use, each once and IPv4 first; it says SMBPal runs there exactly when that
  host announced it; no host that announced such an address is missing; and the rows are in the order of their names.\<close>

theorem one_row_per_machine:
  "distinct (map (py_lower \<circ> mc_hostname) (merge smb smbpal))
   \<and> (py_lower \<circ> mc_hostname) ` set (merge smb smbpal) = host_key ` {s \<in> set smb. \<not> uninteresting s}
   \<and> (\<forall>m. m \<in> set (merge smb smbpal) \<longrightarrow>
        set (mc_addresses m) = answers smb (py_lower (mc_hostname m)) \<and> distinct (mc_addresses m)
        \<and> sorted (map address_key (mc_addresses m))
        \<and> (mc_smbpal m \<longleftrightarrow> py_lower (mc_hostname m) \<in> host_key ` set smbpal))
   \<and> sorted (map (\<lambda>m. py_lower (mc_name m)) (merge smb smbpal))"
proof -
  define ms where "ms = fold mark_smbpal smbpal (fold add_service smb [])"
  define rows where "rows = map (\<lambda>(_, m). m\<lparr>mc_addresses := sort_key address_key (mc_addresses m)\<rparr>) ms"
  have c: "collected smb (\<lambda>k. k \<in> host_key ` set smbpal) ms" using mark_all [OF collect_all, of smb smbpal] by (simp add: ms_def)
  have keys: "map (py_lower \<circ> mc_hostname) rows = map fst ms" using c by (auto simp: rows_def collected_def)
  have merge: "merge smb smbpal = sort_key (\<lambda>m. py_lower (mc_name m)) rows" by (simp add: merge_def rows_def ms_def)
  have "distinct (map (py_lower \<circ> mc_hostname) (merge smb smbpal)) \<longleftrightarrow> distinct (map (py_lower \<circ> mc_hostname) rows)"
    unfolding merge by (simp add: distinct_map)
  moreover have "set (merge smb smbpal) = set rows" by (simp add: merge)
  moreover have "(py_lower \<circ> mc_hostname) ` set rows = fst ` set ms" using arg_cong [OF keys, of set] by (simp add: image_comp)
  moreover have "set (mc_addresses m) = answers smb (py_lower (mc_hostname m)) \<and> distinct (mc_addresses m)
        \<and> sorted (map address_key (mc_addresses m)) \<and> (mc_smbpal m \<longleftrightarrow> py_lower (mc_hostname m) \<in> host_key ` set smbpal)"
    if "m \<in> set rows" for m
    using that c by (auto simp: rows_def collected_def)
  ultimately show ?thesis using c by (simp add: keys collected_def merge)
qed

definition studio :: "string \<Rightarrow> string \<Rightarrow> service" where
  "studio host address =
     \<lparr>av_interface = ''eth0'', av_protocol = ''IPv4'', av_name = ''Studio'', av_type = ''_smb._tcp'', av_domain = ''local'',
      av_hostname = host, av_address = address, av_port = 445, av_txt = []\<rparr>"

theorem one_row_per_machine_witness:
  "\<exists>m. merge [studio ''Studio.local'' ''fd00::2'', studio ''studio.local'' ''10.0.0.2'', studio ''studio.local'' ''fe80::1''] [] = [m]
     \<and> set (mc_addresses m) = {''fd00::2'', ''10.0.0.2''} \<and> sorted (map address_key (mc_addresses m)) \<and> \<not> mc_smbpal m"
proof -
  let ?ss = "[studio ''Studio.local'' ''fd00::2'', studio ''studio.local'' ''10.0.0.2'', studio ''studio.local'' ''fe80::1'']"
  have "length (merge ?ss []) = 1" by code_simp
  then obtain m where m: "merge ?ss [] = [m]" by (cases "merge ?ss []") auto
  have a: "answers ?ss ''studio.local'' = {''fd00::2'', ''10.0.0.2''}"
    and k: "host_key ` {s \<in> set ?ss. \<not> uninteresting s} = {''studio.local''}" by code_simp+
  note t = one_row_per_machine [of ?ss "[]", unfolded m k]
  from t have h: "py_lower (mc_hostname m) = ''studio.local''" by simp
  from t have "set (mc_addresses m) = answers ?ss (py_lower (mc_hostname m)) \<and> sorted (map address_key (mc_addresses m)) \<and> \<not> mc_smbpal m"
    by simp
  then show ?thesis unfolding h a using m by simp
qed

subsection \<open>The listing stays in its memory\<close>

text \<open>Nothing of libsmbclient's memory is touched past what it said is there. An entry is read from within the bytes its record
  claims; a name or a password is copied into no more than the bytes the buffer has, whatever its length, ends in a zero
  byte within them, and leaves the rest of the buffer as it was.\<close>

theorem listing_stays_in_its_memory:
  "read_entry (e\<lparr>de_bytes := take (unat (de_dirlen e)) (de_bytes e)\<rparr>) = read_entry e
   \<and> (case write_into (Some b) (int n) v of
        None \<Rightarrow> False
      | Some b' \<Rightarrow> n \<le> length b \<longrightarrow>
          length b' = length b \<and> drop n b' = drop n b \<and> (0 < n \<longrightarrow> CHR 0x00 \<in> set (take n b')))"
proof -
  have "take k (drop a (take n xs)) = take k (drop a xs)" if "a + k \<le> n" for k a n and xs :: string
    using that by (simp add: drop_take min_def)
  from this [of NAME_AT "unat (de_namelen e)" "unat (de_dirlen e)" "de_bytes e"] have "read_entry (e\<lparr>de_bytes := take (unat (de_dirlen e)) (de_bytes e)\<rparr>) = read_entry e"
    by (cases "de_comment e") (auto simp: read_entry_def Let_def not_less)
  moreover have "length b' = length b \<and> drop n b' = drop n b \<and> (0 < n \<longrightarrow> CHR 0x00 \<in> set (take n b'))"
    if w: "write_into (Some b) (int n) v = Some b'" and le: "n \<le> length b" for b'
  proof (cases "n = 0")
    case False
    define x where "x = take (n - 1) (concat (map (\<lambda>c. map char_of (utf8 c)) v)) @ [CHR 0x00]"
    have b': "b' = x @ drop (length x) b" using w False by (auto simp: write_into_def Let_def x_def nat_diff_distrib)
    have l: "length x \<le> n" "CHR 0x00 \<in> set x" using False by (auto simp: x_def)
    then show ?thesis using le False by (auto simp: b')
  qed (use w in \<open>simp add: write_into_def\<close>)
  moreover have "write_into (Some b) (int n) v \<noteq> None" by (simp add: write_into_def Let_def)
  ultimately show ?thesis by (auto split: option.split)
qed

theorem listing_stays_in_its_memory_witness:
  "write_into (Some ''secret'') (int 4) ''pass'' = Some (''pas'' @ [CHR 0x00] @ ''et'')"
proof -
  have w: "write_into (Some ''secret'') (int 4) ''pass'' = Some (''pas'' @ [CHR 0x00] @ ''et'')" by code_simp
  from listing_stays_in_its_memory [of "\<lparr>de_type = 3, de_dirlen = 0, de_commentlen = 0, de_comment = None, de_namelen = 0, de_bytes = []\<rparr>"
      4 "''secret''" "''pass''"] w show ?thesis by simp
qed

end
