(* ===== verification/Screen.thy ===== *)
theory Screen
  imports Discovery Requests
begin

text \<open>
  \<^verbatim>\<open>smbpal/gui/model.py\<close>: what the window and the tray show, decided from one \<open>status\<close> reply and the events pushed after it.
  A sentence is a \<open>wording\<close>, one constructor for each in the code, with the values it shows; a value of the reply that is shown
  as it came is \<open>As_given\<close>.
\<close>

subsection \<open>The vocabulary\<close>

datatype tone = Tone_ok | Tone_busy | Tone_idle | Tone_attention | Tone_problem | Tone_muted

datatype button =
  B_connect | B_disconnect | B_remove | B_use_fallback | B_make_writable | B_set_credentials | B_set_smb_password

datatype list_of = In_shares | In_connections | In_unaccounted

datatype wording =
    Is_mounted | Is_mounting | Failed_and_trying_again | Ready_when_opened | Not_automatic | Cannot_tell | Did_not_connect
  | Login_refused | Server_silent | Name_unknown | Being_checked | Something_else_here | No_password_stored | Only_in_config
  | Is_shared | Nothing_to_say | Not_served_by_samba | Switched_off | Samba_not_asked | Not_ours | Held_not_served
  | State_not_known | Folder_of_somebody_else | Account_cannot_sign_in json | Nobody_can_sign_in | Signs_in_as json

datatype shown_text = As_given json | Worded wording

definition NEEDS_CONFIRMING :: "button set" where "NEEDS_CONFIRMING = {B_remove, B_make_writable}"

definition BUTTON_METHODS :: "((list_of \<times> button) \<times> string) list" where
  "BUTTON_METHODS =
     [((In_connections, B_connect), ''connection.connect''), ((In_connections, B_disconnect), ''connection.disconnect''),
      ((In_connections, B_remove), ''connection.remove''), ((In_connections, B_use_fallback), ''connection.use_fallback''),
      ((In_connections, B_set_credentials), ''connection.set_credentials''), ((In_shares, B_remove), ''share.remove''),
      ((In_shares, B_make_writable), ''share.make_writable''), ((In_shares, B_set_smb_password), ''credential.set'')]"

definition CONNECTION_PRESENTATION :: "(string \<times> tone \<times> wording) list" where
  "CONNECTION_PRESENTATION =
     [(''connected'', Tone_ok, Is_mounted), (''connecting'', Tone_busy, Is_mounting),
      (''reconnecting'', Tone_busy, Failed_and_trying_again), (''idle'', Tone_idle, Ready_when_opened),
      (''disabled'', Tone_muted, Not_automatic), (''unknown'', Tone_muted, Cannot_tell),
      (''failed'', Tone_problem, Did_not_connect), (''auth_failed'', Tone_problem, Login_refused),
      (''unreachable'', Tone_problem, Server_silent), (''unresolved'', Tone_problem, Name_unknown),
      (''mounted'', Tone_ok, Is_mounted), (''not mounted'', Tone_idle, Ready_when_opened),
      (''checking'', Tone_busy, Being_checked), (''mountpoint in use'', Tone_problem, Something_else_here),
      (''no credentials'', Tone_problem, No_password_stored), (''not applied'', Tone_muted, Only_in_config)]"

definition CONNECTED :: "string list" where "CONNECTED = [''connected'', ''mounted'']"

definition NOT_CONNECTED :: "string list" where
  "NOT_CONNECTED = [''idle'', ''not mounted'', ''failed'', ''auth_failed'', ''unreachable'', ''unresolved'', ''unknown'']"

definition WANTS_CREDENTIALS :: "string list" where "WANTS_CREDENTIALS = [''auth_failed'', ''no credentials'']"

definition SHARE_PRESENTATION :: "(string \<times> tone \<times> wording) list" where
  "SHARE_PRESENTATION =
     [(''serving'', Tone_ok, Is_shared), (''read-only'', Tone_attention, Nothing_to_say),
      (''not served'', Tone_problem, Not_served_by_samba), (''disabled'', Tone_muted, Switched_off),
      (''unknown'', Tone_muted, Samba_not_asked), (''unmanaged'', Tone_muted, Not_ours),
      (''not applied'', Tone_muted, Held_not_served)]"

definition UNRECOGNISED :: "tone \<times> wording" where "UNRECOGNISED = (Tone_muted, State_not_known)"

text \<open>\<open>table.get(state, UNRECOGNISED)\<close>: a list or a dict cannot be a key.\<close>

definition presented :: "(string \<times> tone \<times> wording) list \<Rightarrow> json \<Rightarrow> (tone \<times> wording) res" where
  "presented table state =
     (case state of
        JStr s \<Rightarrow> Inr (case map_of table s of None \<Rightarrow> UNRECOGNISED | Some p \<Rightarrow> p)
      | JList _ \<Rightarrow> Inl TypeError
      | JObj _ \<Rightarrow> Inl TypeError
      | _ \<Rightarrow> Inr UNRECOGNISED)"

definition among :: "json \<Rightarrow> string list \<Rightarrow> bool" where
  "among v ws = (case v of JStr s \<Rightarrow> s \<in> set ws | _ \<Rightarrow> False)"

text \<open>\<open>d.get(k, default)\<close> and \<open>a or b\<close>.\<close>

definition get_else :: "obj \<Rightarrow> string \<Rightarrow> json \<Rightarrow> json" where
  "get_else ob k otherwise = (case map_of ob k of None \<Rightarrow> otherwise | Some v \<Rightarrow> v)"

definition json_or :: "json \<Rightarrow> json \<Rightarrow> json" where "json_or a b = (if truthy a then a else b)"

definition given_or :: "json \<Rightarrow> wording \<Rightarrow> shown_text" where
  "given_or v w = (if truthy v then As_given v else Worded w)"

subsection \<open>Rows\<close>

record window_row =
  rw_id :: json
  rw_title :: json
  rw_subtitle :: json
  rw_state :: json
  rw_message :: shown_text
  rw_tone :: tone
  rw_actions :: "button list"
  rw_hint :: shown_text
  rw_section :: list_of
  rw_account :: json

definition needs_attention :: "window_row \<Rightarrow> bool" where "needs_attention r = (rw_tone r \<in> {Tone_problem, Tone_attention})"

definition connection_actions :: "obj \<Rightarrow> json \<Rightarrow> button list" where
  "connection_actions connection state =
     (if among state WANTS_CREDENTIALS then [B_set_credentials] else [])
     @ (if among state CONNECTED then [B_disconnect] else if among state NOT_CONNECTED then [B_connect] else [])
     @ (if state = JStr ''unresolved'' \<and> truthy (get connection ''fallback_host'') then [B_use_fallback] else [])
     @ [B_remove]"

definition connection_row :: "obj \<Rightarrow> window_row res" where
  "connection_row c =
     (let state = json_or (get c ''state'') (JStr ''unknown'') in
      and_then (presented CONNECTION_PRESENTATION state) (\<lambda>(tone, otherwise).
        Inr \<lparr>rw_id = get_else c ''id'' (JStr []),
             rw_title = JStr (''//'' @ py_str (get_else c ''host'' (JStr ''?'')) @ ''/'' @ py_str (get_else c ''share'' (JStr ''?''))),
             rw_subtitle = get_else c ''mountpoint'' (JStr []), rw_state = state,
             rw_message = given_or (get c ''message'') otherwise, rw_tone = tone,
             rw_actions = connection_actions c state, rw_hint = As_given (get c ''hint''),
             rw_section = In_connections, rw_account = JNull\<rparr>))"

definition bare_row :: "obj \<Rightarrow> json \<Rightarrow> tone \<Rightarrow> shown_text \<Rightarrow> window_row" where
  "bare_row share state tone message =
     \<lparr>rw_id = get_else share ''id'' (JStr ''-''), rw_title = get_else share ''name'' (JStr ''?''),
      rw_subtitle = get_else share ''path'' (JStr []), rw_state = state, rw_message = message, rw_tone = tone,
      rw_actions = [], rw_hint = As_given JNull, rw_section = In_shares, rw_account = JNull\<rparr>"

definition share_row_of :: "obj \<Rightarrow> window_row res" where
  "share_row_of share =
     (let state = json_or (get share ''state'') (JStr ''unknown'');
          read_only = (truthy (get share ''read_only'') \<or> state = JStr ''read-only'');
          user = get share ''credential_ref'';
          served = (state \<in> {JStr ''serving'', JStr ''read-only''}); sign_in = get share ''can_sign_in''
      in and_then (presented SHARE_PRESENTATION state) (\<lambda>(tone, said).
           if state = JStr ''unmanaged'' then Inr (bare_row share state tone (Worded said))
           else
             (let (tone, message, actions) =
                (if read_only
                 then (Tone_attention, given_or (get share ''read_only_reason'') Folder_of_somebody_else,
                       if truthy user then [B_make_writable] else [])
                 else (tone, Worded said, []));
                  (tone, message, actions, hint) =
                (if served \<and> sign_in = JBool False
                 then (Tone_attention, Worded (if truthy user then Account_cannot_sign_in user else Nobody_can_sign_in),
                       B_set_smb_password # actions, As_given JNull)
                 else if served \<and> truthy sign_in \<and> truthy user then (tone, message, actions, Worded (Signs_in_as user))
                 else (tone, message, actions, As_given JNull))
              in Inr ((bare_row share state tone message)
                   \<lparr>rw_actions := actions @ [B_remove], rw_hint := hint, rw_account := json_or user JNull\<rparr>))))"

definition unaccounted_row :: "obj \<Rightarrow> window_row" where
  "unaccounted_row finding =
     \<lparr>rw_id = json_or (get finding ''connection_id'') (get_else finding ''mountpoint'' (JStr [])),
      rw_title = get_else finding ''mountpoint'' (JStr []),
      rw_subtitle = json_or (get finding ''source'') (JStr ''nothing mounted''),
      rw_state = get_else finding ''kind'' (JStr ''unknown''), rw_message = As_given (get_else finding ''message'' (JStr [])),
      rw_tone = (if get finding ''kind'' = JStr ''orphaned'' then Tone_attention else Tone_muted), rw_actions = [],
      rw_hint = As_given JNull, rw_section = In_unaccounted, rw_account = JNull\<rparr>"

subsection \<open>The screen\<close>

record screen =
  sn_shares :: "window_row list"
  sn_connections :: "window_row list"
  sn_unaccounted :: "window_row list"
  sn_daemon :: string
  sn_here :: string

definition rows_of :: "(obj \<Rightarrow> window_row res) \<Rightarrow> json \<Rightarrow> window_row list res" where
  "rows_of f v = and_then (elements v) (map_res (\<lambda>x. and_then (as_dict x) f))"

definition screen_of :: "obj \<Rightarrow> screen res" where
  "screen_of reply =
     and_then (as_dict (json_or (get reply ''daemon'') (JObj []))) (\<lambda>daemon.
     and_then (rows_of share_row_of (get_else reply ''shares'' (JList []))) (\<lambda>shares.
     and_then (rows_of connection_row (get_else reply ''connections'' (JList []))) (\<lambda>connections.
     and_then (rows_of (\<lambda>f. Inr (unaccounted_row f)) (get_else reply ''unaccounted'' (JList []))) (\<lambda>others.
     and_then (describe_host (get reply ''host'')) (\<lambda>here.
       Inr \<lparr>sn_shares = shares, sn_connections = connections, sn_unaccounted = others,
            sn_daemon = ''smbpald '' @ py_str (get_else daemon ''version'' (JStr ''?'')) @ [CHR '' '', CHR 0xB7, CHR '' '']
              @ py_str (get_else daemon ''config'' (JStr [])),
            sn_here = here\<rparr>)))))"

definition all_rows :: "screen \<Rightarrow> window_row list" where
  "all_rows s = sn_shares s @ sn_connections s @ sn_unaccounted s"

definition problems :: "screen \<Rightarrow> window_row list" where "problems s = filter needs_attention (all_rows s)"

text \<open>One pushed \<open>state.changed\<close>, folded into the rows on the screen.\<close>

definition row_after :: "obj \<Rightarrow> window_row \<Rightarrow> window_row res" where
  "row_after data r =
     (if rw_id r \<noteq> get data ''id'' then Inr r
      else (let state = json_or (get data ''state'') (rw_state r) in
        and_then (presented CONNECTION_PRESENTATION state) (\<lambda>(tone, otherwise).
          Inr \<lparr>rw_id = rw_id r, rw_title = rw_title r, rw_subtitle = json_or (get data ''mountpoint'') (rw_subtitle r),
               rw_state = state, rw_message = given_or (get data ''message'') otherwise, rw_tone = tone,
               rw_actions = connection_actions data state, rw_hint = As_given (get data ''hint''),
               rw_section = rw_section r, rw_account = JNull\<rparr>)))"

definition apply_event :: "window_row list \<Rightarrow> obj \<Rightarrow> window_row list res" where
  "apply_event rows data = map_res (row_after data) rows"

subsection \<open>The tray\<close>

definition SERVING_STATES :: "string list" where "SERVING_STATES = [''serving'', ''read-only'']"

datatype tray_title =
    One_problem shown_text | Several_problems nat | What_is_live string | Nothing_connected_yet | Nothing_set_up | Service_not_running

datatype tray_line = Counted string | Problem_line json shown_text | Offline_because string

record indicator =
  in_status :: tone
  in_title :: tray_title
  in_detail :: "tray_line list"

definition counted :: "nat \<Rightarrow> string \<Rightarrow> string \<Rightarrow> string" where
  "counted n noun verb =
     (if n = 0 then [] else nat_str n @ '' '' @ (if n = 1 then noun else noun @ ''s'') @ '' '' @ verb)"

definition str_or :: "string \<Rightarrow> string \<Rightarrow> string" where "str_or s otherwise = (if s = [] then otherwise else s)"

definition shared_rows :: "screen \<Rightarrow> window_row list" where
  "shared_rows s = filter (\<lambda>r. among (rw_state r) SERVING_STATES) (sn_shares s)"

definition mounted_rows :: "screen \<Rightarrow> window_row list" where
  "mounted_rows s = filter (\<lambda>r. among (rw_state r) CONNECTED) (sn_connections s)"

definition tray_detail :: "screen \<Rightarrow> tray_line list" where
  "tray_detail s =
     [Counted (str_or (counted (length (shared_rows s)) ''folder'' ''shared'') ''Nothing shared from this computer''),
      Counted (str_or (counted (length (mounted_rows s)) ''share'' ''connected'') ''No shares connected'')]
     @ map (\<lambda>r. Problem_line (rw_title r) (rw_message r)) (problems s)"

definition indicator_of :: "screen \<Rightarrow> indicator" where
  "indicator_of s =
     (let live = filter (\<lambda>p. p \<noteq> []) [counted (length (shared_rows s)) ''folder'' ''shared'',
                                        counted (length (mounted_rows s)) ''share'' ''connected''];
          (st, title) =
        (case problems s of
           [p] \<Rightarrow> (Tone_problem, One_problem (rw_message p))
         | _ # _ \<Rightarrow> (Tone_problem, Several_problems (length (problems s)))
         | [] \<Rightarrow>
             if shared_rows s \<noteq> [] \<or> mounted_rows s \<noteq> [] then (Tone_ok, What_is_live (dotted live))
             else if sn_shares s \<noteq> [] \<or> sn_connections s \<noteq> [] then (Tone_idle, Nothing_connected_yet)
             else (Tone_muted, Nothing_set_up))
      in \<lparr>in_status = st, in_title = title, in_detail = tray_detail s\<rparr>)"

definition offline_indicator :: "string \<Rightarrow> indicator" where
  "offline_indicator message =
     \<lparr>in_status = Tone_problem, in_title = Service_not_running, in_detail = [Offline_because message]\<rparr>"

definition ICONS :: "(tone \<times> string) list" where
  "ICONS = [(Tone_problem, ''smbpal-attention''), (Tone_ok, ''smbpal''), (Tone_idle, ''smbpal-idle''), (Tone_muted, ''smbpal-idle'')]"

subsection \<open>Buttons\<close>

definition method_for :: "window_row \<Rightarrow> button \<Rightarrow> string res" where
  "method_for r b = (case map_of BUTTON_METHODS (rw_section r, b) of None \<Rightarrow> Inl ValueError | Some m \<Rightarrow> Inr m)"

datatype asking_first = Stop_sharing json | Remove_it json json | Allow_writing json json

definition confirmation :: "window_row \<Rightarrow> button \<Rightarrow> asking_first option" where
  "confirmation r b =
     (if b = B_remove \<and> rw_section r = In_shares then Some (Stop_sharing (rw_title r))
      else if b = B_remove \<and> rw_section r = In_connections then Some (Remove_it (rw_title r) (rw_subtitle r))
      else if b = B_make_writable then Some (Allow_writing (rw_title r) (rw_subtitle r))
      else None)"

subsection \<open>A desktop without a tray\<close>

definition EXTENSION :: string where "EXTENSION = ''gnome-shell-extension-appindicator''"

definition INSTALL :: "(string \<times> string \<times> string) list" where
  "INSTALL =
     [(''apt'', ''sudo apt install '' @ EXTENSION, ''ubuntu-appindicators@ubuntu.com''),
      (''dnf'', ''sudo dnf install '' @ EXTENSION, ''appindicatorsupport@rgcjonas.gmail.com'')]"

text \<open>Below 256 only the letters themselves, of either case, become \<open>GNOME\<close> in capitals.\<close>

definition is_gnome :: "string \<Rightarrow> bool" where
  "is_gnome desktop = list_ex (\<lambda>part. py_lower (take 5 (py_strip part)) = ''gnome'') (split_char (CHR '':'') desktop)"

definition tray_notice :: "string \<Rightarrow> string option \<Rightarrow> string \<times> string" where
  "tray_notice desktop installer =
     (''no-tray'',
      if \<not> is_gnome desktop
      then ''This desktop is not showing tray icons, so SMBPal has no icon. Nothing is missing: this window is the whole of SMBPal.''
      else ''GNOME does not show tray icons on its own, so SMBPal has no icon. To add one: ''
           @ (case Option.bind installer (map_of INSTALL) of
                None \<Rightarrow> ''install '' @ EXTENSION @ '', log out and back in, then enable it in the Extensions app''
              | Some (how, extension) \<Rightarrow> how @ '', then log out and back in, then gnome-extensions enable '' @ extension)
           @ ''. Nothing is missing without it: this window is the whole of SMBPal.'')"

subsection \<open>Every button works\<close>

lemma map_res_members: "map_res f xs = Inr ys \<Longrightarrow> y \<in> set ys \<Longrightarrow> \<exists>x \<in> set xs. f x = Inr y"
  by (induction xs arbitrary: ys) (auto simp: and_then_def split: sum.splits)

lemma rows_of_member: "rows_of f v = Inr rs \<Longrightarrow> r \<in> set rs \<Longrightarrow> \<exists>ob. f ob = Inr r"
  unfolding rows_of_def
  by (auto dest!: map_res_members)

lemma connection_row_actions:
  "connection_row c = Inr r \<Longrightarrow> rw_section r = In_connections
     \<and> set (rw_actions r) \<subseteq> {B_connect, B_disconnect, B_remove, B_use_fallback, B_set_credentials}"
  by (auto simp: connection_row_def Let_def connection_actions_def split: prod.splits if_splits)

lemma share_row_actions:
  "share_row_of c = Inr r \<Longrightarrow> rw_section r = In_shares \<and> set (rw_actions r) \<subseteq> {B_remove, B_make_writable, B_set_smb_password}"
  by (auto simp: share_row_of_def bare_row_def Let_def split: prod.splits if_splits)

lemma screen_rows:
  assumes "screen_of reply = Inr s" "r \<in> set (all_rows s)"
  shows "(\<exists>c. connection_row c = Inr r) \<or> (\<exists>c. share_row_of c = Inr r) \<or> (\<exists>f. unaccounted_row f = r)"
proof -
  consider "r \<in> set (sn_shares s)" | "r \<in> set (sn_connections s)" | "r \<in> set (sn_unaccounted s)"
    using assms(2) by (auto simp: all_rows_def)
  then show ?thesis
    using assms(1) by cases (auto simp: screen_of_def dest!: rows_of_member)
qed

text \<open>C33: No button of the window is dead. Whatever reply the screen was made from, each action a row offers has a method, it is one of
  the methods the daemon serves, and an action that cannot be undone asks first.\<close>

theorem every_button_works:
  assumes "screen_of reply = Inr s" and "r \<in> set (all_rows s)" and "b \<in> set (rw_actions r)"
  shows "\<exists>m. method_for r b = Inr m
    \<and> m \<in> fst ` set (METHODS :: (string \<times> ('x daemon \<Rightarrow> request \<Rightarrow> peer \<Rightarrow> (json, 'x run) act)) list)
    \<and> (b \<in> NEEDS_CONFIRMING \<longrightarrow> confirmation r b \<noteq> None)"
proof -
  have "rw_actions (unaccounted_row f) = []" for f by (simp add: unaccounted_row_def)
  then consider (c) "rw_section r = In_connections" "b \<in> {B_connect, B_disconnect, B_remove, B_use_fallback, B_set_credentials}"
    | (s) "rw_section r = In_shares" "b \<in> {B_remove, B_make_writable, B_set_smb_password}"
    using screen_rows [OF assms(1,2)] assms(3) connection_row_actions share_row_actions by fastforce
  then show ?thesis
    by cases (auto simp: method_for_def BUTTON_METHODS_def METHODS_def NEEDS_CONFIRMING_def confirmation_def)
qed

subsection \<open>The daemon's words are known, and the icon asks when it should\<close>

text \<open>The window knows every word the daemon has for a state. A connection's state, as the monitor says it or as the planner does,
  and a share's are in its tables, so no row is shown as unrecognised; and a state of the monitor is shown as a problem exactly when the
  daemon counts it as one.\<close>

theorem every_state_is_presented:
  "connection_text w \<in> fst ` set CONNECTION_PRESENTATION \<and> share_state row effective \<in> fst ` set SHARE_PRESENTATION
   \<and> (\<exists>tone said. presented CONNECTION_PRESENTATION (JStr (state_word (cs_state st))) = Inr (tone, said)
        \<and> said \<noteq> State_not_known \<and> (tone = Tone_problem \<longleftrightarrow> is_problem st))"
proof (intro conjI)
  show "connection_text w \<in> fst ` set CONNECTION_PRESENTATION"
    by (simp add: connection_text_def probe_text_def CONNECTION_PRESENTATION_def split: connection_word.split probe_word.split)
  show "share_state row effective \<in> fst ` set SHARE_PRESENTATION"
    by (simp add: share_state_def SHARE_PRESENTATION_def split: option.split)
  show "\<exists>tone said. presented CONNECTION_PRESENTATION (JStr (state_word (cs_state st))) = Inr (tone, said)
        \<and> said \<noteq> State_not_known \<and> (tone = Tone_problem \<longleftrightarrow> is_problem st)"
    by (cases "cs_state st")
      (simp_all add: presented_def is_problem_def PROBLEM_STATES_def state_word_def CONNECTION_PRESENTATION_def)
qed

text \<open>The tray asks for somebody exactly when a row does. Its icon is the problem icon if and only if some row of the screen needs
  attention, it always has an icon, and its detail names every such row.\<close>

theorem tray_asks_when_a_row_does:
  "(in_status (indicator_of s) = Tone_problem \<longleftrightarrow> (\<exists>r \<in> set (all_rows s). needs_attention r))
   \<and> in_status (indicator_of s) \<in> fst ` set ICONS
   \<and> (\<forall>r \<in> set (all_rows s). needs_attention r \<longrightarrow> Problem_line (rw_title r) (rw_message r) \<in> set (in_detail (indicator_of s)))"
proof -
  have p: "problems s \<noteq> [] \<longleftrightarrow> (\<exists>r \<in> set (all_rows s). needs_attention r)" by (auto simp: problems_def filter_empty_conv)
  have "in_status (indicator_of s) = Tone_problem \<longleftrightarrow> problems s \<noteq> []" "in_status (indicator_of s) \<in> fst ` set ICONS"
    by (auto simp: indicator_of_def Let_def ICONS_def split: list.split)
  moreover have "in_detail (indicator_of s) = tray_detail s" by (simp add: indicator_of_def Let_def split: list.split)
  ultimately show ?thesis unfolding p [symmetric] by (auto simp: tray_detail_def problems_def)
qed

subsection \<open>An event shows what a refresh would\<close>

text \<open>The \<open>state.changed\<close> of \<open>StateMonitor._emit\<close>, as it is put on the wire.\<close>

definition state_event :: "say \<Rightarrow> obj \<Rightarrow> connection_state option \<Rightarrow> connection_state \<Rightarrow> obj" where
  "state_event say config previous st =
     with_keys (monitor_wire say st)
       ((''previous'', case previous of None \<Rightarrow> JNull | Some p \<Rightarrow> JStr (state_word (cs_state p)))
        # (case connection_lookup config (cs_id st) of
             None \<Rightarrow> []
           | Some c \<Rightarrow>
               (''mountpoint'', get c ''mountpoint'')
               # (case fallback_hint c st of None \<Rightarrow> [] | Some h \<Rightarrow> [(''hint'', JStr (say (Hint_says h)))])))"

lemma with_keys_get: "get (with_keys ob new) k = (case map_of (rev new) k of None \<Rightarrow> get ob k | Some v \<Rightarrow> v)"
proof -
  have "map_of (fold (\<lambda>(k, v). AList.update k v) new ob) k = (case map_of (rev new) k of None \<Rightarrow> map_of ob k | Some v \<Rightarrow> Some v)" for ob
    by (induction new arbitrary: ob) (auto split: option.split)
  then show ?thesis by (simp add: with_keys_def get_def split: option.split)
qed

lemma with_keys_get_else:
  "get_else (with_keys ob new) k d = (case map_of (rev new) k of None \<Rightarrow> get_else ob k d | Some v \<Rightarrow> v)"
proof -
  have "map_of (fold (\<lambda>(k, v). AList.update k v) new ob) k = (case map_of (rev new) k of None \<Rightarrow> map_of ob k | Some v \<Rightarrow> Some v)" for ob
    by (induction new arbitrary: ob) (auto split: option.split)
  then show ?thesis by (simp add: with_keys_def get_else_def split: option.split)
qed

text \<open>C34: A row an event updated is the row a fresh \<open>status\<close> would draw. For a connection of the configuration, when the monitor moved
  from one state to another, the row drawn before and the event give what the reply with the new state gives; unless the
  new state is one in which the fallback address is offered.\<close>

theorem event_redraws_what_a_refresh_shows:
  assumes "Monitor.state_for m (text_of planned ''id'') = Some old" and "Monitor.state_for m' (text_of planned ''id'') = Some new"
    and "connection_row (monitored_row d m planned) = Inr drawn"
    and "connection_lookup config (cs_id new) = Some c" and "map_of planned ''id'' = Some (JStr (cs_id new))"
    and "map_of planned ''mountpoint'' = Some (JStr p)" and "get c ''mountpoint'' = JStr p"
    and "map_of planned ''hint'' = None" and "get c ''fallback_host'' = get planned ''fallback_host''"
    and "\<not> (cs_state new = Unresolved \<and> truthy (get planned ''fallback_host''))"
  shows "\<exists>after. connection_row (monitored_row d m' planned) = Inr after
    \<and> apply_event [drawn] (state_event (dm_say d) config (Some old) new) = Inr [after]"
proof -
  let ?fresh = "monitored_row d m' planned" let ?event = "state_event (dm_say d) config (Some old) new"
  let ?was = "monitored_row d m planned"
  have no_hint: "fallback_hint planned new = None" "fallback_hint c new = None"
    using assms(9,10) by (auto simp: fallback_hint_def)
  have "get planned ''hint'' = JNull" using assms(8) by (simp add: get_def)
  then have fresh: "get ?fresh ''state'' = JStr (state_word (cs_state new))"
    "get ?fresh ''message'' = JStr (dm_say d (State_says (cs_message new)))" "get ?fresh ''hint'' = JNull"
    "get ?fresh ''fallback_host'' = get planned ''fallback_host''"
    using assms(2) no_hint by (simp_all add: monitored_row_def with_keys_get)
  have kept: "get_else ?fresh k = get_else planned k" if "k \<in> {''id'', ''host'', ''share'', ''mountpoint''}" for k
    using assms(2) no_hint that by (auto simp: monitored_row_def with_keys_get_else fun_eq_iff)
  have event: "get ?event ''id'' = JStr (cs_id new)" "get ?event ''state'' = JStr (state_word (cs_state new))"
    "get ?event ''message'' = JStr (dm_say d (State_says (cs_message new)))" "get ?event ''hint'' = JNull"
    "get ?event ''mountpoint'' = JStr p" "get ?event ''fallback_host'' = JNull"
    using assms(4,7) no_hint by (simp_all add: state_event_def with_keys_get) (simp_all add: monitor_wire_def get_def)
  have was: "get_else ?was k = get_else planned k" if "k \<in> {''id'', ''host'', ''share'', ''mountpoint''}" for k
    using assms(1) that by (auto simp: monitored_row_def with_keys_get_else fun_eq_iff split: option.split)
  have before: "rw_id drawn = JStr (cs_id new)" "rw_subtitle drawn = JStr p" "rw_section drawn = In_connections"
    "rw_title drawn = JStr (''//'' @ py_str (get_else planned ''host'' (JStr ''?'')) @ ''/'' @ py_str (get_else planned ''share'' (JStr ''?'')))"
    using assms(3,5,6) by (auto simp: connection_row_def Let_def was get_else_def split: prod.splits)
  obtain tone said where t: "presented CONNECTION_PRESENTATION (JStr (state_word (cs_state new))) = Inr (tone, said)"
    by (simp add: presented_def) (metis surj_pair)
  have truthy: "truthy (JStr (state_word (cs_state new)))" by (cases "cs_state new") (simp_all add: state_word_def)
  have actions: "connection_actions ?event (JStr (state_word (cs_state new))) = connection_actions ?fresh (JStr (state_word (cs_state new)))"
    using assms(10) event(6) fresh(4) by (cases "cs_state new") (simp_all add: connection_actions_def state_word_def)
  have sub: "json_or (JStr p) (JStr p) = JStr p" by (simp add: json_or_def)
  show ?thesis
    using t truthy actions fresh kept before event assms(5,6) sub
    by (simp add: connection_row_def apply_event_def row_after_def Let_def json_or_def get_else_def)
qed

subsection \<open>On a small network\<close>

definition nas_row :: "string option \<Rightarrow> obj" where
  "nas_row fallback =
     [(''id'', JStr ''nas''), (''host'', JStr ''nas.local''), (''share'', JStr ''Media''), (''mountpoint'', JStr ''/mnt/nas''),
      (''fallback_host'', case fallback of None \<Rightarrow> JNull | Some a \<Rightarrow> JStr a)]"

definition nas_doc :: "string option \<Rightarrow> obj" where "nas_doc fallback = [(''connections'', JList [JObj (nas_row fallback)])]"

definition seen_as :: "conn_state \<Rightarrow> monitor" where
  "seen_as st = (monitor_init False)\<lparr>mo_states := [(''nas'', plain_state ''nas'' st Ready)]\<rparr>"

lemma seen: "Monitor.state_for (seen_as st) ''nas'' = Some (plain_state ''nas'' st Ready)"
  by (simp add: Monitor.state_for_def seen_as_def)

theorem event_redraws_what_a_refresh_shows_witness:
  "\<exists>drawn after. connection_row (monitored_row etc_daemon (seen_as Idle) (nas_row None)) = Inr drawn
     \<and> connection_row (monitored_row etc_daemon (seen_as Unresolved) (nas_row None)) = Inr after
     \<and> apply_event [drawn] (state_event (dm_say etc_daemon) (nas_doc None) (Some (plain_state ''nas'' Idle Ready))
          (plain_state ''nas'' Unresolved Ready)) = Inr [after]"
proof -
  have "case connection_row (monitored_row etc_daemon (seen_as Idle) (nas_row None)) of Inl _ \<Rightarrow> False | Inr _ \<Rightarrow> True" by code_simp
  then obtain drawn where d: "connection_row (monitored_row etc_daemon (seen_as Idle) (nas_row None)) = Inr drawn"
    by (auto split: sum.splits)
  have i: "text_of (nas_row None) ''id'' = ''nas''" by code_simp
  have c: "connection_lookup (nas_doc None) (cs_id (plain_state ''nas'' Unresolved Ready)) = Some (nas_row None)" by code_simp
  have k: "map_of (nas_row None) ''id'' = Some (JStr (cs_id (plain_state ''nas'' Unresolved Ready)))"
    "map_of (nas_row None) ''mountpoint'' = Some (JStr ''/mnt/nas'')" "get (nas_row None) ''mountpoint'' = JStr ''/mnt/nas''"
    "map_of (nas_row None) ''hint'' = None" "\<not> truthy (get (nas_row None) ''fallback_host'')" by code_simp+
  show ?thesis
    using event_redraws_what_a_refresh_shows [of "seen_as Idle" "nas_row None" "plain_state ''nas'' Idle Ready" "seen_as Unresolved"
        "plain_state ''nas'' Unresolved Ready" etc_daemon drawn "nas_doc None" "nas_row None" "''/mnt/nas''"] d k c
    by (simp add: i seen)
qed

text \<open>An event never carries the fallback address. When a name stops resolving, the row offers the fallback after a refresh and
  does not after the event, which shows only the hint that there is one.\<close>

theorem event_hides_the_fallback:
  "map_option rw_actions (case connection_row (monitored_row etc_daemon (seen_as Unresolved) (nas_row (Some ''10.0.0.5''))) of
       Inl _ \<Rightarrow> None | Inr r \<Rightarrow> Some r) = Some [B_connect, B_use_fallback, B_remove]
   \<and> (\<exists>drawn after. connection_row (monitored_row etc_daemon (seen_as Idle) (nas_row (Some ''10.0.0.5''))) = Inr drawn
        \<and> apply_event [drawn] (state_event (dm_say etc_daemon) (nas_doc (Some ''10.0.0.5'')) None (plain_state ''nas'' Unresolved Ready))
          = Inr [after] \<and> rw_actions after = [B_connect, B_remove])"
proof -
  have "case connection_row (monitored_row etc_daemon (seen_as Idle) (nas_row (Some ''10.0.0.5''))) of
      Inl _ \<Rightarrow> False
    | Inr drawn \<Rightarrow>
        (case apply_event [drawn] (state_event (dm_say etc_daemon) (nas_doc (Some ''10.0.0.5'')) None (plain_state ''nas'' Unresolved Ready)) of
           Inr [after] \<Rightarrow> rw_actions after = [B_connect, B_remove]
         | _ \<Rightarrow> False)" by code_simp
  moreover have "map_option rw_actions (case connection_row (monitored_row etc_daemon (seen_as Unresolved) (nas_row (Some ''10.0.0.5''))) of
       Inl _ \<Rightarrow> None | Inr r \<Rightarrow> Some r) = Some [B_connect, B_use_fallback, B_remove]" by code_simp
  ultimately show ?thesis by (auto split: sum.splits list.splits)
qed

theorem every_button_works_witness:
  "\<exists>s r. screen_of [(''shares'', JList [JObj [(''name'', JStr ''Media''), (''state'', JStr ''serving'')]])] = Inr s
     \<and> r \<in> set (all_rows s) \<and> method_for r B_remove = Inr ''share.remove''"
proof -
  let ?reply = "[(''shares'', JList [JObj [(''name'', JStr ''Media''), (''state'', JStr ''serving'')]])]"
  have "case screen_of ?reply of Inl _ \<Rightarrow> False | Inr s \<Rightarrow> map rw_actions (all_rows s) = [[B_remove]] \<and> map rw_section (all_rows s) = [In_shares]"
    by code_simp
  then obtain s r where s: "screen_of ?reply = Inr s" "all_rows s = [r]" "rw_actions r = [B_remove]" "rw_section r = In_shares"
    by (auto split: sum.splits)
  have "\<exists>m. method_for r B_remove = Inr m \<and> m \<in> fst ` set (METHODS :: (string \<times> (unit daemon \<Rightarrow> request \<Rightarrow> peer \<Rightarrow> (json, unit run) act)) list)
    \<and> (B_remove \<in> NEEDS_CONFIRMING \<longrightarrow> confirmation r B_remove \<noteq> None)"
    by (rule every_button_works [OF s(1)]) (simp_all add: s)
  then show ?thesis using s by (intro exI [of _ s] exI [of _ r]) (auto simp: method_for_def BUTTON_METHODS_def)
qed

theorem tray_asks_when_a_row_does_witness:
  "\<exists>s. screen_of [(''connections'', JList [JObj [(''state'', JStr ''failed'')]])] = Inr s \<and> in_status (indicator_of s) = Tone_problem"
proof -
  let ?reply = "[(''connections'', JList [JObj [(''state'', JStr ''failed'')]])]"
  have "case screen_of ?reply of Inl _ \<Rightarrow> False | Inr s \<Rightarrow> map rw_tone (all_rows s) = [Tone_problem]" by code_simp
  then obtain s r where s: "screen_of ?reply = Inr s" "all_rows s = [r]" "rw_tone r = Tone_problem" by (auto split: sum.splits)
  then have "needs_attention r" by (simp add: needs_attention_def)
  with s tray_asks_when_a_row_does [of s] show ?thesis by auto
qed

end
