(* ===== verification/Spec2Isabelle.thy ===== *)
theory Spec2Isabelle
  imports Edits Machine Probe Pushed Retrying Serving Mounting Credentials Links Reports Listening Sharepoints Screen
begin

text \<open>Verification of SMBPal. See the theories for what each models.\<close>

end
